(* ===== verification/Prelude.thy ===== *)
theory Prelude
  imports Main "HOL-Library.Word" "HOL-Library.Multiset"
begin

text \<open>
  Shared vocabulary of the development: the machine integer types of the Rust sources, the
  arithmetic of Rust's and ruint's integer methods (wrapping operators, \<open>saturating_*\<close>,
  \<open>checked_*\<close>, \<open>div_ceil\<close>, narrowing conversions), results as sums, and the generic lemmas
  the component theories use.

  The \<open>+\<close>, \<open>-\<close> and \<open>*\<close> of a word wrap around. For \<open>U256\<close> that is what the operators
  do; for \<open>u64\<close> and \<open>u32\<close> it is what they do in the release profile of the workspace
  (\<open>Cargo.toml\<close> leaves overflow checks off there).
\<close>

section \<open>Collections of rules\<close>

named_theorems unat_simps \<open>the natural-number reading of the integer operations\<close>
named_theorems res_simps \<open>evaluation of results\<close>

section \<open>Integer and byte types\<close>

type_synonym u8 = "8 word"
type_synonym u32 = "32 word"
type_synonym u64 = "64 word"
type_synonym u128 = "128 word"
type_synonym u256 = "256 word"
type_synonym address = "160 word"
type_synonym selector = "32 word"
type_synonym bytes = "8 word list"

section \<open>Results\<close>

text \<open>A fallible computation is a sum, errors on the left; \<open>res_bind\<close> is the \<open>?\<close> operator.\<close>

fun res_bind :: "'e + 'a \<Rightarrow> ('a \<Rightarrow> 'e + 'b) \<Rightarrow> 'e + 'b" where
  "res_bind (Inl e) f = Inl e"
| "res_bind (Inr x) f = f x"

definition ok_or :: "'e \<Rightarrow> 'a option \<Rightarrow> 'e + 'a" where
  "ok_or e x = (case x of None \<Rightarrow> Inl e | Some y \<Rightarrow> Inr y)"

lemma res_bind_Inr [res_simps]: "res_bind m f = Inr y \<longleftrightarrow> (\<exists>x. m = Inr x \<and> f x = Inr y)"
  by (cases m) auto

lemma res_bind_Inl [res_simps]:
  "res_bind m f = Inl e \<longleftrightarrow> m = Inl e \<or> (\<exists>x. m = Inr x \<and> f x = Inl e)"
  by (cases m) auto

lemma ok_or_Inr [res_simps]: "ok_or e x = Inr y \<longleftrightarrow> x = Some y"
  by (auto simp: ok_or_def split: option.splits)

section \<open>Integer methods\<close>

definition saturating_sub :: "'a::len word \<Rightarrow> 'a word \<Rightarrow> 'a word" where
  "saturating_sub a b = (if a < b then 0 else a - b)"

definition saturating_add :: "'a::len word \<Rightarrow> 'a word \<Rightarrow> 'a word" where
  "saturating_add a b = (if unat a + unat b < 2 ^ LENGTH('a) then a + b else - 1)"

definition saturating_mul :: "'a::len word \<Rightarrow> 'a word \<Rightarrow> 'a word" where
  "saturating_mul a b = (if unat a * unat b < 2 ^ LENGTH('a) then a * b else - 1)"

definition checked_mul :: "'a::len word \<Rightarrow> 'a word \<Rightarrow> 'a word option" where
  "checked_mul a b = (if unat a * unat b < 2 ^ LENGTH('a) then Some (a * b) else None)"

definition checked_div :: "'a::len word \<Rightarrow> 'a word \<Rightarrow> 'a word option" where
  "checked_div a b = (if b = 0 then None else Some (a div b))"

definition div_ceil :: "'a::len word \<Rightarrow> 'a word \<Rightarrow> 'a word" where
  "div_ceil a b = (if a mod b = 0 then a div b else a div b + 1)"

definition narrow :: "'a::len word \<Rightarrow> 'b::len word option" where
  "narrow a = (if unat a < 2 ^ LENGTH('b) then Some (ucast a) else None)"

definition narrow_sat :: "'a::len word \<Rightarrow> 'b::len word" where
  "narrow_sat a = (if unat a < 2 ^ LENGTH('b) then ucast a else - 1)"

lemma unat_saturating_sub [unat_simps]: "unat (saturating_sub a b) = unat a - unat b"
  by (simp add: saturating_sub_def word_less_nat_alt unat_sub word_le_nat_alt)

lemma unat_max_word [unat_simps]: "unat (- 1 :: 'a::len word) = 2 ^ LENGTH('a) - 1"
  by (simp add: unsigned_minus_1_eq_mask mask_eq_exp_minus_1)

lemma unat_saturating_mul [unat_simps]:
  "unat (saturating_mul a b) = min (unat a * unat b) (2 ^ LENGTH('a) - 1)"
  for a b :: "'a::len word"
  by (auto simp: saturating_mul_def unat_max_word unat_word_ariths)

lemma unat_saturating_add [unat_simps]:
  "unat (saturating_add a b) = min (unat a + unat b) (2 ^ LENGTH('a) - 1)"
  for a b :: "'a::len word"
  by (auto simp: saturating_add_def unat_max_word unat_word_ariths)

lemma unat_lt: "unat w < 2 ^ LENGTH('a)" for w :: "'a::len word"
  by (rule unsigned_less)

lemma unat_ucast_up [simp]:
  "LENGTH('a) \<le> LENGTH('b) \<Longrightarrow> unat (ucast w :: 'b::len word) = unat w" for w :: "'a::len word"
proof -
  assume "LENGTH('a) \<le> LENGTH('b)"
  then have "unat w < 2 ^ LENGTH('b)"
    by (intro less_le_trans [OF unat_lt power_increasing]) auto
  then show ?thesis by (simp add: unsigned_ucast_eq take_bit_nat_eq_self)
qed

lemma ucast_eq_0_iff:
  fixes w :: "'a::len word"
  assumes "LENGTH('a) \<le> LENGTH('b)"
  shows "(ucast w :: 'b::len word) = 0 \<longleftrightarrow> w = 0"
  using unat_ucast_up [OF assms, of w] by (metis unat_eq_zero)

lemma unat_add_no_wrap: "unat a + unat b < 2 ^ LENGTH('a) \<Longrightarrow> unat (a + b) = unat a + unat b"
  for a b :: "'a::len word"
  by (simp add: unat_word_ariths)

lemma unat_mult_no_wrap: "unat a * unat b < 2 ^ LENGTH('a) \<Longrightarrow> unat (a * b) = unat a * unat b"
  for a b :: "'a::len word"
  by (simp add: unat_word_ariths)

lemma unat_diff_le: "b \<le> a \<Longrightarrow> unat (a - b) = unat a - unat b"
  for a b :: "'a::len word"
  by (simp add: unat_sub)

lemma checked_mul_Some:
  "checked_mul a b = Some c \<longleftrightarrow> unat a * unat b < 2 ^ LENGTH('a) \<and> c = a * b"
  for a b :: "'a::len word"
  by (auto simp: checked_mul_def)

lemma checked_div_Some: "checked_div a b = Some c \<longleftrightarrow> b \<noteq> 0 \<and> c = a div b"
  by (auto simp: checked_div_def)

lemma nat_div_ceil:
  assumes "0 < (m::nat)"
  shows "(n + m - 1) div m = (if n mod m = 0 then n div m else n div m + 1)"
proof -
  define q r where "q = n div m" and "r = n mod m"
  have n: "n = m * q + r" and r: "r < m"
    using assms by (simp_all add: q_def r_def)
  have "(n + m - 1) div m = (if r = 0 then q else q + 1)"
  proof (cases "r = 0")
    case True
    then show ?thesis using n assms by (auto intro!: div_nat_eqI)
  next
    case False
    then show ?thesis using n r by (auto intro!: div_nat_eqI)
  qed
  then show ?thesis by (simp add: q_def r_def)
qed

lemma div_ceil_bound_iff:
  assumes "0 < (m::nat)"
  shows "(n + m - 1) div m \<le> k \<longleftrightarrow> n \<le> k * m"
proof -
  have "(n + m - 1) div m \<le> k \<longleftrightarrow> (n + m - 1) div m < k + 1" by linarith
  also have "\<dots> \<longleftrightarrow> n + m - 1 < (k + 1) * m"
    using assms by (rule div_less_iff_less_mult)
  also have "\<dots> \<longleftrightarrow> n \<le> k * m"
    using assms by auto
  finally show ?thesis .
qed

lemma unat_div_ceil: "unat (div_ceil a b) = (unat a + unat b - 1) div unat b"
  if "b \<noteq> 0" for a b :: "'a::len word"
proof -
  have b: "0 < unat b" using that by (simp add: unat_gt_0)
  have mod: "a mod b = 0 \<longleftrightarrow> unat a mod unat b = 0"
    by (metis unat_mod_distrib unat_eq_zero)
  have "unat (a div b + 1) = unat a div unat b + 1" if ne: "unat a mod unat b \<noteq> 0"
  proof -
    have pos: "0 < unat a" and "unat b \<noteq> 1" using ne by (auto intro: gr0I)
    then have "unat a div unat b < unat a"
      using b by (intro div_less_dividend) auto
    moreover have "unat a < 2 ^ LENGTH('a)" by simp
    ultimately have "unat a div unat b + 1 < 2 ^ LENGTH('a)" by linarith
    then show ?thesis by (simp add: unat_word_ariths unat_div_distrib)
  qed
  then show ?thesis
    using mod nat_div_ceil [OF b, of "unat a"] by (simp add: div_ceil_def unat_div_distrib)
qed

lemma unat_narrow_sat [unat_simps]:
  "unat (narrow_sat a :: 'b::len word) = min (unat a) (2 ^ LENGTH('b) - 1)"
  by (auto simp: narrow_sat_def unat_max_word unsigned_ucast_eq take_bit_nat_eq_self)

lemma narrow_Some: "narrow a = Some (b :: 'b::len word) \<longleftrightarrow>
    unat a < 2 ^ LENGTH('b) \<and> unat b = unat a"
proof
  show "narrow a = Some b \<Longrightarrow> unat a < 2 ^ LENGTH('b) \<and> unat b = unat a"
    by (auto simp: narrow_def unsigned_ucast_eq take_bit_nat_eq_self split: if_splits)
  assume "unat a < 2 ^ LENGTH('b) \<and> unat b = unat a"
  then show "narrow a = Some b"
    by (auto simp: narrow_def unsigned_ucast_eq take_bit_nat_eq_self intro!: word_unat_eq_iff [THEN iffD2])
qed

end
