(* ===== verification/MarketTypes.thy ===== *)
theory MarketTypes
  imports Prelude
begin

text \<open>
  The data model of the market: request identifiers, offers, requirements, predicates,
  fulfillment data and proof requests, with the operations of
  \<open>crates/boundless-market/src/contracts/mod.rs\<close> and \<open>digest.rs\<close> on them. The struct types
  themselves are generated from the Solidity files under \<open>contracts/src/types\<close>, whose field
  names are kept (with a prefix where two structs share a name).

  Code outside the repository is a parameter: \<open>url_ok\<close> stands for \<open>Url::parse(..).is_ok()\<close>,
  \<open>claim_ok\<close> and \<open>claim_pruned\<close> for the digest of \<open>ReceiptClaim::ok\<close> on a journal and on a
  pruned journal digest, \<open>abi_encode\<close>/\<open>abi_decode\<close> for the ABI coder of
  \<open>FulfillmentDataImageIdAndJournal\<close>, \<open>keccak\<close> for Keccak-256 and \<open>eip712_hash\<close> for the
  EIP-712 signing hash, \<open>sig_parse\<close>, \<open>sig_normalize\<close> and \<open>sig_recover\<close> for the ECDSA
  library. Log output and error payloads of third-party error types are left out.
\<close>

unbundle bit_operations_syntax

section \<open>Digests\<close>

text \<open>A digest is 32 bytes; \<open>wf_digest\<close> is the length the array type fixes.\<close>

type_synonym digest = bytes

definition wf_digest :: "digest \<Rightarrow> bool" where
  "wf_digest d \<longleftrightarrow> length d = 32"

definition digest_try_from :: "bytes \<Rightarrow> digest option" where
  "digest_try_from bs = (if length bs = 32 then Some bs else None)"

fun u32_from_le_bytes :: "bytes \<Rightarrow> u32" where
  "u32_from_le_bytes [] = 0"
| "u32_from_le_bytes (b # bs) = ucast b OR push_bit 8 (u32_from_le_bytes bs)"

fun u32_to_le_bytes :: "nat \<Rightarrow> u32 \<Rightarrow> bytes" where
  "u32_to_le_bytes 0 w = []"
| "u32_to_le_bytes (Suc n) w = ucast w # u32_to_le_bytes n (drop_bit 8 w)"

text \<open>Serde encodes a digest as eight little-endian words (\<open>digest.rs\<close>).\<close>

definition digest_serialize :: "digest \<Rightarrow> u32 list" where
  "digest_serialize d = map (\<lambda>i. u32_from_le_bytes (take 4 (drop (i * 4) d))) [0..<8]"

definition digest_deserialize :: "u32 list \<Rightarrow> digest" where
  "digest_deserialize ws = concat (map (u32_to_le_bytes 4) ws)"

section \<open>Request identifiers\<close>

record RequestId =
  rid_addr :: address
  rid_index :: u32
  smart_contract_signed :: bool

datatype PredicateError = DataMalformed | PredicateInvalidType

datatype RequestError =
    MalformedRequestId | ClientAddrIsZero | SignatureError | SignatureNonCanonicalError
  | EmptyImageUrl | MalformedImageUrl | ImageIdIsZero | OfferTimeoutIsZero
  | OfferLockTimeoutIsZero | OfferRampUpGreaterThanLockTimeout
  | OfferLockTimeoutGreaterThanTimeout | OfferTimeoutRangeTooLarge | OfferMaxPriceIsZero
  | OfferMaxPriceIsLessThanMin | OfferRampUpStartIsZero | MissingRequirements
  | MissingImageUrl | MissingInput | MissingOffer | MissingRequestId | DigestMismatch
  | RequestPredicateError PredicateError

definition request_id_new :: "address \<Rightarrow> u32 \<Rightarrow> RequestId" where
  "request_id_new a i = \<lparr>rid_addr = a, rid_index = i, smart_contract_signed = False\<rparr>"

definition u256_from_request_id :: "RequestId \<Rightarrow> u256" where
  "u256_from_request_id r =
     (let smart_contract_signed_flag = (if smart_contract_signed r then 1 else 0)
      in push_bit 192 smart_contract_signed_flag OR push_bit 32 (ucast (rid_addr r))
           OR ucast (rid_index r))"

definition request_id_u256 :: "address \<Rightarrow> u32 \<Rightarrow> u256" where
  "request_id_u256 a i = u256_from_request_id (request_id_new a i)"

definition set_smart_contract_signed_flag :: "RequestId \<Rightarrow> RequestId" where
  "set_smart_contract_signed_flag r =
     \<lparr>rid_addr = rid_addr r, rid_index = rid_index r, smart_contract_signed = True\<rparr>"

definition from_lossy :: "u256 \<Rightarrow> RequestId" where
  "from_lossy value =
     (let addr_u256 = drop_bit 32 value AND (push_bit 160 1 - 1)
      in \<lparr>rid_addr = ucast addr_u256,
          rid_index = ucast (value AND 0xFFFFFFFF),
          smart_contract_signed = (value AND push_bit 192 1 \<noteq> 0)\<rparr>)"

definition request_id_try_from :: "u256 \<Rightarrow> RequestError + RequestId" where
  "request_id_try_from value =
     (if drop_bit 193 value \<noteq> 0 then Inl MalformedRequestId else Inr (from_lossy value))"

section \<open>Requests\<close>

datatype PredicateType = DigestMatchType | PrefixMatchType | ClaimDigestMatchType
  | PredicateTypeInvalid

record RequestPredicate =
  predicateType :: PredicateType
  predicateData :: bytes

record Callback =
  cb_addr :: address
  gasLimit :: "96 word"

record Requirements =
  callback :: Callback
  predicate :: RequestPredicate
  req_selector :: selector

datatype RequestInputType = Inline | Url | RequestInputTypeInvalid

record RequestInput =
  inputType :: RequestInputType
  inputData :: bytes

record Offer =
  minPrice :: u256
  maxPrice :: u256
  rampUpStart :: u64
  rampUpPeriod :: u32
  lockTimeout :: u32
  timeout :: u32
  lockCollateral :: u256

record ProofRequest =
  request_id :: u256
  requirements :: Requirements
  imageUrl :: string
  request_input :: RequestInput
  offer :: Offer

subsection \<open>Callbacks, requirements, inputs and offers\<close>

definition callback_none :: Callback where
  "callback_none = \<lparr>cb_addr = 0, gasLimit = 0\<rparr>"

definition callback_with_addr :: "Callback \<Rightarrow> address \<Rightarrow> Callback" where
  "callback_with_addr c a = c\<lparr>cb_addr := a\<rparr>"

definition callback_with_gas_limit :: "Callback \<Rightarrow> u64 \<Rightarrow> Callback" where
  "callback_with_gas_limit c g = c\<lparr>gasLimit := ucast g\<rparr>"

definition callback_is_none :: "Callback \<Rightarrow> bool" where
  "callback_is_none c \<longleftrightarrow> cb_addr c = 0"

definition callback_as_option :: "Callback \<Rightarrow> Callback option" where
  "callback_as_option c = (if \<not> callback_is_none c then Some c else None)"

definition callback_from_option :: "Callback option \<Rightarrow> Callback" where
  "callback_from_option opt = (case opt of Some c \<Rightarrow> c | None \<Rightarrow> callback_none)"

definition UNSPECIFIED_SELECTOR :: selector where
  "UNSPECIFIED_SELECTOR = 0"

definition requirements_new :: "RequestPredicate \<Rightarrow> Requirements" where
  "requirements_new p =
     \<lparr>callback = callback_none, predicate = p, req_selector = UNSPECIFIED_SELECTOR\<rparr>"

definition requirements_with_predicate :: "Requirements \<Rightarrow> RequestPredicate \<Rightarrow> Requirements" where
  "requirements_with_predicate r p = r\<lparr>predicate := p\<rparr>"

definition requirements_with_callback :: "Requirements \<Rightarrow> Callback \<Rightarrow> Requirements" where
  "requirements_with_callback r c = r\<lparr>callback := c\<rparr>"

definition requirements_with_selector :: "Requirements \<Rightarrow> selector \<Rightarrow> Requirements" where
  "requirements_with_selector r s = r\<lparr>req_selector := s\<rparr>"

definition input_inline :: "bytes \<Rightarrow> RequestInput" where
  "input_inline d = \<lparr>inputType = Inline, inputData = d\<rparr>"

definition input_url :: "string \<Rightarrow> RequestInput" where
  "input_url u = \<lparr>inputType = Url, inputData = map of_char u\<rparr>"

definition with_min_price_per_mcycle :: "Offer \<Rightarrow> u256 \<Rightarrow> u64 \<Rightarrow> Offer" where
  "with_min_price_per_mcycle o1 mcycle_price mcycle = o1\<lparr>minPrice := mcycle_price * ucast mcycle\<rparr>"

definition with_max_price_per_mcycle :: "Offer \<Rightarrow> u256 \<Rightarrow> u64 \<Rightarrow> Offer" where
  "with_max_price_per_mcycle o1 mcycle_price mcycle = o1\<lparr>maxPrice := mcycle_price * ucast mcycle\<rparr>"

definition with_lock_collateral_per_mcycle :: "Offer \<Rightarrow> u256 \<Rightarrow> u64 \<Rightarrow> Offer" where
  "with_lock_collateral_per_mcycle o1 mcycle_price mcycle =
     o1\<lparr>lockCollateral := mcycle_price * ucast mcycle\<rparr>"

subsection \<open>Predicates\<close>

datatype Predicate =
    DigestMatch digest digest
  | PrefixMatch digest bytes
  | ClaimDigestMatch digest

fun request_predicate_from :: "Predicate \<Rightarrow> RequestPredicate" where
  "request_predicate_from (DigestMatch image_id journal_digest) =
     \<lparr>predicateType = DigestMatchType, predicateData = image_id @ journal_digest\<rparr>"
| "request_predicate_from (PrefixMatch image_id journal_prefix) =
     \<lparr>predicateType = PrefixMatchType, predicateData = image_id @ journal_prefix\<rparr>"
| "request_predicate_from (ClaimDigestMatch claim_digest) =
     \<lparr>predicateType = ClaimDigestMatchType, predicateData = claim_digest\<rparr>"

text \<open>\<open>split_at_checked\<close> of the standard library.\<close>

definition split_at_checked :: "nat \<Rightarrow> 'a list \<Rightarrow> ('a list \<times> 'a list) option" where
  "split_at_checked n xs = (if n \<le> length xs then Some (take n xs, drop n xs) else None)"

definition predicate_try_from :: "RequestPredicate \<Rightarrow> PredicateError + Predicate" where
  "predicate_try_from value =
     (case predicateType value of
        DigestMatchType \<Rightarrow>
          (case split_at_checked 32 (predicateData value) of
             None \<Rightarrow> Inl DataMalformed
           | Some (image_id, journal_digest) \<Rightarrow>
               (case digest_try_from image_id of
                  None \<Rightarrow> Inl DataMalformed
                | Some i \<Rightarrow>
                    (case digest_try_from journal_digest of
                       None \<Rightarrow> Inl DataMalformed
                     | Some j \<Rightarrow> Inr (DigestMatch i j))))
      | PrefixMatchType \<Rightarrow>
          (case split_at_checked 32 (predicateData value) of
             None \<Rightarrow> Inl DataMalformed
           | Some (image_id, journal_prefix) \<Rightarrow>
               (case digest_try_from image_id of
                  None \<Rightarrow> Inl DataMalformed
                | Some i \<Rightarrow> Inr (PrefixMatch i journal_prefix)))
      | ClaimDigestMatchType \<Rightarrow>
          (case digest_try_from (predicateData value) of
             None \<Rightarrow> Inl DataMalformed
           | Some d \<Rightarrow> Inr (ClaimDigestMatch d))
      | PredicateTypeInvalid \<Rightarrow> Inl PredicateInvalidType)"

fun predicate_image_id :: "Predicate \<Rightarrow> digest option" where
  "predicate_image_id (DigestMatch image_id _) = Some image_id"
| "predicate_image_id (PrefixMatch image_id _) = Some image_id"
| "predicate_image_id (ClaimDigestMatch _) = None"

subsection \<open>Fulfillment data\<close>

datatype FulfillmentData = NoData | ImageIdAndJournal digest bytes

datatype FulfillmentDataType = NoDataType | ImageIdAndJournalType | FulfillmentDataTypeInvalid

datatype FulfillmentDataError = FulfillmentMalformed | FulfillmentInvalidType

type_synonym abi_encoder = "digest \<Rightarrow> bytes \<Rightarrow> bytes"
type_synonym abi_decoder = "bytes \<Rightarrow> (digest \<times> bytes) option"

fun fulfillment_type_and_data :: "abi_encoder \<Rightarrow> FulfillmentData \<Rightarrow> FulfillmentDataType \<times> bytes" where
  "fulfillment_type_and_data abi_encode NoData = (NoDataType, [])"
| "fulfillment_type_and_data abi_encode (ImageIdAndJournal image_id journal) =
     (ImageIdAndJournalType, abi_encode image_id journal)"

fun decode_with_type ::
    "abi_decoder \<Rightarrow> FulfillmentDataType \<Rightarrow> bytes \<Rightarrow> FulfillmentDataError + FulfillmentData" where
  "decode_with_type abi_decode NoDataType data =
     (if data \<noteq> [] then Inl FulfillmentMalformed else Inr NoData)"
| "decode_with_type abi_decode ImageIdAndJournalType data =
     (case abi_decode data of
        None \<Rightarrow> Inl FulfillmentMalformed
      | Some (imageId, journal) \<Rightarrow> Inr (ImageIdAndJournal imageId journal))"
| "decode_with_type abi_decode FulfillmentDataTypeInvalid data = Inl FulfillmentInvalidType"

fun fulfillment_data_digest ::
    "abi_encoder \<Rightarrow> (bytes \<Rightarrow> digest) \<Rightarrow> FulfillmentData \<Rightarrow> digest" where
  "fulfillment_data_digest abi_encode keccak NoData = keccak [0]"
| "fulfillment_data_digest abi_encode keccak (ImageIdAndJournal image_id journal) =
     keccak ([1] @ abi_encode image_id journal)"

fun fulfillment_journal :: "FulfillmentData \<Rightarrow> bytes option" where
  "fulfillment_journal NoData = None"
| "fulfillment_journal (ImageIdAndJournal _ journal) = Some journal"

fun fulfillment_image_id :: "FulfillmentData \<Rightarrow> digest option" where
  "fulfillment_image_id NoData = None"
| "fulfillment_image_id (ImageIdAndJournal image_id _) = Some image_id"

subsection \<open>Evaluation of a predicate against fulfillment data\<close>

definition starts_with :: "'a list \<Rightarrow> 'a list \<Rightarrow> bool" where
  "starts_with xs prefix \<longleftrightarrow> take (length prefix) xs = prefix"

definition predicate_eval ::
    "(digest \<Rightarrow> bytes \<Rightarrow> digest) \<Rightarrow> (digest \<Rightarrow> digest \<Rightarrow> digest) \<Rightarrow> Predicate \<Rightarrow> FulfillmentData
      \<Rightarrow> digest option" where
  "predicate_eval claim_ok claim_pruned p data =
     (let claim_digest_data =
            (case data of NoData \<Rightarrow> None
             | ImageIdAndJournal image_id journal \<Rightarrow> Some (claim_ok image_id journal));
          finish = (\<lambda>claim_digest_predicate.
            (case (claim_digest_predicate, claim_digest_data) of
               (Some cp, Some cd) \<Rightarrow> if cp \<noteq> cd then None else Some cd
             | (_, Some cd) \<Rightarrow> Some cd
             | (cp, None) \<Rightarrow> cp))
      in case p of
           DigestMatch image_id journal \<Rightarrow>
             (case data of
                NoData \<Rightarrow> None
              | ImageIdAndJournal _ _ \<Rightarrow> finish (Some (claim_pruned image_id journal)))
         | PrefixMatch image_id prefix \<Rightarrow>
             (case data of
                NoData \<Rightarrow> None
              | ImageIdAndJournal fill_image_id fill_journal \<Rightarrow>
                  if \<not> (fill_image_id = image_id \<and> starts_with fill_journal prefix) then None
                  else finish None)
         | ClaimDigestMatch claim_digest \<Rightarrow> finish (Some claim_digest))"

subsection \<open>Operations on proof requests\<close>

definition proof_request_new ::
    "RequestId \<Rightarrow> Requirements \<Rightarrow> string \<Rightarrow> RequestInput \<Rightarrow> Offer \<Rightarrow> ProofRequest" where
  "proof_request_new rid reqs url inp off =
     \<lparr>request_id = u256_from_request_id rid, requirements = reqs, imageUrl = url,
      request_input = inp, offer = off\<rparr>"

definition client_address :: "ProofRequest \<Rightarrow> address" where
  "client_address r = rid_addr (from_lossy (request_id r))"

definition expires_at :: "ProofRequest \<Rightarrow> u64" where
  "expires_at r = rampUpStart (offer r) + ucast (timeout (offer r))"

definition is_expired :: "u64 \<Rightarrow> ProofRequest \<Rightarrow> bool" where
  "is_expired now r \<longleftrightarrow> expires_at r < now"

definition lock_expires_at :: "ProofRequest \<Rightarrow> u64" where
  "lock_expires_at r = rampUpStart (offer r) + ucast (lockTimeout (offer r))"

definition is_lock_expired :: "u64 \<Rightarrow> ProofRequest \<Rightarrow> bool" where
  "is_lock_expired now r \<longleftrightarrow> lock_expires_at r < now"

definition is_smart_contract_signed :: "ProofRequest \<Rightarrow> bool" where
  "is_smart_contract_signed r \<longleftrightarrow> smart_contract_signed (from_lossy (request_id r))"

definition validate :: "(string \<Rightarrow> bool) \<Rightarrow> ProofRequest \<Rightarrow> RequestError + unit" where
  "validate url_ok r =
     (let off = offer r in
      if rid_addr (from_lossy (request_id r)) = 0 then Inl ClientAddrIsZero
      else if imageUrl r = [] then Inl EmptyImageUrl
      else if \<not> url_ok (imageUrl r) then Inl MalformedImageUrl
      else case predicate_try_from (predicate (requirements r)) of
             Inl e \<Rightarrow> Inl (RequestPredicateError e)
           | Inr _ \<Rightarrow>
      if timeout off = 0 then Inl OfferTimeoutIsZero
      else if lockTimeout off = 0 then Inl OfferLockTimeoutIsZero
      else if rampUpPeriod off > lockTimeout off then Inl OfferRampUpGreaterThanLockTimeout
      else if lockTimeout off > timeout off then Inl OfferLockTimeoutGreaterThanTimeout
      else if timeout off - lockTimeout off \<ge> push_bit 24 1 then Inl OfferTimeoutRangeTooLarge
      else if maxPrice off = 0 then Inl OfferMaxPriceIsZero
      else if maxPrice off < minPrice off then Inl OfferMaxPriceIsLessThanMin
      else if rampUpStart off = 0 then Inl OfferRampUpStartIsZero
      else Inr ())"

text \<open>The EIP-712 domain and the signature check.\<close>

record EIP712DomainSaltless =
  domain_name :: string
  domain_version :: string
  domain_chain_id :: u64
  verifying_contract :: address

definition eip712_domain :: "address \<Rightarrow> u64 \<Rightarrow> EIP712DomainSaltless" where
  "eip712_domain a chain =
     \<lparr>domain_name = ''IBoundlessMarket'', domain_version = ''1'',
      domain_chain_id = chain, verifying_contract = a\<rparr>"

definition signing_hash ::
    "(ProofRequest \<Rightarrow> EIP712DomainSaltless \<Rightarrow> u256) \<Rightarrow> ProofRequest \<Rightarrow> address \<Rightarrow> u64 \<Rightarrow> u256" where
  "signing_hash eip712_hash r contract_addr chain = eip712_hash r (eip712_domain contract_addr chain)"

definition verify_signature ::
    "(ProofRequest \<Rightarrow> EIP712DomainSaltless \<Rightarrow> u256) \<Rightarrow> (bytes \<Rightarrow> 'sig option)
     \<Rightarrow> ('sig \<Rightarrow> 'sig option) \<Rightarrow> ('sig \<Rightarrow> u256 \<Rightarrow> address option)
     \<Rightarrow> ProofRequest \<Rightarrow> bytes \<Rightarrow> address \<Rightarrow> u64 \<Rightarrow> RequestError + unit" where
  "verify_signature eip712_hash sig_parse sig_normalize sig_recover r signature contract_addr chain =
     (case sig_parse signature of
        None \<Rightarrow> Inl SignatureError
      | Some sig \<Rightarrow>
          if sig_normalize sig \<noteq> None then Inl SignatureNonCanonicalError
          else (case sig_recover sig (signing_hash eip712_hash r contract_addr chain) of
                  None \<Rightarrow> Inl SignatureError
                | Some a \<Rightarrow> if a = client_address r then Inr () else Inl SignatureError))"

subsection \<open>Specifications\<close>

text \<open>The predicates a request can carry on the wire, and what it means that fulfillment data
  satisfies one with claim digest \<open>c\<close>; \<open>sha\<close> is the journal hash.\<close>

fun wf_predicate :: "Predicate \<Rightarrow> bool" where
  "wf_predicate (DigestMatch i j) \<longleftrightarrow> wf_digest i \<and> wf_digest j"
| "wf_predicate (PrefixMatch i _) \<longleftrightarrow> wf_digest i"
| "wf_predicate (ClaimDigestMatch c) \<longleftrightarrow> wf_digest c"

fun predicate_holds ::
    "(bytes \<Rightarrow> digest) \<Rightarrow> (digest \<Rightarrow> bytes \<Rightarrow> digest) \<Rightarrow> Predicate \<Rightarrow> FulfillmentData \<Rightarrow> digest \<Rightarrow> bool" where
  "predicate_holds sha claim_ok (DigestMatch i d) data c \<longleftrightarrow>
     (\<exists>j. data = ImageIdAndJournal i j \<and> sha j = d \<and> c = claim_ok i j)"
| "predicate_holds sha claim_ok (PrefixMatch i pre) data c \<longleftrightarrow>
     (\<exists>j. data = ImageIdAndJournal i (pre @ j) \<and> c = claim_ok i (pre @ j))"
| "predicate_holds sha claim_ok (ClaimDigestMatch d) data c \<longleftrightarrow>
     c = d \<and> (\<forall>i j. data = ImageIdAndJournal i j \<longrightarrow> claim_ok i j = d)"

text \<open>The claim digest of the data, if there is data.\<close>

fun fulfillment_claim :: "(digest \<Rightarrow> bytes \<Rightarrow> digest) \<Rightarrow> FulfillmentData \<Rightarrow> digest option" where
  "fulfillment_claim claim_ok NoData = None"
| "fulfillment_claim claim_ok (ImageIdAndJournal i j) = Some (claim_ok i j)"

text \<open>What \<open>validate\<close> promises of the offer of an accepted request.\<close>

definition wf_offer :: "Offer \<Rightarrow> bool" where
  "wf_offer off \<longleftrightarrow>
     0 < timeout off \<and> 0 < lockTimeout off \<and> rampUpPeriod off \<le> lockTimeout off
     \<and> lockTimeout off \<le> timeout off \<and> unat (timeout off) < unat (lockTimeout off) + 2 ^ 24
     \<and> 0 < maxPrice off \<and> minPrice off \<le> maxPrice off \<and> 0 < rampUpStart off"

section \<open>Request identifiers pack and unpack\<close>

lemma from_lossy_eq:
  "from_lossy v = \<lparr>rid_addr = ucast (drop_bit 32 v), rid_index = ucast v,
     smart_contract_signed = bit v 192\<rparr>"
proof -
  have m: "(push_bit 160 1 - 1 :: u256) = mask 160" "(0xFFFFFFFF :: u256) = mask 32"
    by (simp_all add: mask_eq_exp_minus_1)
  have "ucast (drop_bit 32 v AND mask 160) = (ucast (drop_bit 32 v) :: address)"
    by (rule bit_word_eqI) (auto simp: bit_simps)
  moreover have "ucast (v AND mask 32) = (ucast v :: u32)"
    by (rule bit_word_eqI) (auto simp: bit_simps)
  moreover have "(v AND push_bit 192 1 \<noteq> 0) = bit v 192"
    by (simp only: bit_iff_and_push_bit_not_eq_0)
  ultimately show ?thesis
    unfolding from_lossy_def Let_def m by (simp only:)
qed

lemma bit_u256_from_request_id:
  "bit (u256_from_request_id r) n \<longleftrightarrow>
     (n = 192 \<and> smart_contract_signed r) \<or> (32 \<le> n \<and> n < 192 \<and> bit (rid_addr r) (n - 32))
       \<or> bit (rid_index r) n"
  unfolding u256_from_request_id_def Let_def
  by (auto simp: bit_simps dest: bit_imp_le_length)

lemma from_lossy_pack: "from_lossy (u256_from_request_id r) = r"
proof -
  have "ucast (drop_bit 32 (u256_from_request_id r)) = rid_addr r"
    by (rule bit_word_eqI) (auto simp: bit_simps bit_u256_from_request_id dest: bit_imp_le_length)
  moreover have "ucast (u256_from_request_id r) = rid_index r"
    by (rule bit_word_eqI) (auto simp: bit_simps bit_u256_from_request_id dest: bit_imp_le_length)
  moreover have "\<not> bit (rid_index r) 192"
    by (auto dest: bit_imp_le_length)
  ultimately show ?thesis
    by (simp add: from_lossy_eq bit_u256_from_request_id)
qed

lemma drop_bit_193_iff: "drop_bit 193 (v::u256) = 0 \<longleftrightarrow> (\<forall>n. bit v n \<longrightarrow> n < 193)"
proof
  assume d: "drop_bit 193 v = 0"
  show "\<forall>n. bit v n \<longrightarrow> n < 193"
  proof (intro allI impI)
    fix n assume "bit v n"
    then show "n < 193"
      using arg_cong [OF d, of "\<lambda>w. bit w (n - 193)"] by (cases "193 \<le> n") (auto simp: bit_simps)
  qed
next
  assume "\<forall>n. bit v n \<longrightarrow> n < 193"
  then show "drop_bit 193 v = 0" by (intro bit_word_eqI) (auto simp: bit_simps)
qed

lemma pack_from_lossy: "drop_bit 193 v = 0 \<Longrightarrow> u256_from_request_id (from_lossy v) = v"
proof (rule bit_word_eqI)
  fix n assume "drop_bit 193 v = 0" 
  then have *: "bit v n \<Longrightarrow> n < 193" by (simp add: drop_bit_193_iff)
  consider "n < 32" | "32 \<le> n" "n < 192" | "n = 192" | "192 < n" by linarith
  then show "bit (u256_from_request_id (from_lossy v)) n = bit v n"
    using * by cases (auto simp: from_lossy_eq bit_u256_from_request_id bit_simps)
qed

lemma drop193: "drop_bit 193 (u256_from_request_id r) = 0"
  by (auto simp: drop_bit_193_iff bit_u256_from_request_id dest: bit_imp_le_length)

text \<open>C38: \<open>TryFrom<U256> for RequestId\<close> accepts exactly the packed identifiers, and the
  identifier it returns is the one that packs to the value: packing is injective, unpacking its
  inverse, and every value with a bit above the flag bit 192 is rejected.\<close>

theorem request_id_try_from_iff:
  "request_id_try_from v = Inr r \<longleftrightarrow> v = u256_from_request_id r"
  using drop193 [of r] from_lossy_pack [of r] pack_from_lossy [of v]
  by (auto simp: request_id_try_from_def split: if_splits)

section \<open>Digests: the serde encoding round trips\<close>

lemma le_bytes_length: "length (u32_to_le_bytes n w) = n"
  by (induction n arbitrary: w) auto

lemma le_word_round_aux: "u32_from_le_bytes (u32_to_le_bytes n w) = take_bit (8 * n) w"
proof (induction n arbitrary: w)
  case 0 then show ?case by simp
next
  case (Suc n)
  show ?case
    by (rule bit_word_eqI) (auto simp: Suc bit_simps not_less)
qed

lemma bit_u32_from_le_bytes: "bit (u32_from_le_bytes bs) n \<Longrightarrow> n < 8 * length bs"
proof (induction bs arbitrary: n)
  case Nil then show ?case by simp
next
  case (Cons b bs)
  then show ?case
    by (fastforce simp: bit_simps dest: Cons.IH bit_imp_le_length)
qed

lemma le_bytes_round: "length bs \<le> 4 \<Longrightarrow> u32_to_le_bytes (length bs) (u32_from_le_bytes bs) = bs"
proof (induction bs)
  case Nil then show ?case by simp
next
  case (Cons b bs)
  have "drop_bit 8 (ucast b OR push_bit 8 (u32_from_le_bytes bs)) = u32_from_le_bytes bs"
    using Cons.prems
    by (intro bit_word_eqI) (auto simp: bit_simps dest: bit_u32_from_le_bytes bit_imp_le_length)
  moreover have "ucast (ucast b OR push_bit 8 (u32_from_le_bytes bs)) = b"
    by (rule bit_word_eqI) (auto simp: bit_simps)
  ultimately show ?case using Cons by simp
qed

lemma chunks_concat: "length d = 4 * n \<Longrightarrow> concat (map (\<lambda>i. take 4 (drop (i * 4) d)) [0..<n]) = d"
proof (induction n arbitrary: d)
  case 0 then show ?case by simp
next
  case (Suc n)
  have "[0..<Suc n] = 0 # map Suc [0..<n]" by (simp add: upt_conv_Cons map_Suc_upt del: upt_Suc)
  then have "concat (map (\<lambda>i. take 4 (drop (i * 4) d)) [0..<Suc n]) =
     take 4 d @ concat (map (\<lambda>i. take 4 (drop (i * 4) (drop 4 d))) [0..<n])"
    by (simp add: comp_def add.commute del: upt_Suc)
  also have "\<dots> = take 4 d @ drop 4 d" using Suc.IH [of "drop 4 d"] Suc.prems by (simp only: length_drop) simp
  finally show ?case by simp
qed

text \<open>A digest survives serialisation to eight little-endian words and back.\<close>

theorem digest_serde_roundtrip:
  assumes "wf_digest d"
  shows "length (digest_serialize d) = 8 \<and> digest_deserialize (digest_serialize d) = d"
proof -
  have "digest_deserialize (digest_serialize d) =
     concat (map (\<lambda>i. take 4 (drop (i * 4) d)) [0..<8])"
    unfolding digest_deserialize_def digest_serialize_def map_map comp_def
  proof (intro arg_cong [where f = concat] map_cong refl)
    fix i assume "i \<in> set [0..<8::nat]"
    then have "length (take 4 (drop (i * 4) d)) = 4" using assms by (auto simp: wf_digest_def)
    then show "u32_to_le_bytes 4 (u32_from_le_bytes (take 4 (drop (i * 4) d))) = take 4 (drop (i * 4) d)"
      using le_bytes_round [of "take 4 (drop (i * 4) d)"] by simp
  qed
  also have "\<dots> = d" using assms by (intro chunks_concat) (simp add: wf_digest_def)
  finally show ?thesis by (simp add: digest_serialize_def)
qed

theorem digest_serde_roundtrip_witness:
  "digest_deserialize (digest_serialize (map word_of_nat [0..<32])) = map word_of_nat [0..<32]"
  using digest_serde_roundtrip [of "map word_of_nat [0..<32]"] by (simp add: wf_digest_def)

section \<open>Predicates: wire format and evaluation\<close>

text \<open>C37: decoding the predicate of a request succeeds exactly on the encodings of the
  well-formed predicates, and returns the encoded predicate.\<close>

theorem predicate_try_from_iff:
  "predicate_try_from rp = Inr p \<longleftrightarrow> wf_predicate p \<and> rp = request_predicate_from p"
  by (cases p; cases rp; cases "predicateType rp")
     (auto simp: predicate_try_from_def split_at_checked_def digest_try_from_def wf_digest_def
         split: option.splits if_splits)

lemma starts_with_iff: "starts_with xs p \<longleftrightarrow> (\<exists>ys. xs = p @ ys)"
  by (metis append_eq_conv_conj append_take_drop_id starts_with_def)

text \<open>A predicate on the journal digest that evaluates although image or journal digest differ: two claims
  with the same digest.\<close>

definition claim_collision ::
    "(bytes \<Rightarrow> digest) \<Rightarrow> (digest \<Rightarrow> digest \<Rightarrow> digest) \<Rightarrow> Predicate \<Rightarrow> FulfillmentData \<Rightarrow> bool" where
  "claim_collision sha claim_pruned p data \<longleftrightarrow>
     (\<exists>i d i' j. p = DigestMatch i d \<and> data = ImageIdAndJournal i' j \<and> (i, d) \<noteq> (i', sha j)
        \<and> claim_pruned i d = claim_pruned i' (sha j))"

text \<open>C36: \<open>Predicate::eval\<close> returns a claim digest exactly when the fulfillment data satisfies the predicate,
  and then returns the digest of the receipt claim of that data; the only exception is a collision,
  where the claim the predicate asks for and the different claim of the data have the same digest. The
  hypothesis on the receipt library: the digest of a claim depends on a journal through its hash only,
  whether the journal is pruned or not.\<close>

theorem predicate_eval_correct:
  assumes claim: "\<And>i j. claim_ok i j = claim_pruned i (sha j)"
  shows "predicate_eval claim_ok claim_pruned p data = Some c \<longleftrightarrow>
     predicate_holds sha claim_ok p data c
     \<or> claim_collision sha claim_pruned p data \<and> fulfillment_claim claim_ok data = Some c"
proof (cases p)
  case (DigestMatch i d)
  then show ?thesis
    by (cases data) (auto simp: predicate_eval_def claim_collision_def claim)
next
  case (PrefixMatch i pre)
  then show ?thesis
    by (cases data) (auto simp: predicate_eval_def claim_collision_def starts_with_iff Let_def split: if_splits)
next
  case (ClaimDigestMatch d)
  then show ?thesis
    by (cases data) (auto simp: predicate_eval_def claim_collision_def)
qed

text \<open>A hash and a claim digest of 32 bytes, and data that matches its predicate without a collision.\<close>

theorem predicate_eval_correct_witness:
  defines "sha \<equiv> \<lambda>j :: bytes. take 32 (j @ replicate 32 0)" and "pruned \<equiv> \<lambda>i d :: bytes. take 32 (map2 (+) i d)"
  shows "predicate_eval (\<lambda>i j. pruned i (sha j)) pruned (DigestMatch (replicate 32 1) (sha [5, 6]))
           (ImageIdAndJournal (replicate 32 1) [5, 6]) = Some (pruned (replicate 32 1) (sha [5, 6]))
     \<and> \<not> claim_collision sha pruned (DigestMatch (replicate 32 1) (sha [5, 6])) (ImageIdAndJournal (replicate 32 1) [5, 6])"
  by (subst predicate_eval_correct [where sha = sha]) (auto simp: claim_collision_def)

section \<open>Fulfillment data\<close>

lemma fulfillment_data_roundtrip:
  assumes "\<And>i j. wf_digest i \<Longrightarrow> abi_decode (abi_encode i j) = Some (i, j)"
    and "\<And>i j. fd = ImageIdAndJournal i j \<Longrightarrow> wf_digest i"
  shows "(case fulfillment_type_and_data abi_encode fd of (ty, bs) \<Rightarrow> decode_with_type abi_decode ty bs)
           = Inr fd"
  using assms by (cases fd) auto

section \<open>Validation\<close>

lemma validate_wf_offer:
  assumes "validate url_ok r = Inr ()"
  shows "wf_offer (offer r)"
proof -
  let ?o = "offer r"
  have *: "0 < timeout ?o" "0 < lockTimeout ?o" "rampUpPeriod ?o \<le> lockTimeout ?o"
     "lockTimeout ?o \<le> timeout ?o" "timeout ?o - lockTimeout ?o < push_bit 24 1"
     "0 < maxPrice ?o" "minPrice ?o \<le> maxPrice ?o" "0 < rampUpStart ?o"
    using assms
    by (auto simp: validate_def Let_def not_less not_le word_greater_zero_iff split: if_splits sum.splits)
  have "unat (timeout ?o - lockTimeout ?o) < 2 ^ 24"
    using *(5) by (simp add: word_less_nat_alt)
  then show ?thesis using * by (simp add: wf_offer_def unat_diff_le)
qed

end
