(* ===== verification/Pricing.thy ===== *)
theory Pricing
  imports MarketTypes
begin

text \<open>
  The price curve of an offer: \<open>price_at_time\<close> of \<open>contracts/pricing.rs\<close> and the methods of
  \<open>Offer\<close> in \<open>contracts/boundless_market.rs\<close>. \<open>curve\<close> is the reference curve over the natural
  numbers; \<open>offer_no_wrap\<close> bounds an offer so that no product or sum of the word computation
  wraps. The theorems relate the word computation to the reference curve, and
  \<open>time_at_price\<close> to \<open>price_at\<close>.
\<close>

section \<open>Operations\<close>

datatype MarketError = PriceExceedsMax | BlockDeltaTooLarge

definition price_at_time :: "u256 \<Rightarrow> u256 \<Rightarrow> u64 \<Rightarrow> u32 \<Rightarrow> u32 \<Rightarrow> u64 \<Rightarrow> u256" where
  "price_at_time min_price max_price ramp_up_start ramp_up_period lock_timeout timestamp =
     (if timestamp \<le> ramp_up_start then min_price
      else let lock_deadline = ramp_up_start + ucast lock_timeout in
      if timestamp > lock_deadline then 0
      else let ramp_up_end = ramp_up_start + ucast ramp_up_period in
      if timestamp \<le> ramp_up_end then
        (if ramp_up_period = 0 then min_price
         else let rise = max_price - min_price;
                  run = ucast ramp_up_period;
                  delta = ucast (timestamp - ramp_up_start)
              in min_price + (delta * rise) div run)
      else max_price)"

definition time_at_price :: "Offer \<Rightarrow> u256 \<Rightarrow> MarketError + u64" where
  "time_at_price off price =
     (let max_price = maxPrice off; min_price = minPrice off in
      if price > max_price then Inl PriceExceedsMax
      else if price \<le> min_price then Inr 0
      else let rise = max_price - min_price;
               run = ucast (rampUpPeriod off);
               delta = div_ceil ((price - min_price) * run) rise
           in case narrow delta of
                None \<Rightarrow> Inl BlockDeltaTooLarge
              | Some d \<Rightarrow> Inr (rampUpStart off + d))"

definition price_at :: "Offer \<Rightarrow> u64 \<Rightarrow> MarketError + u256" where
  "price_at off timestamp =
     Inr (price_at_time (minPrice off) (maxPrice off) (rampUpStart off) (rampUpPeriod off)
            (lockTimeout off) timestamp)"

definition deadline :: "Offer \<Rightarrow> u64" where
  "deadline off = rampUpStart off + ucast (timeout off)"

definition lock_deadline :: "Offer \<Rightarrow> u64" where
  "lock_deadline off = rampUpStart off + ucast (lockTimeout off)"

definition FRACTION_STAKE_NUMERATOR :: u64 where "FRACTION_STAKE_NUMERATOR = 1"

definition FRACTION_STAKE_DENOMINATOR :: u64 where "FRACTION_STAKE_DENOMINATOR = 2"

text \<open>\<open>None\<close> is a panic of one of the two \<open>unwrap\<close> calls.\<close>

definition collateral_reward_if_locked_and_not_fulfilled :: "Offer \<Rightarrow> u256 option" where
  "collateral_reward_if_locked_and_not_fulfilled off =
     (case checked_mul (lockCollateral off) (ucast FRACTION_STAKE_NUMERATOR) of
        None \<Rightarrow> None
      | Some v \<Rightarrow> checked_div v (ucast FRACTION_STAKE_DENOMINATOR))"

section \<open>The reference curve\<close>

definition curve :: "nat \<Rightarrow> nat \<Rightarrow> nat \<Rightarrow> nat \<Rightarrow> nat \<Rightarrow> nat \<Rightarrow> nat" where
  "curve lo hi start ramp lock t =
     (if t \<le> start then lo
      else if start + lock < t then 0
      else if start + ramp \<le> t then hi
      else lo + (t - start) * (hi - lo) div ramp)"

definition offer_curve :: "Offer \<Rightarrow> nat \<Rightarrow> nat" where
  "offer_curve off =
     curve (unat (minPrice off)) (unat (maxPrice off)) (unat (rampUpStart off))
           (unat (rampUpPeriod off)) (unat (lockTimeout off))"

definition offer_no_wrap :: "Offer \<Rightarrow> bool" where
  "offer_no_wrap off \<longleftrightarrow>
     unat (maxPrice off) * unat (rampUpPeriod off) < 2 ^ 256
     \<and> unat (rampUpStart off) + unat (timeout off) < 2 ^ 64"

text \<open>An offer the examples below evaluate: from 10 to 110 over 100 seconds, starting at 1000.\<close>

definition sample_offer :: Offer where
  "sample_offer = \<lparr>minPrice = 10, maxPrice = 110, rampUpStart = 1000, rampUpPeriod = 100,
     lockTimeout = 200, timeout = 300, lockCollateral = 7\<rparr>"

section \<open>Word arithmetic of an offer that does not wrap\<close>

lemma offer_bounds:
  assumes "wf_offer off" "offer_no_wrap off"
  shows "unat (minPrice off) \<le> unat (maxPrice off)"
    and "unat (rampUpPeriod off) \<le> unat (lockTimeout off)"
    and "unat (lockTimeout off) \<le> unat (timeout off)"
    and "unat (lock_deadline off) = unat (rampUpStart off) + unat (lockTimeout off)"
    and "unat (deadline off) = unat (rampUpStart off) + unat (timeout off)"
    and "unat (rampUpStart off + ucast (rampUpPeriod off) :: u64)
           = unat (rampUpStart off) + unat (rampUpPeriod off)"
proof -
  show 1: "unat (minPrice off) \<le> unat (maxPrice off)"
    and 2: "unat (rampUpPeriod off) \<le> unat (lockTimeout off)"
    and 3: "unat (lockTimeout off) \<le> unat (timeout off)"
    using assms by (auto simp: wf_offer_def word_le_nat_alt)
  show "unat (lock_deadline off) = unat (rampUpStart off) + unat (lockTimeout off)"
    and "unat (deadline off) = unat (rampUpStart off) + unat (timeout off)"
    and "unat (rampUpStart off + ucast (rampUpPeriod off) :: u64)
           = unat (rampUpStart off) + unat (rampUpPeriod off)"
    using assms(2) 2 3
    by (simp_all add: offer_no_wrap_def lock_deadline_def deadline_def unat_add_no_wrap)
qed

lemma unat_interpolate:
  fixes lo hi :: u256 and d :: u64 and p :: u32
  assumes "lo \<le> hi" "unat d \<le> unat p" "0 < unat p" "unat hi * unat p < 2 ^ 256"
  shows "unat (lo + (ucast d * (hi - lo)) div ucast p)
           = unat lo + unat d * (unat hi - unat lo) div unat p"
proof -
  let ?d = "unat d" and ?p = "unat p" and ?rise = "unat hi - unat lo"
  have le: "unat lo \<le> unat hi" using assms by (simp add: word_le_nat_alt)
  have "?d * ?rise \<le> ?p * unat hi" using assms by (intro mult_mono) auto
  then have "unat (ucast d * (hi - lo)) = ?d * ?rise"
    using assms by (simp add: unat_mult_no_wrap unat_diff_le mult.commute)
  then have q: "unat ((ucast d * (hi - lo)) div ucast p) = ?d * ?rise div ?p"
    by (simp add: unat_div_distrib)
  have "?d * ?rise div ?p \<le> ?p * ?rise div ?p"
    using assms by (intro div_le_mono mult_right_mono) auto
  then have "?d * ?rise div ?p \<le> ?rise" using assms by simp
  then have "unat lo + ?d * ?rise div ?p < 2 ^ 256"
    using le unat_lt [of hi] by simp
  then show ?thesis by (simp add: unat_add_no_wrap q)
qed

section \<open>The curve\<close>

lemma curve_ramp_le:
  assumes "lo \<le> hi" "0 < ramp" "d \<le> ramp"
  shows "lo + d * (hi - lo) div ramp \<le> (hi :: nat)"
proof -
  have "d * (hi - lo) div ramp \<le> ramp * (hi - lo) div ramp"
    using assms by (intro div_le_mono mult_right_mono) auto
  then show ?thesis using assms by simp
qed

lemma curve_bounds:
  assumes "lo \<le> hi" "t \<le> start + lock"
  shows "lo \<le> curve lo hi start ramp lock t \<and> curve lo hi start ramp lock t \<le> hi"
  using assms by (auto simp: curve_def intro!: curve_ramp_le)

lemma curve_mono:
  assumes "lo \<le> hi" "t \<le> t'" "t' \<le> start + lock"
  shows "curve lo hi start ramp lock t \<le> curve lo hi start ramp lock t'"
  using assms curve_bounds [of lo hi t' start lock ramp] curve_bounds [of lo hi t start lock ramp]
  by (auto simp: curve_def intro!: div_le_mono mult_right_mono)

lemma curve_ge_iff:
  assumes "lo < p" "p \<le> hi" "0 < ramp" "ramp \<le> lock" "t \<le> start + lock"
  shows "p \<le> curve lo hi start ramp lock t \<longleftrightarrow>
     start + ((p - lo) * ramp + (hi - lo) - 1) div (hi - lo) \<le> t"
proof -
  let ?q = "((p - lo) * ramp + (hi - lo) - 1) div (hi - lo)"
  have rise: "0 < hi - lo" using assms by simp
  have q: "?q \<le> d \<longleftrightarrow> (p - lo) * ramp \<le> d * (hi - lo)" for d
    using rise by (rule div_ceil_bound_iff)
  have q0: "\<not> ?q \<le> 0" using assms by (subst q) simp
  have qr: "?q \<le> ramp" using assms by (subst q) (simp add: mult.commute)
  have qd: "p \<le> lo + d * (hi - lo) div ramp \<longleftrightarrow> ?q \<le> d" for d
  proof -
    have "p \<le> lo + d * (hi - lo) div ramp \<longleftrightarrow> p - lo \<le> d * (hi - lo) div ramp"
      using assms by linarith
    also have "\<dots> \<longleftrightarrow> (p - lo) * ramp \<le> d * (hi - lo)"
      using assms by (simp add: less_eq_div_iff_mult_less_eq)
    finally show ?thesis by (simp only: q)
  qed
  consider "t \<le> start" | "start < t" "t < start + ramp" | "start + ramp \<le> t" by linarith
  then show ?thesis
  proof cases
    case 2
    then have "curve lo hi start ramp lock t = lo + (t - start) * (hi - lo) div ramp"
      using assms by (simp add: curve_def)
    then show ?thesis using qd [of "t - start"] 2 by linarith
  qed (use assms q0 qr in \<open>simp_all add: curve_def del: One_nat_def\<close>)
qed

lemma price_at_time_curve:
  assumes "wf_offer off" "offer_no_wrap off"
  shows "price_at off t = Inr p \<Longrightarrow> unat p = offer_curve off (unat t)"
proof -
  note b = offer_bounds [OF assms]
  let ?s = "rampUpStart off" and ?r = "rampUpPeriod off"
  have lo: "minPrice off \<le> maxPrice off" using assms by (simp add: wf_offer_def)
  have "unat (price_at_time (minPrice off) (maxPrice off) ?s ?r (lockTimeout off) t)
          = offer_curve off (unat t)"
  proof (cases "?s < t \<and> t \<le> lock_deadline off \<and> unat t \<le> unat ?s + unat ?r")
    case True
    then have s: "unat ?s < unat t" "?s \<le> t" and r: "0 < unat ?r"
      by (auto simp: word_less_nat_alt word_le_nat_alt)
    then have d: "unat (t - ?s) = unat t - unat ?s" by (simp add: unat_diff_le)
    have "unat (minPrice off + ucast (t - ?s) * (maxPrice off - minPrice off) div ucast ?r)
       = unat (minPrice off) + (unat t - unat ?s) * (unat (maxPrice off) - unat (minPrice off)) div unat ?r"
      using unat_interpolate [OF lo, of "t - ?s" ?r] True r assms(2) s
      by (auto simp: d offer_no_wrap_def)
    then show ?thesis
      using True s r b
      by (auto simp: price_at_time_def offer_curve_def curve_def Let_def word_le_nat_alt
            word_less_nat_alt lock_deadline_def [symmetric] unat_gt_0)
  next
    case False
    then show ?thesis
      using b
      by (auto simp: price_at_time_def offer_curve_def curve_def Let_def word_le_nat_alt
            word_less_nat_alt lock_deadline_def [symmetric])
  qed
  then show "price_at off t = Inr p \<Longrightarrow> unat p = offer_curve off (unat t)" by (auto simp: price_at_def)
qed

text \<open>C6: the price the word computation returns is the reference curve, at every timestamp,
  for a validated offer within the range in which no intermediate result wraps.\<close>

theorem price_at_refines_curve:
  assumes "wf_offer off" "offer_no_wrap off"
  shows "\<exists>p. price_at off t = Inr p \<and> unat p = offer_curve off (unat t)"
  using price_at_time_curve [OF assms, of t] by (auto simp: price_at_def)

theorem price_at_refines_curve_witness:
  "\<exists>p. price_at sample_offer 1050 = Inr p \<and> unat p = 60"
  using price_at_refines_curve [of sample_offer 1050]
  by (simp add: wf_offer_def offer_no_wrap_def sample_offer_def offer_curve_def curve_def)

text \<open>C7: up to the lock deadline the price stays between the minimum and the maximum and never
  falls; after the lock deadline it is zero.\<close>

theorem price_at_bounded_mono:
  assumes "wf_offer off" "offer_no_wrap off"
    and "price_at off t = Inr p" "price_at off t' = Inr p'" "t \<le> t'"
  shows "(t' \<le> lock_deadline off \<longrightarrow> minPrice off \<le> p \<and> p \<le> p' \<and> p' \<le> maxPrice off)
       \<and> (lock_deadline off < t' \<longrightarrow> p' = 0)"
proof -
  note b = offer_bounds [OF assms(1,2)]
  have p: "unat p = offer_curve off (unat t)" "unat p' = offer_curve off (unat t')"
    using price_at_time_curve [OF assms(1,2)] assms(3,4) by auto
  have t: "unat t \<le> unat t'" using assms(5) by (simp add: word_le_nat_alt)
  have "unat p' = 0" if "unat (lock_deadline off) < unat t'"
    using that b by (simp add: p offer_curve_def curve_def)
  then show ?thesis
    using b t curve_mono [OF b(1) t] curve_bounds [OF b(1)]
    by (auto simp: word_le_nat_alt word_less_nat_alt p offer_curve_def
          intro: unat_eq_zero [THEN iffD1])
qed

theorem price_at_bounded_mono_witness:
  "minPrice sample_offer \<le> (35 :: u256) \<and> (35 :: u256) \<le> 110 \<and> 110 \<le> maxPrice sample_offer"
  using price_at_bounded_mono [of sample_offer 1025 35 1150 110]
  by (simp add: wf_offer_def offer_no_wrap_def sample_offer_def price_at_def price_at_time_def
        lock_deadline_def)

section \<open>The time at which a price is reached\<close>

lemma time_at_price_value:
  assumes "wf_offer off" "offer_no_wrap off" "minPrice off < p" "p \<le> maxPrice off"
  defines "rise \<equiv> unat (maxPrice off) - unat (minPrice off)"
  defines "d \<equiv> ((unat p - unat (minPrice off)) * unat (rampUpPeriod off) + rise - 1) div rise"
  shows "\<exists>t. time_at_price off p = Inr t \<and> unat t = unat (rampUpStart off) + d
             \<and> d \<le> unat (rampUpPeriod off)"
proof -
  note b = offer_bounds [OF assms(1,2)]
  let ?m = "minPrice off" and ?M = "maxPrice off" and ?r = "rampUpPeriod off"
  have lt: "unat ?m < unat p" "unat p \<le> unat ?M"
    using assms(3,4) by (simp_all add: word_less_nat_alt word_le_nat_alt)
  then have rise: "0 < rise" and le: "?m \<le> p" "?m \<le> ?M"
    by (auto simp: rise_def word_le_nat_alt)
  have urise: "unat (?M - ?m) = rise" using le by (simp add: rise_def unat_diff_le)
  have "(unat p - unat ?m) * unat ?r \<le> unat ?M * unat ?r" using lt by (intro mult_le_mono1) simp
  then have "(unat p - unat ?m) * unat ?r < 2 ^ 256"
    by (rule le_less_trans) (use assms(2) in \<open>simp add: offer_no_wrap_def\<close>)
  then have num: "unat ((p - ?m) * ucast ?r) = (unat p - unat ?m) * unat ?r"
    using le by (subst unat_mult_no_wrap) (auto simp: unat_diff_le)
  have d: "unat (div_ceil ((p - ?m) * ucast ?r) (?M - ?m)) = d"
    using rise urise num by (subst unat_div_ceil) (auto simp: d_def simp flip: unat_gt_0)
  have dle: "d \<le> unat ?r"
    unfolding d_def using rise lt by (subst div_ceil_bound_iff) (auto simp: rise_def mult.commute)
  then have d64: "unat (rampUpStart off) + d < 2 ^ 64" "d < 2 ^ 64"
    using b assms(2) by (auto simp: offer_no_wrap_def)
  then obtain w :: u64 where w: "narrow (div_ceil ((p - ?m) * ucast ?r) (?M - ?m)) = Some w" "unat w = d"
    by (auto simp: narrow_def d unsigned_ucast_eq take_bit_nat_eq_self)
  then show ?thesis
    using assms(3,4) d64 dle by (auto simp: time_at_price_def Let_def unat_add_no_wrap)
qed

lemma time_at_price_spec:
  assumes "wf_offer off" "offer_no_wrap off" "0 < rampUpPeriod off" "p \<le> maxPrice off"
  shows "\<exists>t. time_at_price off p = Inr t \<and>
     (\<forall>ts \<le> lock_deadline off. \<forall>q. price_at off ts = Inr q \<longrightarrow> (p \<le> q \<longleftrightarrow> t \<le> ts))"
proof (cases "p \<le> minPrice off")
  case True
  note b = offer_bounds [OF assms(1,2)]
  have "p \<le> q" if "ts \<le> lock_deadline off" "price_at off ts = Inr q" for ts q
  proof -
    have "unat (minPrice off) \<le> unat q"
      using price_at_time_curve [OF assms(1,2) that(2)] that(1) b curve_bounds [OF b(1)]
      by (auto simp: offer_curve_def word_le_nat_alt)
    then show ?thesis using True by (simp add: word_le_nat_alt)
  qed
  then show ?thesis using True assms(4) by (auto simp: time_at_price_def Let_def not_less)
next
  case False
  note b = offer_bounds [OF assms(1,2)]
  obtain t where t: "time_at_price off p = Inr t" "unat t = unat (rampUpStart off) +
       ((unat p - unat (minPrice off)) * unat (rampUpPeriod off)
          + (unat (maxPrice off) - unat (minPrice off)) - 1) div (unat (maxPrice off) - unat (minPrice off))"
    using time_at_price_value [OF assms(1,2), of p] False assms(4) by (auto simp: not_le)
  have "p \<le> q \<longleftrightarrow> t \<le> ts" if ts: "ts \<le> lock_deadline off" "price_at off ts = Inr q" for ts q
  proof -
    have "unat q = offer_curve off (unat ts)"
      using ts(2) by (rule price_at_time_curve [OF assms(1,2)])
    moreover have "unat ts \<le> unat (rampUpStart off) + unat (lockTimeout off)"
      using ts(1) b by (simp add: word_le_nat_alt)
    ultimately show ?thesis
      using curve_ge_iff [of "unat (minPrice off)" "unat p" "unat (maxPrice off)"
          "unat (rampUpPeriod off)" "unat (lockTimeout off)" "unat ts" "unat (rampUpStart off)"]
        False assms(3,4) b
      by (simp add: word_le_nat_alt word_less_nat_alt offer_curve_def t)
  qed
  then show ?thesis using t(1) by auto
qed

text \<open>C3: \<open>time_at_price\<close> returns the earliest time at which the offer is worth a price: up to
  the lock deadline the price is at least \<open>p\<close> exactly from the returned time on. This holds
  for a validated offer whose times do not wrap, whose ramp-up period is not zero, and a price up to its
  maximum price.\<close>

theorem time_at_price_earliest:
  assumes "wf_offer off" "offer_no_wrap off" "0 < rampUpPeriod off" "p \<le> maxPrice off"
  shows "\<exists>t. time_at_price off p = Inr t \<and>
     (\<forall>ts \<le> lock_deadline off. \<forall>q. price_at off ts = Inr q \<longrightarrow> (p \<le> q \<longleftrightarrow> t \<le> ts))"
  using assms by (rule time_at_price_spec)

theorem time_at_price_earliest_witness:
  "\<exists>t. time_at_price sample_offer 60 = Inr t \<and> t \<le> 1050 \<and> \<not> t \<le> 1049"
proof -
  have *: "price_at sample_offer 1050 = Inr 60" "price_at sample_offer 1049 = Inr 59"
    "1050 \<le> lock_deadline sample_offer" "1049 \<le> lock_deadline sample_offer"
    by (simp_all add: sample_offer_def price_at_def price_at_time_def lock_deadline_def)
  have "wf_offer sample_offer" "offer_no_wrap sample_offer" "0 < rampUpPeriod sample_offer"
    "60 \<le> maxPrice sample_offer"
    by (simp_all add: sample_offer_def wf_offer_def offer_no_wrap_def)
  from time_at_price_earliest [OF this] obtain t where t: "time_at_price sample_offer 60 = Inr t"
    and eq: "\<And>ts q. ts \<le> lock_deadline sample_offer \<Longrightarrow> price_at sample_offer ts = Inr q \<Longrightarrow> 60 \<le> q \<longleftrightarrow> t \<le> ts"
    by blast
  show ?thesis using t eq [OF *(3,1)] eq [OF *(4,2)] by simp
qed

text \<open>With a ramp-up period of zero, which \<open>validate\<close> accepts, \<open>time_at_price\<close> answers the
  ramp-up start for every price above the minimum, although the price there is still the
  minimum.\<close>

theorem time_at_price_zero_ramp:
  assumes "rampUpPeriod off = 0" "minPrice off < p" "p \<le> maxPrice off"
  shows "time_at_price off p = Inr (rampUpStart off)
       \<and> price_at off (rampUpStart off) = Inr (minPrice off)"
proof -
  have "maxPrice off - minPrice off \<noteq> 0" using assms by auto
  then show ?thesis
    using assms by (auto simp: time_at_price_def price_at_def price_at_time_def div_ceil_def narrow_def
         not_less not_le Let_def)
qed

theorem time_at_price_zero_ramp_witness:
  "time_at_price (sample_offer\<lparr>rampUpPeriod := 0\<rparr>) 60 = Inr 1000
   \<and> price_at (sample_offer\<lparr>rampUpPeriod := 0\<rparr>) 1000 = Inr 10"
  using time_at_price_zero_ramp [of "sample_offer\<lparr>rampUpPeriod := 0\<rparr>" 60]
  by (simp add: sample_offer_def)

lemma collateral_reward_half:
  "collateral_reward_if_locked_and_not_fulfilled off = Some (lockCollateral off div 2)"
  using unat_lt [of "lockCollateral off"]
  by (simp add: collateral_reward_if_locked_and_not_fulfilled_def FRACTION_STAKE_NUMERATOR_def
        FRACTION_STAKE_DENOMINATOR_def checked_mul_def checked_div_def)

end
