(* ===== verification/Selector.thy ===== *)
theory Selector
  imports MarketTypes
begin

text \<open>
  Proof-system selectors: \<open>crates/boundless-market/src/selector.rs\<close>. A \<open>FixedBytes<4>\<close> is the
  32-bit word of its big-endian reading, so that \<open>FixedBytes::from(u32)\<close> and
  \<open>u32::from_be_bytes\<close> are the identity. \<open>set_params_digest\<close> stands for the digest of the
  set-inclusion verifier parameters of an image. The hash map of supported selectors is a map;
  \<open>selector_registry\<close> is the contract its users rely on.
\<close>

section \<open>Operations\<close>

datatype SelectorExtError = UnsupportedSelector

datatype SelectorExtType = FakeReceiptType | Groth16Type | SetVerifierType | Blake3Groth16Type
  | FakeBlake3Groth16Type

datatype SelectorExt = FakeReceipt | FakeBlake3Groth16 | Groth16V3_0 | SetVerifierV0_9
  | Blake3Groth16V0_1

fun selector_ext_repr :: "SelectorExt \<Rightarrow> u32" where
  "selector_ext_repr FakeReceipt = 0xFFFFFFFF"
| "selector_ext_repr FakeBlake3Groth16 = 0xFFFF0000"
| "selector_ext_repr Groth16V3_0 = 0x73c457ba"
| "selector_ext_repr SetVerifierV0_9 = 0x242f9d5b"
| "selector_ext_repr Blake3Groth16V0_1 = 0x62f049f6"

definition selector_ext_try_from :: "u32 \<Rightarrow> SelectorExtError + SelectorExt" where
  "selector_ext_try_from value =
     (if value = 0xFFFFFFFF then Inr FakeReceipt
      else if value = 0xFFFF0000 then Inr FakeBlake3Groth16
      else if value = 0x73c457ba then Inr Groth16V3_0
      else if value = 0x242f9d5b then Inr SetVerifierV0_9
      else if value = 0x62f049f6 then Inr Blake3Groth16V0_1
      else Inl UnsupportedSelector)"

definition groth16_latest :: SelectorExt where "groth16_latest = Groth16V3_0"

definition set_inclusion_latest :: SelectorExt where "set_inclusion_latest = SetVerifierV0_9"

definition blake3_groth16_latest :: SelectorExt where "blake3_groth16_latest = Blake3Groth16V0_1"

definition selector_ext_from_bytes :: "selector \<Rightarrow> SelectorExt option" where
  "selector_ext_from_bytes bs = (case selector_ext_try_from bs of Inl _ \<Rightarrow> None | Inr s \<Rightarrow> Some s)"

fun get_type :: "SelectorExt \<Rightarrow> SelectorExtType" where
  "get_type FakeReceipt = FakeReceiptType"
| "get_type FakeBlake3Groth16 = FakeBlake3Groth16Type"
| "get_type Groth16V3_0 = Groth16Type"
| "get_type SetVerifierV0_9 = SetVerifierType"
| "get_type Blake3Groth16V0_1 = Blake3Groth16Type"

datatype ProofType = ProofAny | ProofGroth16 | ProofInclusion | ProofBlake3Groth16

type_synonym SupportedSelectors = "selector \<rightharpoonup> ProofType"

definition supported_selectors_new :: SupportedSelectors where
  "supported_selectors_new = Map.empty"

definition add_selector :: "SupportedSelectors \<Rightarrow> selector \<Rightarrow> ProofType \<Rightarrow> SupportedSelectors" where
  "add_selector m s ty = m(s \<mapsto> ty)"

definition with_selector :: "SupportedSelectors \<Rightarrow> selector \<Rightarrow> ProofType \<Rightarrow> SupportedSelectors" where
  "with_selector m s ty = add_selector m s ty"

definition remove_selector :: "SupportedSelectors \<Rightarrow> selector \<Rightarrow> SupportedSelectors" where
  "remove_selector m s = (if m s \<noteq> None then m(s := None) else m)"

definition is_supported :: "SupportedSelectors \<Rightarrow> selector \<Rightarrow> bool" where
  "is_supported m s \<longleftrightarrow> m s \<noteq> None"

definition proof_type :: "SupportedSelectors \<Rightarrow> selector \<Rightarrow> ProofType option" where
  "proof_type m s = m s"

definition supported_selectors_default :: "bool \<Rightarrow> SupportedSelectors" where
  "supported_selectors_default is_dev_mode =
     (let supported_selectors =
            with_selector
              (with_selector
                 (with_selector supported_selectors_new UNSPECIFIED_SELECTOR ProofAny)
                 (selector_ext_repr groth16_latest) ProofGroth16)
              (selector_ext_repr blake3_groth16_latest) ProofBlake3Groth16
      in if is_dev_mode then
           with_selector
             (with_selector supported_selectors (selector_ext_repr FakeReceipt) ProofAny)
             (selector_ext_repr FakeBlake3Groth16) ProofBlake3Groth16
         else supported_selectors)"

definition u32_from_be_bytes :: "bytes \<Rightarrow> u32" where
  "u32_from_be_bytes bs = u32_from_le_bytes (rev bs)"

definition with_set_builder_image_id ::
    "(digest \<Rightarrow> digest) \<Rightarrow> SupportedSelectors \<Rightarrow> digest \<Rightarrow> SupportedSelectors" where
  "with_set_builder_image_id set_params_digest m set_builder_image_id =
     (let verifier_params = set_params_digest set_builder_image_id;
          set_builder_selector = u32_from_be_bytes (take 4 verifier_params)
      in m(set_builder_selector \<mapsto> ProofInclusion))"

definition R0_GROTH16_BLAKE3_CLASS_ID :: selector where
  "R0_GROTH16_BLAKE3_CLASS_ID = 0xAA000004"

definition is_groth16_selector :: "selector \<Rightarrow> bool" where
  "is_groth16_selector s =
     (case selector_ext_from_bytes s of
        Some sel \<Rightarrow> get_type sel = FakeReceiptType \<or> get_type sel = Groth16Type
      | None \<Rightarrow> False)"

definition is_blake3_groth16_selector :: "selector \<Rightarrow> bool" where
  "is_blake3_groth16_selector s =
     (if s = R0_GROTH16_BLAKE3_CLASS_ID then True
      else case selector_ext_from_bytes s of
             Some sel \<Rightarrow> get_type sel = FakeBlake3Groth16Type \<or> get_type sel = Blake3Groth16Type
           | None \<Rightarrow> False)"

section \<open>The contract of the registry\<close>

locale selector_registry =
  fixes empty :: 'r
    and lookup :: "'r \<Rightarrow> selector \<Rightarrow> 'p option"
    and add :: "'r \<Rightarrow> selector \<Rightarrow> 'p \<Rightarrow> 'r"
    and remove :: "'r \<Rightarrow> selector \<Rightarrow> 'r"
  assumes lookup_empty: "lookup empty t = None"
    and lookup_add: "lookup (add r s p) t = (if t = s then Some p else lookup r t)"
    and lookup_remove: "lookup (remove r s) t = (if t = s then None else lookup r t)"
begin

lemma lookup_fold_add:
  "lookup (fold (\<lambda>(s, p) r. add r s p) kvs r) t =
     (case map_of (rev kvs) t of Some p \<Rightarrow> Some p | None \<Rightarrow> lookup r t)"
  by (induction kvs arbitrary: r) (auto simp: lookup_add map_add_def split: option.splits)

lemma lookup_build: "lookup (fold (\<lambda>(s, p) r. add r s p) kvs empty) t = map_of (rev kvs) t"
  by (simp add: lookup_fold_add lookup_empty split: option.splits)

lemma lookup_remove_add: "lookup (remove (add r s p) s) = lookup (remove r s)"
  by (rule ext) (simp add: lookup_add lookup_remove)

lemma lookup_fold_remove:
  "lookup (fold (\<lambda>s r. remove r s) ss r) t = (if t \<in> set ss then None else lookup r t)"
  by (induction ss arbitrary: r) (auto simp: lookup_remove)

end

interpretation reg: selector_registry supported_selectors_new proof_type with_selector remove_selector
  by unfold_locales 
     (auto simp: supported_selectors_new_def proof_type_def with_selector_def add_selector_def
        remove_selector_def)

lemmas registry_simps = reg.lookup_empty reg.lookup_add reg.lookup_remove

lemma is_supported_iff: "is_supported m s \<longleftrightarrow> proof_type m s \<noteq> None"
  by (simp add: is_supported_def proof_type_def)

lemma proof_type_default:
  "proof_type (supported_selectors_default dev) s =
     (if dev \<and> s = 0xFFFF0000 then Some ProofBlake3Groth16
      else if dev \<and> s = 0xFFFFFFFF then Some ProofAny
      else if s = 0x62f049f6 then Some ProofBlake3Groth16
      else if s = 0x73c457ba then Some ProofGroth16
      else if s = 0 then Some ProofAny else None)"
  unfolding supported_selectors_default_def Let_def groth16_latest_def blake3_groth16_latest_def
    UNSPECIFIED_SELECTOR_def
  by (auto simp: registry_simps)

section \<open>Properties\<close>

text \<open>Reading a selector and its numeric representation are inverse: exactly the five
  representations are accepted, each as its own variant.\<close>

theorem selector_ext_roundtrip:
  "selector_ext_try_from v = Inr s \<longleftrightarrow> v = selector_ext_repr s"
  by (cases s) (auto simp: selector_ext_try_from_def split: if_splits)

text \<open>The registry and the classifiers agree: no selector is both a Groth16 and a Blake3
  Groth16 selector, and whatever the default registry lists as Groth16 or as Blake3 Groth16 is
  classified as such, in either mode.\<close>

theorem selector_classes_agree:
  "\<not> (is_groth16_selector s \<and> is_blake3_groth16_selector s)
   \<and> (proof_type (supported_selectors_default dev) s = Some ProofGroth16 \<longrightarrow> is_groth16_selector s)
   \<and> (proof_type (supported_selectors_default dev) s = Some ProofBlake3Groth16
        \<longrightarrow> is_blake3_groth16_selector s)"
  unfolding proof_type_default
  by (auto simp: is_groth16_selector_def is_blake3_groth16_selector_def selector_ext_from_bytes_def
        selector_ext_try_from_def R0_GROTH16_BLAKE3_CLASS_ID_def split: if_splits)

theorem selector_classes_agree_witness:
  "proof_type (supported_selectors_default True) 0xFFFF0000 = Some ProofBlake3Groth16
   \<and> is_blake3_groth16_selector 0xFFFF0000"
  using selector_classes_agree [of "0xFFFF0000" True] by (simp add: proof_type_default)

end
