(* ===== verification/Asset.thy ===== *)
theory Asset
  imports Prelude
begin

text \<open>
  Monetary amounts: \<open>crates/boundless-market/src/price_oracle/asset.rs\<close>. Parsing and printing
  of amounts, the rounding printer, the conversion of a value at a price and the change of
  decimals. Strings are taken to be ASCII, the character set of the configuration files.

  The decimal printer and parser of \<open>U256\<close> belong to the integer library and are parameters,
  \<open>u256_to_string\<close> and \<open>u256_from_str\<close>; \<open>u256_text\<close> states what the code relies on.
\<close>

section \<open>String functions of the standard library\<close>

definition is_whitespace :: "char \<Rightarrow> bool" where
  "is_whitespace c \<longleftrightarrow> (let n = (of_char c :: nat) in (9 \<le> n \<and> n \<le> 13) \<or> n = 32)"

definition trim :: "string \<Rightarrow> string" where
  "trim s = rev (dropWhile is_whitespace (rev (dropWhile is_whitespace s)))"

definition trim_end_matches :: "char \<Rightarrow> string \<Rightarrow> string" where
  "trim_end_matches c s = rev (dropWhile (\<lambda>x. x = c) (rev s))"

fun split_whitespace_from :: "string \<Rightarrow> string \<Rightarrow> string list" where
  "split_whitespace_from [] cur = (if cur = [] then [] else [cur])"
| "split_whitespace_from (c # cs) cur =
     (if is_whitespace c then
        (if cur = [] then split_whitespace_from cs [] else cur # split_whitespace_from cs [])
      else split_whitespace_from cs (cur @ [c]))"

definition split_whitespace :: "string \<Rightarrow> string list" where
  "split_whitespace s = split_whitespace_from s []"

definition split_once :: "char \<Rightarrow> string \<Rightarrow> (string \<times> string) option" where
  "split_once c s =
     (if c \<in> set s then Some (takeWhile (\<lambda>x. x \<noteq> c) s, tl (dropWhile (\<lambda>x. x \<noteq> c) s)) else None)"

definition to_uppercase :: "string \<Rightarrow> string" where
  "to_uppercase = map (\<lambda>c. let n = (of_char c :: nat) in
     if 97 \<le> n \<and> n \<le> 122 then char_of (n - 32) else c)"

definition pad_right :: "nat \<Rightarrow> string \<Rightarrow> string" where
  "pad_right width s = s @ replicate (width - length s) CHR ''0''"

definition pad_left :: "nat \<Rightarrow> string \<Rightarrow> string" where
  "pad_left width s = replicate (width - length s) CHR ''0'' @ s"

section \<open>Assets\<close>

datatype Asset = USD | ETH | ZKC

fun asset_decimals :: "Asset \<Rightarrow> u8" where
  "asset_decimals USD = 6"
| "asset_decimals ETH = 18"
| "asset_decimals ZKC = 18"

fun display_decimals :: "Asset \<Rightarrow> nat" where
  "display_decimals USD = 4"
| "display_decimals ETH = 8"
| "display_decimals ZKC = 6"

datatype ParseAmountError =
    InvalidFormat | UnknownAsset string | InvalidNumber string
  | AssetNotAllowed Asset "Asset list" | TooManyDecimals Asset nat u8

definition asset_from_str :: "string \<Rightarrow> ParseAmountError + Asset" where
  "asset_from_str s =
     (let u = to_uppercase s in
      if u = ''USD'' then Inr USD
      else if u = ''ETH'' then Inr ETH
      else if u = ''ZKC'' then Inr ZKC
      else Inl (UnknownAsset s))"

fun asset_display :: "Asset \<Rightarrow> string" where
  "asset_display USD = ''USD''"
| "asset_display ETH = ''ETH''"
| "asset_display ZKC = ''ZKC''"

section \<open>Amounts\<close>

record Amount =
  amount_value :: u256
  amount_asset :: Asset

type_synonym u256_parser = "string \<Rightarrow> u256 option"
type_synonym u256_printer = "u256 \<Rightarrow> string"

definition parse_decimal_to_u256 ::
    "u256_parser \<Rightarrow> string \<Rightarrow> u8 \<Rightarrow> Asset \<Rightarrow> ParseAmountError + u256" where
  "parse_decimal_to_u256 u256_from_str s decimals asset =
     (let (integer, fraction) =
            (case split_once CHR ''.'' s of Some (i, f) \<Rightarrow> (i, f) | None \<Rightarrow> (s, ''''))
      in if length fraction > unat decimals then
           Inl (TooManyDecimals asset (length fraction) decimals)
         else let padded = integer @ pad_right (unat decimals) fraction in
              case u256_from_str padded of None \<Rightarrow> Inl (InvalidNumber s) | Some v \<Rightarrow> Inr v)"

definition amount_parse ::
    "u256_parser \<Rightarrow> string \<Rightarrow> Asset option \<Rightarrow> ParseAmountError + Amount" where
  "amount_parse u256_from_str s dflt =
     (let split = split_whitespace (trim s) in
      if split = [] then Inl InvalidFormat
      else let value_str = split ! 0;
               asset = (if length split = 2 then asset_from_str (trim (split ! 1))
                        else case dflt of Some def \<Rightarrow> Inr def | None \<Rightarrow> Inl InvalidFormat)
           in case asset of
                Inl e \<Rightarrow> Inl e
              | Inr a \<Rightarrow>
                  (case parse_decimal_to_u256 u256_from_str (trim value_str) (asset_decimals a) a of
                     Inl e \<Rightarrow> Inl e
                   | Inr v \<Rightarrow> Inr \<lparr>amount_value = v, amount_asset = a\<rparr>))"

definition parse_with_allowed ::
    "u256_parser \<Rightarrow> string \<Rightarrow> Asset list \<Rightarrow> Asset option \<Rightarrow> ParseAmountError + Amount" where
  "parse_with_allowed u256_from_str s allowed dflt =
     (case amount_parse u256_from_str s dflt of
        Inl e \<Rightarrow> Inl e
      | Inr amount \<Rightarrow>
          if amount_asset amount \<notin> set allowed then
            Inl (AssetNotAllowed (amount_asset amount) allowed)
          else Inr amount)"

definition format_amount :: "u256_printer \<Rightarrow> u256 \<Rightarrow> Asset \<Rightarrow> string" where
  "format_amount u256_to_string v asset =
     (let decimals = unat (asset_decimals asset);
          s = u256_to_string v
      in if decimals = 0 then s @ '' '' @ asset_display asset
         else let formatted =
                (if length s \<le> decimals then
                   trim_end_matches CHR ''.'' (trim_end_matches CHR ''0'' (''0.'' @ pad_left decimals s))
                 else let integer = take (length s - decimals) s;
                          fraction = trim_end_matches CHR ''0'' (drop (length s - decimals) s)
                      in if fraction = [] then integer else integer @ ''.'' @ fraction)
              in formatted @ '' '' @ asset_display asset)"

definition format_amount_rounded :: "u256_printer \<Rightarrow> u256 \<Rightarrow> Asset \<Rightarrow> nat \<Rightarrow> string" where
  "format_amount_rounded u256_to_string v asset disp =
     (let total_decimals = unat (asset_decimals asset) in
      if disp \<ge> total_decimals then format_amount u256_to_string v asset
      else let shift = total_decimals - disp;
               divisor = 10 ^ shift :: u256;
               half = divisor div 2;
               rounded = (v + half) div divisor
           in if rounded = 0 \<and> v > 0 then format_amount u256_to_string v asset
              else let s = u256_to_string rounded in
                if disp = 0 then s @ '' '' @ asset_display asset
                else let formatted =
                       (if length s \<le> disp then ''0.'' @ pad_left disp s
                        else take (length s - disp) s @ ''.'' @ drop (length s - disp) s)
                     in trim_end_matches CHR ''.'' (trim_end_matches CHR ''0'' formatted)
                          @ '' '' @ asset_display asset)"

definition format_display :: "u256_printer \<Rightarrow> Amount \<Rightarrow> nat \<Rightarrow> string" where
  "format_display u256_to_string a decimals =
     format_amount_rounded u256_to_string (amount_value a) (amount_asset a) decimals"

definition amount_format :: "u256_printer \<Rightarrow> Amount \<Rightarrow> string" where
  "amount_format u256_to_string a = format_display u256_to_string a (display_decimals (amount_asset a))"

definition amount_serialize :: "u256_printer \<Rightarrow> Amount \<Rightarrow> string" where
  "amount_serialize u256_to_string a = format_amount u256_to_string (amount_value a) (amount_asset a)"

definition amount_deserialize :: "u256_parser \<Rightarrow> string \<Rightarrow> ParseAmountError + Amount" where
  "amount_deserialize u256_from_str s = amount_parse u256_from_str s None"

section \<open>Conversions\<close>

datatype ConversionError =
    AssetMismatch Asset Asset | UnsupportedConversion Asset Asset | PriceOracle
  | ConversionOverflow | ConversionDivisionByZero

definition PRICE_QUOTE_DECIMALS :: u32 where "PRICE_QUOTE_DECIMALS = 8"

definition mul_div :: "u256 \<Rightarrow> u256 \<Rightarrow> u256 \<Rightarrow> ConversionError + u256" where
  "mul_div v f d =
     (case checked_mul v f of
        None \<Rightarrow> Inl ConversionOverflow
      | Some p \<Rightarrow> (case checked_div p d of None \<Rightarrow> Inl ConversionDivisionByZero | Some q \<Rightarrow> Inr q))"

definition convert_asset_value :: "u256 \<Rightarrow> Asset \<Rightarrow> Asset \<Rightarrow> u256 \<Rightarrow> ConversionError + u256" where
  "convert_asset_value v from to price =
     (let from_decimals = ucast (asset_decimals from) :: u32;
          to_decimals = ucast (asset_decimals to) :: u32;
          price_decimals = PRICE_QUOTE_DECIMALS
      in if to_decimals > from_decimals then
           mul_div v (10 ^ unat (to_decimals - from_decimals + price_decimals)) price
         else if from_decimals > to_decimals then
           mul_div v price (10 ^ unat (from_decimals - to_decimals + price_decimals))
         else mul_div v price (10 ^ unat price_decimals))"

definition scale_decimals :: "u256 \<Rightarrow> u8 \<Rightarrow> u8 \<Rightarrow> u256" where
  "scale_decimals v from_decimals to_decimals =
     (if from_decimals = to_decimals then v
      else if from_decimals > to_decimals then v div 10 ^ unat (from_decimals - to_decimals)
      else v * 10 ^ unat (to_decimals - from_decimals))"

section \<open>Decimal text\<close>

text \<open>What the code relies on: the printer writes the decimal digits of the value, and the
  parser reads every digit string of a value in range.\<close>

definition is_dec :: "string \<Rightarrow> bool" where
  "is_dec s \<longleftrightarrow> s \<noteq> [] \<and> list_all (\<lambda>c. 48 \<le> (of_char c :: nat) \<and> (of_char c :: nat) \<le> 57) s"

fun dec_val_from :: "nat \<Rightarrow> string \<Rightarrow> nat" where
  "dec_val_from n [] = n"
| "dec_val_from n (c # cs) = dec_val_from (10 * n + (of_char c - 48)) cs"

definition dec_val :: "string \<Rightarrow> nat" where
  "dec_val s = dec_val_from 0 s"

definition u256_text :: "u256_printer \<Rightarrow> u256_parser \<Rightarrow> bool" where
  "u256_text u256_to_string u256_from_str \<longleftrightarrow>
     (\<forall>v. is_dec (u256_to_string v) \<and> dec_val (u256_to_string v) = unat v)
     \<and> (\<forall>s. is_dec s \<longrightarrow> dec_val s < 2 ^ 256 \<longrightarrow> u256_from_str s = Some (word_of_nat (dec_val s)))"

text \<open>An instance, for the examples.\<close>

fun show_dec :: "nat \<Rightarrow> string" where
  "show_dec n = (if n < 10 then [char_of (48 + n)] else show_dec (n div 10) @ [char_of (48 + n mod 10)])"

declare show_dec.simps [simp del]

definition read_dec :: "string \<Rightarrow> u256 option" where
  "read_dec s = (if is_dec s \<and> dec_val s < 2 ^ 256 then Some (word_of_nat (dec_val s)) else None)"

lemma dec_val_from_append: "dec_val_from n (xs @ ys) = dec_val_from (dec_val_from n xs) ys"
  by (induction xs arbitrary: n) auto

lemma dec_val_zeros [simp]: "dec_val (replicate k CHR ''0'' @ s) = dec_val s"
  by (induction k) (auto simp: dec_val_def)

lemma dec_val_zero_Cons [simp]: "dec_val (CHR ''0'' # s) = dec_val s"
  by (simp add: dec_val_def)

lemma show_dec_ok: "is_dec (show_dec n) \<and> dec_val (show_dec n) = n"
proof (induction n rule: show_dec.induct)
  case (1 n)
  show ?case
  proof (cases "n < 10")
    case True
    then show ?thesis by (subst (1 2) show_dec.simps) (simp add: is_dec_def dec_val_def)
  next
    case False
    have "n mod 10 < 10" by simp
    with 1 [OF False] False show ?thesis
      by (subst (1 2) show_dec.simps) (auto simp: is_dec_def dec_val_def dec_val_from_append)
  qed
qed

lemma u256_text_dec: "u256_text (\<lambda>v. show_dec (unat v)) read_dec"
  by (simp add: u256_text_def show_dec_ok read_dec_def)

section \<open>Printing and parsing an amount\<close>

definition plain :: "string \<Rightarrow> bool" where
  "plain s \<longleftrightarrow> s \<noteq> [] \<and> list_all (\<lambda>c. \<not> is_whitespace c) s"

lemma split_whitespace_from_plain:
  "list_all (\<lambda>c. \<not> is_whitespace c) xs \<Longrightarrow>
     split_whitespace_from (xs @ ys) cur = split_whitespace_from ys (cur @ xs)"
  by (induction xs arbitrary: cur) auto

lemma split_whitespace_two:
  "plain x \<Longrightarrow> plain y \<Longrightarrow> split_whitespace (x @ '' '' @ y) = [x, y]"
  using split_whitespace_from_plain [of x "'' '' @ y" "[]"] split_whitespace_from_plain [of y "[]" "[]"]
  by (auto simp: split_whitespace_def plain_def is_whitespace_def)

lemma dropWhile_hd: "xs \<noteq> [] \<Longrightarrow> \<not> P (hd xs) \<Longrightarrow> dropWhile P xs = xs"
  by (cases xs) auto

lemma trim_ends: "x \<noteq> [] \<Longrightarrow> \<not> is_whitespace (hd x) \<Longrightarrow> \<not> is_whitespace (last x) \<Longrightarrow> trim x = x"
  by (simp add: trim_def dropWhile_hd hd_rev)

lemma plain_ends: "plain x \<Longrightarrow> \<not> is_whitespace (hd x) \<and> \<not> is_whitespace (last x)"
  by (auto simp: plain_def list_all_iff)

lemma trim_plain: "plain x \<Longrightarrow> trim x = x"
  using plain_ends [of x] by (auto simp: plain_def intro: trim_ends)

lemma trim_two: "plain x \<Longrightarrow> plain y \<Longrightarrow> trim (x @ '' '' @ y) = x @ '' '' @ y"
  using plain_ends [of x] plain_ends [of y] by (intro trim_ends) (auto simp: plain_def)

lemma asset_text: "plain (asset_display a)" "asset_from_str (asset_display a) = Inr a"
  by (cases a; simp add: plain_def is_whitespace_def asset_from_str_def to_uppercase_def)+

lemma trim_end_matches_snoc [simp]:
  "trim_end_matches c (xs @ [c]) = trim_end_matches c xs"
  "x \<noteq> c \<Longrightarrow> trim_end_matches c (xs @ [x]) = xs @ [x]"
  by (simp_all add: trim_end_matches_def)

lemma trim_end_matches_Nil [simp]: "trim_end_matches c [] = []"
  by (simp add: trim_end_matches_def)

lemma trim_end_matches_append:
  "trim_end_matches c (xs @ ys) =
     (if trim_end_matches c ys = [] then trim_end_matches c xs else xs @ trim_end_matches c ys)"
proof (induction ys rule: rev_induct)
  case Nil
  show ?case by simp
next
  case (snoc y ys)
  then show ?case
    using trim_end_matches_snoc(1) [of c "xs @ ys"] trim_end_matches_snoc(2) [of y c "xs @ ys"]
    by (cases "y = c") (simp_all add: append_assoc [symmetric] del: append_assoc)
qed

lemma length_trim_end_matches: "length (trim_end_matches c xs) \<le> length xs"
  by (simp add: trim_end_matches_def) (metis length_dropWhile_le length_rev)

lemma set_trim_end_matches: "set (trim_end_matches c xs) \<subseteq> set xs"
  by (auto simp: trim_end_matches_def dest: set_dropWhileD)

lemma pad_right_trim: "pad_right (length xs) (trim_end_matches CHR ''0'' xs) = xs"
proof (induction xs rule: rev_induct)
  case Nil
  show ?case by (simp add: pad_right_def)
next
  case (snoc x xs)
  let ?t = "trim_end_matches CHR ''0'' xs"
  show ?case
  proof (cases "x = CHR ''0''")
    case True
    have "pad_right (length (xs @ [x])) ?t = pad_right (length xs) ?t @ [x]"
      using length_trim_end_matches [of "CHR ''0''" xs] True
      by (simp add: pad_right_def Suc_diff_le replicate_append_same)
    then show ?thesis using snoc True by simp
  qed (simp add: pad_right_def)
qed

text \<open>The printed number, integer part and trimmed fraction, is read back digit by digit.\<close>

definition join_point :: "string \<Rightarrow> string \<Rightarrow> string" where
  "join_point i f = (if f = [] then i else i @ ''.'' @ f)"

lemma parse_join_point:
  assumes "CHR ''.'' \<notin> set i" "length fr = unat d"
  shows "parse_decimal_to_u256 rd (join_point i (trim_end_matches CHR ''0'' fr)) d a =
     (case rd (i @ fr) of
        None \<Rightarrow> Inl (InvalidNumber (join_point i (trim_end_matches CHR ''0'' fr)))
      | Some v \<Rightarrow> Inr v)"
proof -
  let ?f = "trim_end_matches CHR ''0'' fr"
  have "split_once CHR ''.'' (i @ ''.'' @ ?f) = Some (i, ?f)"
    using assms(1) by (auto simp: split_once_def takeWhile_append dropWhile_append)
  moreover have "split_once CHR ''.'' i = None" using assms(1) by (simp add: split_once_def)
  moreover have "pad_right (unat d) ?f = fr" using pad_right_trim [of fr] assms(2) by simp
  ultimately show ?thesis
    using length_trim_end_matches [of "CHR ''0''" fr] assms(2)
    by (cases "?f = []") (simp_all add: parse_decimal_to_u256_def join_point_def Let_def split: option.split)
qed

lemma dec_chars:
  assumes "is_dec s"
  shows "CHR ''.'' \<notin> set s" "list_all (\<lambda>c. \<not> is_whitespace c) s"
  using assms by (force simp: is_dec_def list_all_iff is_whitespace_def)+

definition int_part :: "nat \<Rightarrow> string \<Rightarrow> string" where
  "int_part d s = (if length s \<le> d then ''0'' else take (length s - d) s)"

definition frac_part :: "nat \<Rightarrow> string \<Rightarrow> string" where
  "frac_part d s = (if length s \<le> d then pad_left d s else drop (length s - d) s)"

lemma parts_ok:
  assumes "is_dec s"
  shows "length (frac_part d s) = d" "is_dec (int_part d s)"
    "list_all (\<lambda>c. 48 \<le> (of_char c :: nat) \<and> (of_char c :: nat) \<le> 57) (frac_part d s)"
    "is_dec (int_part d s @ frac_part d s)" "dec_val (int_part d s @ frac_part d s) = dec_val s"
  using assms
  by (auto simp: is_dec_def int_part_def frac_part_def pad_left_def list_all_iff
        dest: in_set_takeD in_set_dropD)

lemma format_amount_join:
  assumes "is_dec (pr v)" "0 < d" "d = unat (asset_decimals a)"
  shows "format_amount pr v a =
     join_point (int_part d (pr v)) (trim_end_matches CHR ''0'' (frac_part d (pr v)))
       @ '' '' @ asset_display a"
proof (cases "length (pr v) \<le> d")
  case True
  let ?p = "pad_left d (pr v)" and ?t = "trim_end_matches CHR ''0'' (pad_left d (pr v))"
  have "trim_end_matches CHR ''0'' (''0.'' @ ?p) = ''0.'' @ ?t"
    using trim_end_matches_append [of "CHR ''0''" "''0.''" ?p] trim_end_matches_snoc(2) [of "CHR ''.''" "CHR ''0''" "''0''"]
    by (auto split: if_splits)
  moreover have "trim_end_matches CHR ''.'' (''0.'' @ ?t) = join_point ''0'' ?t"
  proof (cases ?t rule: rev_cases)
    case Nil
    then show ?thesis
      using trim_end_matches_snoc(1) [of "CHR ''.''" "''0''"]
        trim_end_matches_snoc(2) [of "CHR ''0''" "CHR ''.''" "[]"]
      by (simp add: join_point_def)
  next
    case (snoc ys y)
    have "y \<in> set ?p" using set_trim_end_matches [of "CHR ''0''" ?p] snoc by auto
    then have "y \<noteq> CHR ''.''"
      using dec_chars(1) [OF assms(1)] by (auto simp: pad_left_def)
    then show ?thesis
      using trim_end_matches_snoc(2) [of y "CHR ''.''" "''0.'' @ ys"] snoc by (simp add: join_point_def)
  qed
  ultimately show ?thesis
    using True assms by (simp add: format_amount_def Let_def int_part_def frac_part_def)
next
  case False
  then show ?thesis
    using assms by (simp add: format_amount_def Let_def int_part_def frac_part_def join_point_def)
qed

text \<open>C39: an amount written by \<open>Serialize\<close> is read back by \<open>Deserialize\<close> as itself, for every
  value and asset.\<close>

theorem amount_serde_roundtrip:
  assumes lib: "u256_text u256_to_string u256_from_str"
  shows "amount_deserialize u256_from_str (amount_serialize u256_to_string a) = Inr a"
proof -
  let ?v = "amount_value a" and ?a = "amount_asset a"
  let ?d = "unat (asset_decimals ?a)" and ?s = "u256_to_string (amount_value a)"
  let ?i = "int_part ?d ?s" and ?f = "frac_part ?d ?s"
  let ?n = "join_point ?i (trim_end_matches CHR ''0'' ?f)"
  have dec: "is_dec ?s" and val: "dec_val ?s = unat ?v"
    using lib by (auto simp: u256_text_def)
  note p = parts_ok [OF dec, of ?d]
  have d: "0 < ?d" by (cases ?a) auto
  have fmt: "amount_serialize u256_to_string a = ?n @ '' '' @ asset_display ?a"
    unfolding amount_serialize_def using dec d by (rule format_amount_join) simp
  have "list_all (\<lambda>c. \<not> is_whitespace c) ?n"
    using dec_chars(2) [OF p(2)] dec_chars(2) [OF p(4)] set_trim_end_matches [of "CHR ''0''" ?f]
    by (auto simp: join_point_def list_all_iff is_whitespace_def)
  moreover have "?n \<noteq> []" using p(2) by (simp add: join_point_def is_dec_def)
  ultimately have n: "plain ?n" by (simp add: plain_def)
  have "u256_from_str (?i @ ?f) = Some ?v"
    using lib p(4,5) val unat_lt [of ?v] by (simp add: u256_text_def)
  then have "parse_decimal_to_u256 u256_from_str ?n (asset_decimals ?a) ?a = Inr ?v"
    using parse_join_point [OF dec_chars(1) [OF p(2)] p(1)] by simp
  then show ?thesis
    using n asset_text [of ?a]
    by (simp add: amount_deserialize_def fmt amount_parse_def Let_def trim_two split_whitespace_two
          trim_plain del: append_Cons append.simps)
qed

theorem amount_serde_roundtrip_witness:
  "amount_deserialize read_dec (amount_serialize (\<lambda>v. show_dec (unat v))
     \<lparr>amount_value = 1500012, amount_asset = USD\<rparr>) = Inr \<lparr>amount_value = 1500012, amount_asset = USD\<rparr>"
  using amount_serde_roundtrip [OF u256_text_dec] .

section \<open>Conversion\<close>

lemma mul_div_Inr:
  "mul_div v f d = Inr r \<longleftrightarrow> d \<noteq> 0 \<and> unat v * unat f < 2 ^ 256 \<and> unat r = unat v * unat f div unat d"
  by (auto simp: mul_div_def checked_mul_def checked_div_def unat_div_distrib unat_mult_no_wrap
        intro!: word_unat_eq_iff [THEN iffD2] split: option.splits)

lemma unat_pow10: "k \<le> 77 \<Longrightarrow> unat (10 ^ k :: u256) = 10 ^ k"
proof -
  assume "k \<le> 77"
  then have "(10 :: nat) ^ k \<le> 10 ^ 77" by (intro power_increasing) auto
  also have "(10 :: nat) ^ 77 < 2 ^ 256" by simp
  finally have lt: "(10 :: nat) ^ k < 2 ^ 256" .
  have "unat (word_of_nat n :: u256) = n" if "n < 2 ^ 256" for n
    using that by (simp add: unat_of_nat)
  from this [OF lt] show ?thesis by (simp only: of_nat_power of_nat_numeral)
qed

text \<open>Converting an amount of US dollars into ETH or ZKC and back at the same price never
  yields more than the original amount, and loses at most one micro-dollar more than the price
  of one base unit of the target asset.\<close>

theorem convert_there_and_back:
  assumes "to = ETH \<or> to = ZKC"
    and "convert_asset_value v USD to price = Inr w"
    and "convert_asset_value w to USD price = Inr v'"
  shows "unat v' \<le> unat v \<and> unat v < unat v' + unat price div 10 ^ 20 + 2"
proof -
  have w: "unat price \<noteq> 0" "unat w = unat v * 10 ^ 20 div unat price"
    using assms(1,2)
    by (auto simp: convert_asset_value_def mul_div_Inr PRICE_QUOTE_DECIMALS_def unat_pow10
          unat_eq_zero simp del: power_numeral)
  have v': "unat v' = unat w * unat price div 10 ^ 20"
    using assms(1,3)
    by (auto simp: convert_asset_value_def mul_div_Inr PRICE_QUOTE_DECIMALS_def unat_pow10
          simp del: power_numeral)
  let ?x = "unat v * 10 ^ 20"
  have "unat w * unat price \<le> ?x" by (simp add: w(2))
  then have "unat v' \<le> ?x div 10 ^ 20" unfolding v' by (rule div_le_mono)
  moreover have "?x < unat w * unat price + unat price"
    using w(1) mod_less_divisor [of "unat price" ?x] div_mult_mod_eq [of ?x "unat price"]
    unfolding w(2) by linarith
  then have "?x div 10 ^ 20 \<le> (unat w * unat price + unat price) div 10 ^ 20"
    by (intro div_le_mono) simp
  then have "unat v \<le> unat v' + unat price div 10 ^ 20 + 1"
    unfolding v' using div_add1_eq [of "unat w * unat price" "unat price" "10 ^ 20"] by (simp; linarith)
  ultimately show ?thesis by simp
qed

theorem convert_there_and_back_witness:
  "\<exists>w v'. convert_asset_value 1000000 USD ETH 200000000000 = Inr w
     \<and> convert_asset_value w ETH USD 200000000000 = Inr v' \<and> unat v' \<le> unat (1000000 :: u256)"
  using convert_there_and_back [of ETH 1000000 200000000000 500000000000000 1000000]
  by (simp add: convert_asset_value_def mul_div_def checked_mul_def checked_div_def PRICE_QUOTE_DECIMALS_def)

lemma scale_decimals_up_down:
  assumes "a < b" "unat (b - a) \<le> 77" "unat v * 10 ^ unat (b - a) < 2 ^ 256"
  shows "scale_decimals (scale_decimals v a b) b a = v"
proof -
  let ?k = "10 ^ unat (b - a) :: u256"
  have k: "unat ?k = 10 ^ unat (b - a)" using assms(2) by (rule unat_pow10)
  then have "unat (v * ?k) = unat v * 10 ^ unat (b - a)"
    using assms(3) by (subst unat_mult_no_wrap) auto
  then have "unat (v * ?k div ?k) = unat v" by (simp add: unat_div_distrib k)
  then show ?thesis using assms(1) by (auto simp: scale_decimals_def word_unat_eq_iff)
qed

lemma parse_extra_words:
  "amount_parse read_dec ''1 ETH each'' (Some USD) = Inr \<lparr>amount_value = 1000000, amount_asset = USD\<rparr>"
proof -
  have "replicate 6 c = [c, c, c, c, c, c]" for c :: char by (simp add: numeral_eq_Suc)
  then show ?thesis
    by (simp add: amount_parse_def trim_def split_whitespace_def is_whitespace_def
          parse_decimal_to_u256_def split_once_def pad_right_def read_dec_def is_dec_def dec_val_def)
qed

end
