(* ===== verification/PriceOracle.thy ===== *)
theory PriceOracle
  imports Asset
begin

text \<open>
  Price oracles: \<open>price_oracle/exchange_rate.rs\<close>, \<open>composite_oracle.rs\<close>,
  \<open>cached_oracle.rs\<close> and \<open>manager.rs\<close>. The price sources themselves are network clients; what
  they answer is an argument of the definitions, a list of results in the order of the calls.
  A panic of the code is the error value \<open>OraclePanic\<close>.
\<close>

section \<open>Exchange rates\<close>

datatype TradingPair = EthUsd | ZkcUsd

fun pair_base :: "TradingPair \<Rightarrow> Asset" where
  "pair_base EthUsd = ETH"
| "pair_base ZkcUsd = ZKC"

fun pair_quote :: "TradingPair \<Rightarrow> Asset" where
  "pair_quote EthUsd = USD"
| "pair_quote ZkcUsd = USD"

record ExchangeRate =
  rate_pair :: TradingPair
  rate :: u256
  rate_timestamp :: u64

datatype PriceOracleError =
    AllSourcesFailed TradingPair | InsufficientSources TradingPair u8 u8 | RpcError | HttpError
  | InvalidPrice | StalePrice u64 u64 | ConfigError | Internal | UpdateTimeout | OraclePanic

definition exchange_rate_new_with_assets :: "Asset \<Rightarrow> Asset \<Rightarrow> u256 \<Rightarrow> u64 \<Rightarrow> ExchangeRate option" where
  "exchange_rate_new_with_assets base quote r ts =
     (case (base, quote) of
        (ETH, USD) \<Rightarrow> Some \<lparr>rate_pair = EthUsd, rate = r, rate_timestamp = ts\<rparr>
      | (ZKC, USD) \<Rightarrow> Some \<lparr>rate_pair = ZkcUsd, rate = r, rate_timestamp = ts\<rparr>
      | _ \<Rightarrow> None)"

definition exchange_rate_convert :: "ExchangeRate \<Rightarrow> Amount \<Rightarrow> ConversionError + Amount" where
  "exchange_rate_convert r amount =
     (if amount_asset amount \<noteq> pair_base (rate_pair r) then
        Inl (AssetMismatch (pair_base (rate_pair r)) (amount_asset amount))
      else case convert_asset_value (amount_value amount) (pair_base (rate_pair r))
                  (pair_quote (rate_pair r)) (rate r) of
             Inl e \<Rightarrow> Inl e
           | Inr converted \<Rightarrow>
               Inr \<lparr>amount_value = converted, amount_asset = pair_quote (rate_pair r)\<rparr>)"

definition is_stale :: "u64 \<Rightarrow> ExchangeRate \<Rightarrow> u64 \<Rightarrow> bool" where
  "is_stale now r max_age_secs \<longleftrightarrow> saturating_sub now (rate_timestamp r) > max_age_secs"

definition scale_price_from_i256 :: "256 word \<Rightarrow> u32 \<Rightarrow> PriceOracleError + u256" where
  "scale_price_from_i256 price decimals =
     (if sint price \<le> 0 then Inl InvalidPrice
      else if decimals = PRICE_QUOTE_DECIMALS then Inr price
      else if decimals < PRICE_QUOTE_DECIMALS then
        Inr (price * ucast (10 ^ unat (PRICE_QUOTE_DECIMALS - decimals) :: u64))
      else let d = ucast (10 ^ unat (decimals - PRICE_QUOTE_DECIMALS) :: u64)
           in if d = 0 then Inl OraclePanic else Inr (price div d))"

section \<open>The composite oracle\<close>

datatype AggregationMode = Priority | Median | Average

type_synonym rate_result = "PriceOracleError + ExchangeRate"

record CompositeOracle =
  aggregation_mode :: AggregationMode
  min_sources :: u8
  composite_pair :: TradingPair

fun fetch_priority_sequential :: "CompositeOracle \<Rightarrow> rate_result list \<Rightarrow> rate_result" where
  "fetch_priority_sequential c [] = Inl (AllSourcesFailed (composite_pair c))"
| "fetch_priority_sequential c (Inr r # _) = Inr r"
| "fetch_priority_sequential c (Inl _ # results) = fetch_priority_sequential c results"

fun successes :: "rate_result list \<Rightarrow> ExchangeRate list" where
  "successes [] = []"
| "successes (Inr r # results) = r # successes results"
| "successes (Inl _ # results) = successes results"

definition to_u128 :: "u256 \<Rightarrow> u128 option" where
  "to_u128 = narrow"

definition aggregate_median_or_average :: "CompositeOracle \<Rightarrow> rate_result list \<Rightarrow> rate_result" where
  "aggregate_median_or_average c results =
     (let successful = successes results in
      if length successful < unat (min_sources c) then
        Inl (InsufficientSources (composite_pair c) (word_of_nat (length successful)) (min_sources c))
      else case aggregation_mode c of
        Median \<Rightarrow>
          (let sorted = sort_key rate successful;
               mid = length sorted div 2
           in if mid < length sorted then Inr (sorted ! mid) else Inl OraclePanic)
      | Average \<Rightarrow>
          (if list_ex (\<lambda>r. to_u128 (rate r) = None) successful \<or> successful = [] then Inl OraclePanic
           else let total = sum_list (map (\<lambda>r. the (to_u128 (rate r))) successful);
                    avg = total div word_of_nat (length successful);
                    timestamp = rate_timestamp (successful ! 0)
                in Inr \<lparr>rate_pair = composite_pair c, rate = ucast avg, rate_timestamp = timestamp\<rparr>)
      | Priority \<Rightarrow> Inl OraclePanic)"

definition composite_get_rate :: "CompositeOracle \<Rightarrow> rate_result list \<Rightarrow> rate_result" where
  "composite_get_rate c results =
     (case aggregation_mode c of
        Priority \<Rightarrow> fetch_priority_sequential c results
      | _ \<Rightarrow> aggregate_median_or_average c results)"

section \<open>The cached oracle\<close>

text \<open>The cache is the rate of the last successful fetch. \<open>refresh_rate\<close> consumes the answers of
  the wrapped oracle from a list and returns the answers left over.\<close>

type_synonym rate_cache = "ExchangeRate option"

fun refresh_attempts :: "nat \<Rightarrow> rate_cache \<Rightarrow> rate_result list \<Rightarrow> rate_cache \<times> rate_result list" where
  "refresh_attempts 0 cache results = (cache, results)"
| "refresh_attempts (Suc n) cache [] = (cache, [])"
| "refresh_attempts (Suc n) cache (Inr r # results) = (Some r, results)"
| "refresh_attempts (Suc n) cache (Inl _ # results) = refresh_attempts n cache results"

definition refresh_rate :: "rate_cache \<Rightarrow> rate_result list \<Rightarrow> rate_cache \<times> rate_result list" where
  "refresh_rate cache results =
     (let has_cached = (cache \<noteq> None);
          max_attempts = (if has_cached then 1 else 3)
      in refresh_attempts max_attempts cache results)"

definition cached_get_rate :: "rate_cache \<Rightarrow> rate_result \<Rightarrow> rate_cache \<times> rate_result" where
  "cached_get_rate cache fetched =
     (case cache of
        Some r \<Rightarrow> (cache, Inr r)
      | None \<Rightarrow> (case fetched of Inl e \<Rightarrow> (cache, Inl e) | Inr r \<Rightarrow> (Some r, Inr r)))"

section \<open>The manager\<close>

record PriceOracleManager =
  eth_usd :: rate_cache
  zkc_usd :: rate_cache
  max_time_without_update :: u64

text \<open>\<open>get_rate\<close> of the manager for each pair; the argument \<open>rates\<close> of \<open>manager_convert\<close> is its
  answer. ETH and ZKC convert into each other through US dollars.\<close>

definition manager_get_rate ::
    "PriceOracleManager \<Rightarrow> (TradingPair \<Rightarrow> rate_result) \<Rightarrow> TradingPair \<Rightarrow> PriceOracleManager \<times> rate_result" where
  "manager_get_rate m fetched pair =
     (case pair of
        EthUsd \<Rightarrow> (case cached_get_rate (eth_usd m) (fetched EthUsd) of (c, r) \<Rightarrow> (m\<lparr>eth_usd := c\<rparr>, r))
      | ZkcUsd \<Rightarrow> (case cached_get_rate (zkc_usd m) (fetched ZkcUsd) of (c, r) \<Rightarrow> (m\<lparr>zkc_usd := c\<rparr>, r)))"

definition convert_at :: "rate_result \<Rightarrow> Amount \<Rightarrow> Asset \<Rightarrow> ConversionError + Amount" where
  "convert_at r amount target =
     (case r of
        Inl _ \<Rightarrow> Inl PriceOracle
      | Inr r' \<Rightarrow>
          (case convert_asset_value (amount_value amount) (amount_asset amount) target (rate r') of
             Inl e \<Rightarrow> Inl e
           | Inr v \<Rightarrow> Inr \<lparr>amount_value = v, amount_asset = target\<rparr>))"

function manager_convert ::
    "(TradingPair \<Rightarrow> rate_result) \<Rightarrow> Amount \<Rightarrow> Asset \<Rightarrow> ConversionError + Amount" where
  "manager_convert rates amount target =
     (if amount_asset amount = target then Inr amount
      else case (amount_asset amount, target) of
        (USD, ETH) \<Rightarrow> convert_at (rates EthUsd) amount target
      | (ETH, USD) \<Rightarrow> convert_at (rates EthUsd) amount target
      | (USD, ZKC) \<Rightarrow> convert_at (rates ZkcUsd) amount target
      | (ZKC, USD) \<Rightarrow> convert_at (rates ZkcUsd) amount target
      | (ETH, ZKC) \<Rightarrow>
          (case convert_at (rates EthUsd) amount USD of
             Inl e \<Rightarrow> Inl e
           | Inr usd_amount \<Rightarrow> manager_convert rates usd_amount target)
      | (ZKC, ETH) \<Rightarrow>
          (case convert_at (rates ZkcUsd) amount USD of
             Inl e \<Rightarrow> Inl e
           | Inr usd_amount \<Rightarrow> manager_convert rates usd_amount target)
      | _ \<Rightarrow> Inl (UnsupportedConversion (amount_asset amount) target))"
  by pat_completeness auto

termination
  by (relation "measure (\<lambda>(_, amount, _). if amount_asset amount = USD then 0 else 1)")
     (auto simp: convert_at_def split: sum.splits)

definition refresh_all_rates ::
    "PriceOracleManager \<Rightarrow> rate_result list \<Rightarrow> rate_result list \<Rightarrow> PriceOracleManager" where
  "refresh_all_rates m eth zkc =
     m\<lparr>eth_usd := fst (refresh_rate (eth_usd m) eth), zkc_usd := fst (refresh_rate (zkc_usd m) zkc)\<rparr>"

text \<open>One tick of \<open>start_oracle\<close>: refresh both rates, then report whether the error about stale
  prices is logged.\<close>

definition is_none_or :: "('a \<Rightarrow> bool) \<Rightarrow> 'a option \<Rightarrow> bool" where
  "is_none_or p x = (case x of None \<Rightarrow> True | Some y \<Rightarrow> p y)"

definition oracle_tick ::
    "u64 \<Rightarrow> PriceOracleManager \<Rightarrow> rate_result list \<Rightarrow> rate_result list \<Rightarrow> PriceOracleManager \<times> bool" where
  "oracle_tick now m eth zkc =
     (let m' = refresh_all_rates m eth zkc in
      (m', max_time_without_update m' > 0
             \<and> (is_none_or (\<lambda>r. is_stale now r (max_time_without_update m')) (eth_usd m')
                 \<or> is_none_or (\<lambda>r. is_stale now r (max_time_without_update m')) (zkc_usd m'))))"

section \<open>Aggregation\<close>

lemma filter_nth_bound:
  assumes "\<And>i. i < length xs \<Longrightarrow> i < n \<Longrightarrow> \<not> P (xs ! i)" "n \<le> length xs"
  shows "length (filter P xs) \<le> length xs - n"
proof -
  have "filter P (take n xs) = []"
    using assms by (auto simp: filter_empty_conv in_set_conv_nth)
  then have "length (filter P xs) = length (filter P (drop n xs))"
    by (metis append_take_drop_id filter_append append_Nil)
  also have "\<dots> \<le> length (drop n xs)" by (rule length_filter_le)
  finally show ?thesis by simp
qed

lemma filter_nth_bound':
  assumes "\<And>i. n \<le> i \<Longrightarrow> i < length xs \<Longrightarrow> \<not> P (xs ! i)"
  shows "length (filter P xs) \<le> n"
proof -
  have "filter P (drop n xs) = []"
    using assms by (force simp: filter_empty_conv in_set_conv_nth)
  then have "length (filter P xs) = length (filter P (take n xs))"
    by (metis append_take_drop_id filter_append append_Nil2)
  also have "\<dots> \<le> n" by (rule order_trans [OF length_filter_le]) simp
  finally show ?thesis .
qed

lemma median_in_majority:
  fixes f :: "'a \<Rightarrow> 'b::linorder"
  assumes maj: "length xs < 2 * length (filter (\<lambda>x. lo \<le> f x \<and> f x \<le> hi) xs)"
  defines "ys \<equiv> sort_key f xs"
  shows "lo \<le> f (ys ! (length ys div 2)) \<and> f (ys ! (length ys div 2)) \<le> hi"
proof -
  let ?P = "\<lambda>x. lo \<le> f x \<and> f x \<le> hi" and ?m = "length ys div 2"
  have len: "length ys = length xs" by (simp add: ys_def)
  have "mset (filter ?P ys) = mset (filter ?P xs)" by (simp add: ys_def)
  then have maj': "length ys < 2 * length (filter ?P ys)"
    using maj len by (metis size_mset)
  have ne: "?m < length ys" using maj' by (cases ys) auto
  have sorted: "sorted (map f ys)" by (simp add: ys_def)
  have mono: "f (ys ! i) \<le> f (ys ! j)" if "i \<le> j" "j < length ys" for i j
    using sorted_nth_mono [OF sorted, of i j] that by simp
  have "\<not> f (ys ! ?m) < lo"
  proof
    assume "f (ys ! ?m) < lo"
    then have "\<not> ?P (ys ! i)" if "i < ?m + 1" for i
      using mono [of i ?m] ne that by auto
    then have "length (filter ?P ys) \<le> length ys - (?m + 1)"
      using ne by (intro filter_nth_bound) auto
    then show False using maj' by linarith
  qed
  moreover have "\<not> hi < f (ys ! ?m)"
  proof
    assume "hi < f (ys ! ?m)"
    then have "length (filter ?P ys) \<le> ?m"
      by (intro filter_nth_bound') (auto dest!: mono [of ?m])
    then show False using maj' by linarith
  qed
  ultimately show ?thesis by (metis not_less)
qed

text \<open>C32: in median mode, if more than half of the sources that answered report a rate between
  \<open>lo\<close> and \<open>hi\<close>, then so does the composite oracle, whatever the other sources report; and the
  oracle does answer when enough sources did.\<close>

theorem median_resists_minority:
  assumes "aggregation_mode c = Median"
    and "unat (min_sources c) \<le> length (successes results)"
    and "length (successes results)
           < 2 * length (filter (\<lambda>r. lo \<le> rate r \<and> rate r \<le> hi) (successes results))"
  shows "\<exists>r. composite_get_rate c results = Inr r \<and> r \<in> set (successes results)
             \<and> lo \<le> rate r \<and> rate r \<le> hi"
proof -
  let ?ys = "sort_key rate (successes results)"
  have "successes results \<noteq> []" using assms(3) by auto
  then have mid: "length ?ys div 2 < length ?ys" by (simp add: div_less_dividend)
  then have "?ys ! (length ?ys div 2) \<in> set (successes results)"
    using nth_mem [OF mid] by simp
  then show ?thesis
    using median_in_majority [OF assms(3)] mid assms(1,2)
    by (simp add: composite_get_rate_def aggregate_median_or_average_def Let_def)
qed

definition sample_rate :: "u256 \<Rightarrow> rate_result" where
  "sample_rate r = Inr \<lparr>rate_pair = EthUsd, rate = r, rate_timestamp = 1000\<rparr>"

theorem median_resists_minority_witness:
  "\<exists>r. composite_get_rate \<lparr>aggregation_mode = Median, min_sources = 2, composite_pair = EthUsd\<rparr>
          [sample_rate 2000, Inl HttpError, sample_rate 9, sample_rate 2010] = Inr r
       \<and> 1990 \<le> rate r \<and> rate r \<le> 2020"
  using median_resists_minority [of "\<lparr>aggregation_mode = Median, min_sources = 2, composite_pair = EthUsd\<rparr>"
     "[sample_rate 2000, Inl HttpError, sample_rate 9, sample_rate 2010]" 1990 2020]
  by (auto simp: sample_rate_def)

section \<open>The cache\<close>

text \<open>The successful answers that refreshes of the cache consume, oldest first.\<close>

fun last_success :: "rate_cache \<Rightarrow> rate_result list \<Rightarrow> rate_cache" where
  "last_success cache [] = cache"
| "last_success cache (Inr r # results) = last_success (Some r) results"
| "last_success cache (Inl _ # results) = last_success cache results"

lemma last_success_append: "last_success c (xs @ ys) = last_success (last_success c xs) ys"
  by (induction c xs rule: last_success.induct) auto

lemma refresh_attempts_split:
  "refresh_attempts n cache results = (cache', rest) \<Longrightarrow>
     \<exists>used. results = used @ rest \<and> length used \<le> n \<and> cache' = last_success cache used"
proof (induction n cache results arbitrary: cache' rest rule: refresh_attempts.induct)
  case (3 n cache r results)
  then show ?case by (intro exI [of _ "[Inr r]"]) auto
next
  case (4 n cache e results)
  then obtain used where "results = used @ rest" "length used \<le> n" "cache' = last_success cache used"
    by fastforce
  then show ?case by (intro exI [of _ "Inl e # used"]) auto
qed auto

fun refresh_run :: "nat \<Rightarrow> rate_cache \<Rightarrow> rate_result list \<Rightarrow> rate_cache \<times> rate_result list" where
  "refresh_run 0 cache results = (cache, results)"
| "refresh_run (Suc k) cache results =
     (case refresh_rate cache results of (cache', rest) \<Rightarrow> refresh_run k cache' rest)"

text \<open>After any number of refreshes the cache holds the rate of the last successful fetch
  among the answers consumed, a failed refresh never loses a rate, and the cached rate is what
  \<open>get_rate\<close> serves without asking the source again.\<close>

theorem cache_holds_last_success:
  assumes "refresh_run k cache results = (cache', rest)"
  shows "(\<exists>used. results = used @ rest \<and> cache' = last_success cache used)
       \<and> (cache \<noteq> None \<longrightarrow> cache' \<noteq> None)
       \<and> (\<forall>r fetched. cache' = Some r \<longrightarrow> cached_get_rate cache' fetched = (cache', Inr r))"
proof -
  have "\<exists>used. results = used @ rest \<and> cache' = last_success cache used"
    using assms
  proof (induction k arbitrary: cache results)
    case 0
    then show ?case by (intro exI [of _ "[]"]) simp
  next
    case (Suc k)
    obtain c1 r1 where 1: "refresh_rate cache results = (c1, r1)" by fastforce
    then obtain u1 where u1: "results = u1 @ r1" "c1 = last_success cache u1"
      by (auto simp: refresh_rate_def Let_def dest: refresh_attempts_split)
    moreover obtain u2 where "r1 = u2 @ rest" "cache' = last_success c1 u2"
      using Suc.IH [of c1 r1] Suc.prems 1 by auto
    ultimately show ?case by (intro exI [of _ "u1 @ u2"]) (simp add: last_success_append)
  qed
  moreover have "c \<noteq> None \<Longrightarrow> last_success c used \<noteq> None" for c used
    by (induction c used rule: last_success.induct) auto
  ultimately show ?thesis by (auto simp: cached_get_rate_def)
qed

theorem cache_holds_last_success_witness:
  "refresh_run 2 None [Inl HttpError, sample_rate 5, sample_rate 7, Inl HttpError]
     = (Some \<lparr>rate_pair = EthUsd, rate = 7, rate_timestamp = 1000\<rparr>, [Inl HttpError])
   \<and> (\<exists>used. [Inl HttpError, sample_rate 5, sample_rate 7, Inl HttpError] = used @ [Inl HttpError]
        \<and> Some \<lparr>rate_pair = EthUsd, rate = 7, rate_timestamp = 1000\<rparr> = last_success None used)"
proof -
  have run: "refresh_run 2 None [Inl HttpError, sample_rate 5, sample_rate 7, Inl HttpError]
     = (Some \<lparr>rate_pair = EthUsd, rate = 7, rate_timestamp = 1000\<rparr>, [Inl HttpError])"
    by (simp add: numeral_eq_Suc refresh_rate_def sample_rate_def)
  from cache_holds_last_success [OF run] run show ?thesis by blast
qed

text \<open>The staleness check of the refresh task only logs: after a tick that reports stale
  prices, a rate in the cache is still served and still used for conversions.\<close>

theorem stale_rate_still_served:
  assumes "oracle_tick now m eth zkc = (m', True)" "eth_usd m' = Some r"
    and "max_time_without_update m' < saturating_sub now (rate_timestamp r)"
    and "amount_asset a = USD"
  shows "is_stale now r (max_time_without_update m')
       \<and> manager_get_rate m' fetched EthUsd = (m', Inr r)
       \<and> manager_convert (\<lambda>p. snd (manager_get_rate m' fetched p)) a ETH = convert_at (Inr r) a ETH"
  using assms by (simp add: is_stale_def manager_get_rate_def cached_get_rate_def)

theorem stale_rate_still_served_witness:
  "\<exists>m'. oracle_tick 100000 \<lparr>eth_usd = None, zkc_usd = None, max_time_without_update = 43200\<rparr>
          [sample_rate 5] [] = (m', True)
     \<and> manager_get_rate m' (\<lambda>_. Inl HttpError) EthUsd
         = (m', Inr \<lparr>rate_pair = EthUsd, rate = 5, rate_timestamp = 1000\<rparr>)"
proof -
  let ?r = "\<lparr>rate_pair = EthUsd, rate = 5, rate_timestamp = 1000\<rparr>"
  let ?m' = "\<lparr>eth_usd = Some ?r, zkc_usd = None, max_time_without_update = 43200\<rparr>"
  have t: "oracle_tick 100000 \<lparr>eth_usd = None, zkc_usd = None, max_time_without_update = 43200\<rparr>
     [sample_rate 5] [] = (?m', True)"
  proof -
    have "refresh_attempts 3 None [sample_rate 5] = (Some ?r, [])" "refresh_attempts 3 None [] = (None, [])"
      by (simp_all add: numeral_3_eq_3 sample_rate_def)
    then show ?thesis
      by (simp add: oracle_tick_def refresh_all_rates_def refresh_rate_def is_none_or_def)
  qed
  then show ?thesis
    using stale_rate_still_served [OF t, of ?r "\<lparr>amount_value = 1, amount_asset = USD\<rparr>" "\<lambda>_. Inl HttpError"]
    by (simp add: saturating_sub_def)
qed

end
