(* ===== verification/MarketConfig.thy ===== *)
theory MarketConfig
  imports Asset
begin

text \<open>
  The broker's market configuration: \<open>prover_utils/config.rs\<close>. The record holds the fields the
  modelled code reads; the defaults are the functions of the \<open>defaults\<close> module. A parsed TOML
  document is a tree whose tables are association lists, in the order the library iterates them;
  the merge of a per-chain override onto the base configuration is \<open>config_merge\<close>.
\<close>

section \<open>Priority modes and price overrides\<close>

datatype OrderPricingPriority = PricingRandom | ObservationTime | PricingShortestExpiry

datatype OrderCommitmentPriority = CommitRandom | CommitShortestExpiry | CommitPrice
  | CommitCyclePrice | TightestDeadline

definition order_pricing_priority_default :: OrderPricingPriority where
  "order_pricing_priority_default = PricingRandom"

definition order_commitment_priority_default :: OrderCommitmentPriority where
  "order_commitment_priority_default = CommitCyclePrice"

record PricingOverrides =
  by_requestor :: "address \<rightharpoonup> Amount"
  by_proof_type :: "selector \<rightharpoonup> Amount"
  by_requestor_proof_type :: "address \<times> selector \<rightharpoonup> Amount"

definition or_else :: "'a option \<Rightarrow> 'a option \<Rightarrow> 'a option" where
  "or_else x y = (case x of None \<Rightarrow> y | Some _ \<Rightarrow> x)"

definition overrides_resolve :: "PricingOverrides \<Rightarrow> address \<Rightarrow> selector \<Rightarrow> Amount option" where
  "overrides_resolve p requestor proof_type =
     or_else (or_else (by_requestor_proof_type p (requestor, proof_type)) (by_proof_type p proof_type))
       (by_requestor p requestor)"

section \<open>The configuration and its defaults\<close>

record MarketConfig =
  cfg_min_mcycle_price :: Amount
  cfg_expected_probability_win_secondary_fulfillment :: u32
  cfg_max_mcycle_limit :: u64
  cfg_min_mcycle_limit :: u64
  cfg_priority_requestor_addresses :: "address list option"
  cfg_max_journal_bytes :: nat
  cfg_peak_prove_khz :: "u64 option"
  cfg_min_deadline :: u64
  cfg_max_collateral :: Amount
  cfg_allow_client_addresses :: "address list option"
  cfg_allow_requestor_lists :: "string list option"
  cfg_deny_requestor_addresses :: "address list option"
  cfg_lockin_gas_estimate :: u64
  cfg_fulfill_gas_estimate :: u64
  cfg_commit_fulfillment_gas_estimate :: u64
  cfg_fulfill_journal_gas_per_byte :: u64
  cfg_groth16_verify_gas_estimate :: u64
  cfg_additional_proof_cycles :: u64
  cfg_max_concurrent_proofs :: u32
  cfg_max_commitment_duration_secs :: u64
  cfg_max_concurrent_preflights :: u32
  cfg_order_pricing_priority :: OrderPricingPriority
  cfg_order_commitment_priority :: OrderCommitmentPriority
  cfg_pricing_overrides :: PricingOverrides
  cfg_max_order_expiry_secs :: "u64 option"
  cfg_skip_gas_profitability_check :: bool

definition ESTIMATED_GROTH16_TIME :: u64 where "ESTIMATED_GROTH16_TIME = 15"
definition default_max_journal_bytes :: nat where "default_max_journal_bytes = 10000"
definition default_lockin_gas_estimate :: u64 where "default_lockin_gas_estimate = 200000"
definition default_fulfill_gas_estimate :: u64 where "default_fulfill_gas_estimate = 420000"
definition default_commit_fulfillment_gas_estimate :: u64 where
  "default_commit_fulfillment_gas_estimate = 50000"
definition default_fulfill_journal_gas_per_byte :: u64 where "default_fulfill_journal_gas_per_byte = 26"
definition default_groth16_verify_gas_estimate :: u64 where
  "default_groth16_verify_gas_estimate = 250000"
definition default_additional_proof_cycles :: u64 where
  "default_additional_proof_cycles = 2000000 + 270000"
definition default_max_submission_attempts :: u32 where "default_max_submission_attempts = 3"
definition default_max_concurrent_preflights :: u32 where "default_max_concurrent_preflights = 8"
definition default_allow_requestor_lists :: "string list option" where
  "default_allow_requestor_lists = None"
definition default_max_mcycle_limit :: u64 where "default_max_mcycle_limit = 8000"
definition default_min_mcycle_limit :: u64 where "default_min_mcycle_limit = 0"
definition default_txn_timeout :: u64 where "default_txn_timeout = 45"
definition default_block_deadline_buffer_secs :: u64 where
  "default_block_deadline_buffer_secs =
     default_txn_timeout * ucast default_max_submission_attempts + ESTIMATED_GROTH16_TIME * 2"
definition default_min_deadline :: u64 where
  "default_min_deadline = default_block_deadline_buffer_secs + 30"
definition default_max_concurrent_proofs :: u32 where "default_max_concurrent_proofs = 1"
definition default_max_commitment_duration_secs :: u64 where
  "default_max_commitment_duration_secs = 14400"
definition default_max_order_expiry_secs :: "u64 option" where "default_max_order_expiry_secs = None"
definition default_expected_probability_win_secondary_fulfillment :: u32 where
  "default_expected_probability_win_secondary_fulfillment = 50"

text \<open>\<open>None\<close> is the panic of an \<open>expect\<close> on one of the two default amounts.\<close>

definition market_config_default :: "u256_parser \<Rightarrow> MarketConfig option" where
  "market_config_default u256_from_str =
     (case (amount_parse u256_from_str ''0.00002 USD'' None, amount_parse u256_from_str ''10 USD'' None) of
        (Inr min_mcycle_price, Inr max_collateral) \<Rightarrow>
          Some \<lparr>cfg_min_mcycle_price = min_mcycle_price,
                cfg_expected_probability_win_secondary_fulfillment =
                  default_expected_probability_win_secondary_fulfillment,
                cfg_max_mcycle_limit = default_max_mcycle_limit,
                cfg_min_mcycle_limit = default_min_mcycle_limit,
                cfg_priority_requestor_addresses = None,
                cfg_max_journal_bytes = default_max_journal_bytes,
                cfg_peak_prove_khz = None,
                cfg_min_deadline = default_min_deadline,
                cfg_max_collateral = max_collateral,
                cfg_allow_client_addresses = None,
                cfg_allow_requestor_lists = default_allow_requestor_lists,
                cfg_deny_requestor_addresses = None,
                cfg_lockin_gas_estimate = default_lockin_gas_estimate,
                cfg_fulfill_gas_estimate = default_fulfill_gas_estimate,
                cfg_commit_fulfillment_gas_estimate = default_commit_fulfillment_gas_estimate,
                cfg_fulfill_journal_gas_per_byte = default_fulfill_journal_gas_per_byte,
                cfg_groth16_verify_gas_estimate = default_groth16_verify_gas_estimate,
                cfg_additional_proof_cycles = default_additional_proof_cycles,
                cfg_max_concurrent_proofs = default_max_concurrent_proofs,
                cfg_max_commitment_duration_secs = default_max_commitment_duration_secs,
                cfg_max_concurrent_preflights = default_max_concurrent_preflights,
                cfg_order_pricing_priority = order_pricing_priority_default,
                cfg_order_commitment_priority = order_commitment_priority_default,
                cfg_pricing_overrides =
                  \<lparr>by_requestor = Map.empty, by_proof_type = Map.empty,
                   by_requestor_proof_type = Map.empty\<rparr>,
                cfg_max_order_expiry_secs = default_max_order_expiry_secs,
                cfg_skip_gas_profitability_check = False\<rparr>
      | _ \<Rightarrow> None)"

definition deserialize_mcycle_price :: "u256_parser \<Rightarrow> string \<Rightarrow> ParseAmountError + Amount" where
  "deserialize_mcycle_price u256_from_str s = parse_with_allowed u256_from_str s [USD, ETH] (Some ETH)"

definition deserialize_max_collateral :: "u256_parser \<Rightarrow> string \<Rightarrow> ParseAmountError + Amount" where
  "deserialize_max_collateral u256_from_str s = parse_with_allowed u256_from_str s [USD, ZKC] (Some ZKC)"

section \<open>Merging a per-chain override\<close>

datatype toml = TomlTable "(string \<times> toml) list" | TomlScalar string

definition GLOBAL_ONLY_FIELDS :: "(string \<times> string) list" where
  "GLOBAL_ONLY_FIELDS =
     [(''market'', ''max_concurrent_preflights''), (''market'', ''order_pricing_priority''),
      (''market'', ''peak_prove_khz''), (''market'', ''max_concurrent_proofs''),
      (''market'', ''order_commitment_priority'')]"

fun as_table :: "toml \<Rightarrow> (string \<times> toml) list option" where
  "as_table (TomlTable t) = Some t"
| "as_table (TomlScalar _) = None"

definition remove_key :: "string \<Rightarrow> (string \<times> toml) list \<Rightarrow> (string \<times> toml) list" where
  "remove_key k t = filter (\<lambda>(k', _). k' \<noteq> k) t"

definition set_key :: "string \<Rightarrow> toml \<Rightarrow> (string \<times> toml) list \<Rightarrow> (string \<times> toml) list" where
  "set_key k v t = map (\<lambda>(k', w). if k' = k then (k', v) else (k', w)) t"

definition strip_field ::
    "(string \<times> toml) list \<Rightarrow> string \<times> string \<Rightarrow> (string \<times> toml) list" where
  "strip_field root sf =
     (case sf of (section, field) \<Rightarrow>
        (case map_of root section of
           None \<Rightarrow> root
         | Some v \<Rightarrow>
             (case as_table v of
                None \<Rightarrow> root
              | Some t \<Rightarrow> set_key section (TomlTable (remove_key field t)) root)))"

definition strip_global_fields :: "toml \<Rightarrow> toml" where
  "strip_global_fields override_val =
     (case as_table override_val of
        None \<Rightarrow> override_val
      | Some root \<Rightarrow> TomlTable (foldl strip_field root GLOBAL_ONLY_FIELDS))"

fun deep_merge :: "toml \<Rightarrow> toml \<Rightarrow> toml"
  and merge_entries :: "(string \<times> toml) list \<Rightarrow> (string \<times> toml) list \<Rightarrow> (string \<times> toml) list" where
  "deep_merge (TomlTable base_table) (TomlTable override_table) =
     TomlTable (merge_entries base_table override_table)"
| "deep_merge base override_val = override_val"
| "merge_entries base_table [] = base_table"
| "merge_entries base_table ((key, override_value) # rest) =
     merge_entries
       (case map_of base_table key of
          Some base_value \<Rightarrow> set_key key (deep_merge base_value override_value) base_table
        | None \<Rightarrow> base_table @ [(key, override_value)]) rest"

definition config_merge :: "toml \<Rightarrow> toml \<Rightarrow> toml" where
  "config_merge base override_val = deep_merge base (strip_global_fields override_val)"

section \<open>Lookups\<close>

definition toml_get :: "toml \<Rightarrow> string \<Rightarrow> toml option" where
  "toml_get v k = (case as_table v of None \<Rightarrow> None | Some t \<Rightarrow> map_of t k)"

definition toml_field :: "toml \<Rightarrow> string \<Rightarrow> string \<Rightarrow> toml option" where
  "toml_field v section field = (case toml_get v section of None \<Rightarrow> None | Some t \<Rightarrow> toml_get t field)"

lemma map_of_set_key: "map_of (set_key k v t) = (\<lambda>k'. if k' = k then map_option (\<lambda>_. v) (map_of t k) else map_of t k')"
  by (induction t) (auto simp: set_key_def fun_eq_iff)

lemma map_of_remove_key: "map_of (remove_key k t) = (map_of t)(k := None)"
  by (induction t) (auto simp: remove_key_def fun_eq_iff)

lemma map_of_merge_entries:
  assumes "distinct (map fst os)"
  shows "map_of (merge_entries t os) k =
     (case (map_of t k, map_of os k) of
        (Some b, Some v) \<Rightarrow> Some (deep_merge b v)
      | (None, Some v) \<Rightarrow> Some v
      | (b, None) \<Rightarrow> b)"
  using assms
proof (induction os arbitrary: t)
  case Nil
  show ?case by (simp split: option.split)
next
  case (Cons kv rest)
  obtain key v where kv: "kv = (key, v)" by (cases kv)
  have fresh: "map_of rest key = None" using Cons.prems kv by (auto simp: map_of_eq_None_iff)
  show ?case
    using Cons.IH [of "case map_of t key of Some b \<Rightarrow> set_key key (deep_merge b v) t | None \<Rightarrow> t @ [(key, v)]"]
      Cons.prems fresh
    by (auto simp: kv map_of_set_key map_add_def split: option.splits)
qed

text \<open>A configuration document: a root table whose sections are tables, no key twice.\<close>

definition wf_document :: "toml \<Rightarrow> bool" where
  "wf_document v \<longleftrightarrow>
     (case as_table v of
        None \<Rightarrow> False
      | Some root \<Rightarrow> distinct (map fst root)
          \<and> list_all (\<lambda>(_, s). case as_table s of None \<Rightarrow> False | Some t \<Rightarrow> distinct (map fst t)) root)"

definition strip_section :: "string \<Rightarrow> (string \<times> string) list \<Rightarrow> (string \<times> toml) list \<Rightarrow> (string \<times> toml) list" where
  "strip_section s gs t = foldl (\<lambda>t (s', f). if s' = s then remove_key f t else t) t gs"

lemma fst_set_key [simp]: "map fst (set_key k v t) = map fst t"
  by (induction t) (auto simp: set_key_def)

lemma fst_strip [simp]: "map fst (foldl strip_field root gs) = map fst root"
  by (induction gs arbitrary: root) (auto simp: strip_field_def split: option.splits prod.splits)

lemma map_of_strip_field:
  "map_of (strip_field root (s', f)) s =
     map_option (\<lambda>v. case as_table v of None \<Rightarrow> v | Some t \<Rightarrow> TomlTable (if s' = s then remove_key f t else t))
       (map_of root s)"
proof -
  show ?thesis
  proof (cases "s' = s")
    case True
    show ?thesis
    proof (cases "map_of root s")
      case (Some v)
      then show ?thesis using True by (cases v) (simp_all add: strip_field_def map_of_set_key)
    qed (simp add: strip_field_def True)
  next
    case False
    then have "map_of (strip_field root (s', f)) s = map_of root s"
      by (auto simp: strip_field_def map_of_set_key split: option.split)
    then show ?thesis
    proof (cases "map_of root s")
      case (Some v)
      with False \<open>map_of (strip_field root (s', f)) s = map_of root s\<close> show ?thesis
        by (cases v) simp_all
    qed simp
  qed
qed

lemma map_of_strip:
  "map_of (foldl strip_field root gs) s =
     map_option (\<lambda>v. case as_table v of None \<Rightarrow> v | Some t \<Rightarrow> TomlTable (strip_section s gs t)) (map_of root s)"
proof (induction gs arbitrary: root)
  case Nil
  show ?case
  proof (cases "map_of root s")
    case (Some v)
    then show ?thesis by (cases v) (simp_all add: strip_section_def)
  qed simp
next
  case (Cons sf gs)
  obtain s' f where sf: "sf = (s', f)" by (cases sf)
  show ?case
  proof (cases "map_of root s")
    case (Some v)
    then show ?thesis
      by (cases v) (simp_all add: Cons.IH sf map_of_strip_field strip_section_def)
  qed (simp add: Cons.IH sf map_of_strip_field)
qed

lemma map_of_strip_section:
  "map_of (strip_section s gs t) k = (if (s, k) \<in> set gs then None else map_of t k)"
  by (induction gs arbitrary: t) (auto simp: strip_section_def map_of_remove_key split: prod.splits)

lemma distinct_strip_section: "distinct (map fst t) \<Longrightarrow> distinct (map fst (strip_section s gs t))"
proof (induction gs arbitrary: t)
  case (Cons sf gs)
  have "distinct (map fst (remove_key f t))" for f
    using Cons.prems by (induction t) (auto simp: remove_key_def)
  then show ?case using Cons by (auto simp: strip_section_def split: prod.splits)
qed (simp add: strip_section_def)

text \<open>Merging a per-chain override keeps every global-only field as the base configuration
  has it, present or absent; every other field of the override is merged onto the field of the
  base (a scalar replaces it), and every field the override leaves out keeps its value.\<close>

theorem config_merge_fields:
  assumes "wf_document base" "wf_document ov"
  shows "toml_field (config_merge base ov) s f =
     (if (s, f) \<in> set GLOBAL_ONLY_FIELDS then toml_field base s f
      else case toml_field ov s f of
             None \<Rightarrow> toml_field base s f
           | Some v \<Rightarrow> (case toml_field base s f of None \<Rightarrow> Some v | Some b \<Rightarrow> Some (deep_merge b v)))"
proof -
  obtain br orr where t: "base = TomlTable br" "ov = TomlTable orr"
    using assms by (cases base; cases ov) (auto simp: wf_document_def)
  have root: "distinct (map fst orr)" using assms(2) by (simp add: t wf_document_def)
  have sec: "\<exists>t. v = TomlTable t \<and> distinct (map fst t)"
    if "map_of r s = Some v" "wf_document (TomlTable r)" for r v
    using that by (cases v) (force simp: wf_document_def list_all_iff dest!: map_of_SomeD)+
  define st where "st = foldl strip_field orr GLOBAL_ONLY_FIELDS"
  have m: "toml_get (config_merge base ov) s =
     (case (map_of br s, map_of st s) of
        (Some b, Some v) \<Rightarrow> Some (deep_merge b v) | (None, Some v) \<Rightarrow> Some v | (b, None) \<Rightarrow> b)"
    using map_of_merge_entries [of st br s] root
    by (simp add: t st_def config_merge_def strip_global_fields_def toml_get_def)
  have g: "toml_get base s = map_of br s" "toml_get ov s = map_of orr s"
    "\<And>x k. toml_get (TomlTable x) k = map_of x k"
    by (simp_all add: t toml_get_def)
  show ?thesis
  proof (cases "map_of orr s")
    case None
    then show ?thesis
      by (simp add: toml_field_def m g st_def map_of_strip split: option.splits)
  next
    case (Some v)
    then obtain ot where ot: "v = TomlTable ot" "distinct (map fst ot)"
      using sec assms(2) t by blast
    let ?o = "strip_section s GLOBAL_ONLY_FIELDS ot"
    have st: "map_of st s = Some (TomlTable ?o)" using Some ot by (simp add: st_def map_of_strip)
    show ?thesis
    proof (cases "map_of br s")
      case None
      then show ?thesis
        using Some ot st by (simp add: toml_field_def m g map_of_strip_section split: option.splits)
    next
      case (Some b)
      then obtain bt where "b = TomlTable bt" using sec assms(1) t by blast
      then show ?thesis
        using Some \<open>map_of orr s = Some v\<close> ot st
          map_of_merge_entries [OF distinct_strip_section [OF ot(2)], of bt s GLOBAL_ONLY_FIELDS f]
        by (simp add: toml_field_def m g map_of_strip_section split: option.splits)
    qed
  qed
qed

definition sample_document :: "(string \<times> string) list \<Rightarrow> toml" where
  "sample_document kvs = TomlTable [(''market'', TomlTable (map (\<lambda>(k, v). (k, TomlScalar v)) kvs))]"

theorem config_merge_fields_witness:
  "toml_field (config_merge (sample_document [(''peak_prove_khz'', ''100''), (''min_deadline'', ''150'')])
                 (sample_document [(''peak_prove_khz'', ''900''), (''min_deadline'', ''60'')]))
     ''market'' ''peak_prove_khz'' = Some (TomlScalar ''100'')"
  by (subst config_merge_fields)
     (simp_all add: sample_document_def wf_document_def GLOBAL_ONLY_FIELDS_def toml_field_def toml_get_def)

section \<open>Price overrides and defaults\<close>

text \<open>The most specific price override wins: requestor and proof type, then proof type, then
  requestor.\<close>

lemma overrides_resolve_order:
  "overrides_resolve p r s = Some a \<longleftrightarrow>
     by_requestor_proof_type p (r, s) = Some a
     \<or> by_requestor_proof_type p (r, s) = None \<and> by_proof_type p s = Some a
     \<or> by_requestor_proof_type p (r, s) = None \<and> by_proof_type p s = None \<and> by_requestor p r = Some a"
  by (auto simp: overrides_resolve_def or_else_def split: option.splits)

text \<open>The default deadline buffer is 165 seconds and the default minimum deadline 195 seconds.\<close>

lemma default_deadlines:
  "default_block_deadline_buffer_secs = 165 \<and> default_min_deadline = 195"
  by (simp add: default_min_deadline_def default_block_deadline_buffer_secs_def default_txn_timeout_def
        default_max_submission_attempts_def ESTIMATED_GROTH16_TIME_def)

text \<open>The amounts in the default configuration parse: building it does not panic.\<close>

lemma market_config_default_Some:
  assumes "u256_text pr rd"
  shows "\<exists>c. market_config_default rd = Some c \<and> cfg_min_mcycle_price c = \<lparr>amount_value = 20, amount_asset = USD\<rparr>
     \<and> cfg_max_collateral c = \<lparr>amount_value = 10000000, amount_asset = USD\<rparr>"
proof -
  have rd: "is_dec s \<Longrightarrow> dec_val s < 2 ^ 256 \<Longrightarrow> rd s = Some (word_of_nat (dec_val s))" for s
    using assms by (auto simp: u256_text_def)
  have rep: "replicate 6 c = [c, c, c, c, c, c]" "replicate 1 c = [c]" for c :: char
    by (simp_all add: numeral_eq_Suc)
  show ?thesis
    by (simp add: market_config_default_def amount_parse_def trim_def split_whitespace_def
          is_whitespace_def asset_from_str_def to_uppercase_def parse_decimal_to_u256_def split_once_def
          pad_right_def rep rd is_dec_def dec_val_def)
qed

end
