(* ===== verification/OrderTypes.thy ===== *)
theory OrderTypes
  imports MarketTypes
begin

text \<open>
  Orders: the in-memory \<open>OrderRequest\<close> of \<open>prover_utils/mod.rs\<close>, the evaluation request and its
  result of \<open>prover_utils/request_evaluator.rs\<close>, and the persistent \<open>Order\<close> of the broker's
  \<open>order_types.rs\<close>. The cached identifier and the monotonic creation instant of an order are
  left out; the identifier is computed where it is used. The record \<open>id_lib\<close> holds the library
  functions an identifier is built from: the EIP-712 hash and the texts of a number and of a
  hash.
\<close>

section \<open>Order requests\<close>

datatype FulfillmentType = LockAndFulfill | FulfillAfterLockExpire | FulfillWithoutLocking

record OrderRequest =
  request :: ProofRequest
  client_sig :: bytes
  fulfillment_type :: FulfillmentType
  boundless_market_address :: address
  chain_id :: u64
  image_id :: "string option"
  input_id :: "string option"
  total_cycles :: "u64 option"
  journal_bytes :: "nat option"
  target_timestamp :: "u64 option"
  expire_timestamp :: "u64 option"
  gas_estimate :: "u64 option"
  additional_proof_cycles :: "u64 option"
  expected_reward_eth :: "u256 option"
  received_at_timestamp :: u64
  priced_at_timestamp :: "u64 option"

definition order_request_new ::
    "u64 \<Rightarrow> ProofRequest \<Rightarrow> bytes \<Rightarrow> FulfillmentType \<Rightarrow> address \<Rightarrow> u64 \<Rightarrow> OrderRequest" where
  "order_request_new now req sig ft market chain =
     \<lparr>request = req, client_sig = sig, fulfillment_type = ft, boundless_market_address = market,
      chain_id = chain, image_id = None, input_id = None, total_cycles = None,
      journal_bytes = None, target_timestamp = None, expire_timestamp = None,
      gas_estimate = None, additional_proof_cycles = None, expected_reward_eth = None,
      received_at_timestamp = now, priced_at_timestamp = None\<rparr>"

record id_lib =
  lib_eip712_hash :: "ProofRequest \<Rightarrow> EIP712DomainSaltless \<Rightarrow> u256"
  lib_hex :: "u256 \<Rightarrow> string"
  lib_hash_text :: "u256 \<Rightarrow> string"

fun fulfillment_type_debug :: "FulfillmentType \<Rightarrow> string" where
  "fulfillment_type_debug LockAndFulfill = ''LockAndFulfill''"
| "fulfillment_type_debug FulfillAfterLockExpire = ''FulfillAfterLockExpire''"
| "fulfillment_type_debug FulfillWithoutLocking = ''FulfillWithoutLocking''"

definition request_digest :: "id_lib \<Rightarrow> OrderRequest \<Rightarrow> string" where
  "request_digest lib ord =
     lib_hash_text lib
       (signing_hash (lib_eip712_hash lib) (request ord) (boundless_market_address ord) (chain_id ord))"

definition order_id :: "id_lib \<Rightarrow> OrderRequest \<Rightarrow> string" where
  "order_id lib ord =
     ''0x'' @ lib_hex lib (request_id (request ord)) @ ''-'' @ request_digest lib ord @ ''-''
       @ fulfillment_type_debug (fulfillment_type ord)"

definition order_expiry :: "OrderRequest \<Rightarrow> u64" where
  "order_expiry ord =
     (case fulfillment_type ord of
        LockAndFulfill \<Rightarrow> lock_expires_at (request ord)
      | FulfillAfterLockExpire \<Rightarrow> expires_at (request ord)
      | FulfillWithoutLocking \<Rightarrow> expires_at (request ord))"

section \<open>Evaluation requests\<close>

record EvaluationMetrics =
  native_units :: u64
  normalized_units :: u64

datatype RequestEvaluation =
    EvalSuccess string EvaluationMetrics string string bytes
    \<comment> \<open>evaluation id, metrics, program id, input id, public output\<close>
  | EvalLimitExceeded u64
  | EvalGuestFailed

record EvaluationRequest =
  ev_request_id :: string
  program_url :: string
  ev_selector :: selector
  ev_predicate :: RequestPredicate
  ev_input_type :: RequestInputType
  ev_input_data :: bytes
  ev_client_address :: address

definition evaluation_request_from_order :: "id_lib \<Rightarrow> OrderRequest \<Rightarrow> EvaluationRequest" where
  "evaluation_request_from_order lib ord =
     \<lparr>ev_request_id = order_id lib ord, program_url = imageUrl (request ord),
      ev_selector = req_selector (requirements (request ord)),
      ev_predicate = predicate (requirements (request ord)),
      ev_input_type = inputType (request_input (request ord)),
      ev_input_data = inputData (request_input (request ord)),
      ev_client_address = client_address (request ord)\<rparr>"

text \<open>Well-formed UTF-8, the check of \<open>std::str::from_utf8\<close>.\<close>

definition utf8_cont :: "u8 \<Rightarrow> bool" where
  "utf8_cont b \<longleftrightarrow> 0x80 \<le> b \<and> b \<le> 0xBF"

fun utf8_valid :: "bytes \<Rightarrow> bool" where
  "utf8_valid [] = True"
| "utf8_valid (a # bs) =
     (if a < 0x80 then utf8_valid bs
      else if 0xC2 \<le> a \<and> a \<le> 0xDF then
        (case bs of b # cs \<Rightarrow> utf8_cont b \<and> utf8_valid cs | [] \<Rightarrow> False)
      else if 0xE0 \<le> a \<and> a \<le> 0xEF then
        (case bs of b # c # cs \<Rightarrow>
             utf8_cont b \<and> (a = 0xE0 \<longrightarrow> 0xA0 \<le> b) \<and> (a = 0xED \<longrightarrow> b \<le> 0x9F) \<and> utf8_cont c \<and> utf8_valid cs
         | _ \<Rightarrow> False)
      else if 0xF0 \<le> a \<and> a \<le> 0xF4 then
        (case bs of b # c # d # cs \<Rightarrow>
             utf8_cont b \<and> (a = 0xF0 \<longrightarrow> 0x90 \<le> b) \<and> (a = 0xF4 \<longrightarrow> b \<le> 0x8F) \<and> utf8_cont c
               \<and> utf8_cont d \<and> utf8_valid cs
         | _ \<Rightarrow> False)
      else False)"

datatype InputCacheKey = UrlKey bytes | HashKey digest

record PreflightCacheKey =
  key_program_id :: string
  key_selector :: selector
  key_predicate_data :: bytes
  key_input :: InputCacheKey
  key_max_cycles :: u64

datatype OrderPricingError =
    FetchInputErr | FetchImageErr | InvalidRequest RequestError | RpcErr | UnexpectedErr
  | PricingPanic \<comment> \<open>not an error of the code: a panic\<close>

definition cache_key ::
    "(bytes \<Rightarrow> digest) \<Rightarrow> EvaluationRequest \<Rightarrow> string \<Rightarrow> u64 \<Rightarrow> OrderPricingError + PreflightCacheKey" where
  "cache_key sha256 req program_id max_cycles =
     (let predicate_data = predicateData (ev_predicate req);
          input = (case ev_input_type req of
             Url \<Rightarrow> if utf8_valid (ev_input_data req) then Inr (UrlKey (ev_input_data req))
                    else Inl FetchInputErr
           | Inline \<Rightarrow> Inr (HashKey (sha256 (ev_input_data req)))
           | RequestInputTypeInvalid \<Rightarrow> Inl UnexpectedErr)
      in res_bind input (\<lambda>i.
           Inr \<lparr>key_program_id = program_id, key_selector = ev_selector req,
                key_predicate_data = predicate_data, key_input = i, key_max_cycles = max_cycles\<rparr>))"

section \<open>Persistent orders\<close>

datatype OrderStatus = PendingProving | Proving | ReadyForBatch | Batching | ReadyForSubmission
  | PendingSubmission | Done | Failed | Skipped

datatype OrderStateChange =
    Locked u256 address u64
  | Fulfilled u256 u64

fun state_change_chain_id :: "OrderStateChange \<Rightarrow> u64" where
  "state_change_chain_id (Locked _ _ chain) = chain"
| "state_change_chain_id (Fulfilled _ chain) = chain"

record Order =
  db_market_address :: address
  db_chain_id :: u64
  db_fulfillment_type :: FulfillmentType
  db_request :: ProofRequest
  db_status :: OrderStatus
  db_updated_at :: u64
  db_total_cycles :: "u64 option"
  db_journal_bytes :: "nat option"
  db_target_timestamp :: "u64 option"
  db_proving_started_at :: "u64 option"
  db_image_id :: "string option"
  db_input_id :: "string option"
  db_backend_state :: "bytes option"
  db_backend_id :: "string option"
  db_expire_timestamp :: "u64 option"
  db_client_sig :: bytes
  db_lock_price :: "u256 option"
  db_error_msg :: "string option"

definition format_order_id :: "id_lib \<Rightarrow> u256 \<Rightarrow> u256 \<Rightarrow> FulfillmentType \<Rightarrow> string" where
  "format_order_id lib rid hash ft =
     ''0x'' @ lib_hex lib rid @ ''-'' @ lib_hash_text lib hash @ ''-'' @ fulfillment_type_debug ft"

definition db_order_id :: "id_lib \<Rightarrow> Order \<Rightarrow> string" where
  "db_order_id lib ord =
     format_order_id lib (request_id (db_request ord))
       (signing_hash (lib_eip712_hash lib) (db_request ord) (db_market_address ord) (db_chain_id ord))
       (db_fulfillment_type ord)"

definition order_from_request :: "u64 \<Rightarrow> OrderRequest \<Rightarrow> OrderStatus \<Rightarrow> Order" where
  "order_from_request now ord status =
     \<lparr>db_market_address = boundless_market_address ord, db_chain_id = chain_id ord,
      db_fulfillment_type = fulfillment_type ord, db_request = request ord, db_status = status,
      db_updated_at = now, db_total_cycles = total_cycles ord, db_journal_bytes = journal_bytes ord,
      db_target_timestamp = target_timestamp ord, db_proving_started_at = None,
      db_image_id = image_id ord, db_input_id = input_id ord, db_backend_state = None,
      db_backend_id = None, db_expire_timestamp = expire_timestamp ord,
      db_client_sig = client_sig ord, db_lock_price = None, db_error_msg = None\<rparr>"

definition proving_order_from_request :: "u64 \<Rightarrow> u64 \<Rightarrow> OrderRequest \<Rightarrow> u256 \<Rightarrow> Order" where
  "proving_order_from_request now now' ord lock_price =
     (order_from_request now ord PendingProving)
        \<lparr>db_lock_price := Some lock_price, db_proving_started_at := Some now'\<rparr>"

section \<open>Identifiers\<close>

definition id_text_ok :: "id_lib \<Rightarrow> bool" where
  "id_text_ok lib \<longleftrightarrow>
     inj (lib_hex lib) \<and> inj (lib_hash_text lib)
     \<and> (\<forall>v. CHR ''-'' \<notin> set (lib_hex lib v) \<and> CHR ''-'' \<notin> set (lib_hash_text lib v))"

lemma append_sep_eq:
  assumes "c \<notin> set xs" "c \<notin> set ys"
  shows "xs @ [c] @ r = ys @ [c] @ s \<longleftrightarrow> xs = ys \<and> r = s"
proof
  assume eq: "xs @ [c] @ r = ys @ [c] @ s"
  have "takeWhile (\<lambda>x. x \<noteq> c) (xs @ [c] @ r) = xs" "takeWhile (\<lambda>x. x \<noteq> c) (ys @ [c] @ s) = ys"
    using assms by (auto simp: takeWhile_append)
  with eq show "xs = ys \<and> r = s" by simp
qed simp

lemma format_order_id_eq:
  assumes "id_text_ok lib"
  shows "format_order_id lib r h t = format_order_id lib r' h' t' \<longleftrightarrow> r = r' \<and> h = h' \<and> t = t'"
proof -
  have "fulfillment_type_debug t = fulfillment_type_debug t' \<longleftrightarrow> t = t'"
    by (cases t; cases t') auto
  then show ?thesis
    using assms append_sep_eq [of "CHR ''-''"]
    by (auto simp: format_order_id_def id_text_ok_def dest: injD)
qed

text \<open>The identifier of an order survives the conversion to the persistent order, and two
  orders share an identifier only if they agree on the request id, on the signing hash and on
  the fulfillment type. The texts of numbers and hashes are assumed injective and free of the
  separator.\<close>

theorem order_id_identifies:
  assumes "id_text_ok lib"
  shows "db_order_id lib (order_from_request now a status) = order_id lib a
       \<and> (order_id lib a = order_id lib b \<longleftrightarrow>
            request_id (request a) = request_id (request b)
            \<and> signing_hash (lib_eip712_hash lib) (request a) (boundless_market_address a) (chain_id a)
              = signing_hash (lib_eip712_hash lib) (request b) (boundless_market_address b) (chain_id b)
            \<and> fulfillment_type a = fulfillment_type b)"
proof -
  have "order_id lib x = format_order_id lib (request_id (request x))
     (signing_hash (lib_eip712_hash lib) (request x) (boundless_market_address x) (chain_id x))
     (fulfillment_type x)" for x
    by (simp add: order_id_def format_order_id_def request_digest_def)
  then show ?thesis
    using format_order_id_eq [OF assms] by (simp add: db_order_id_def order_from_request_def)
qed

definition unary_text :: "u256 \<Rightarrow> string" where
  "unary_text v = replicate (unat v) CHR ''1''"

definition sample_order :: "FulfillmentType \<Rightarrow> OrderRequest" where
  "sample_order ft = order_request_new 1000
     \<lparr>request_id = request_id_u256 7 1,
      requirements = requirements_new (request_predicate_from (PrefixMatch (replicate 32 1) [])),
      imageUrl = ''https://example.com/image'', request_input = input_inline [],
      offer = \<lparr>minPrice = 10, maxPrice = 110, rampUpStart = 1000, rampUpPeriod = 100,
               lockTimeout = 200, timeout = 300, lockCollateral = 7\<rparr>\<rparr> [] ft 9 1"

theorem order_id_identifies_witness:
  defines "lib \<equiv> \<lparr>lib_eip712_hash = \<lambda>r d. request_id r, lib_hex = unary_text, lib_hash_text = unary_text\<rparr>"
  shows "order_id lib (sample_order LockAndFulfill) \<noteq> order_id lib (sample_order FulfillAfterLockExpire)"
proof -
  have "id_text_ok lib"
    by (auto simp: id_text_ok_def lib_def unary_text_def inj_def word_unat_eq_iff)
  from order_id_identifies [OF this, of 0 "sample_order LockAndFulfill" Done "sample_order FulfillAfterLockExpire"]
  show ?thesis by (simp add: sample_order_def order_request_new_def)
qed

section \<open>Cache keys\<close>

text \<open>Evaluations under different cycle limits never share a cache entry.\<close>

lemma cache_key_limit:
  assumes "cache_key sha256 req p limit = Inr k" "cache_key sha256 req' p' limit' = Inr k"
  shows "p = p' \<and> limit = limit' \<and> ev_selector req = ev_selector req'"
  using assms by (auto simp: cache_key_def Let_def res_simps)

end
