(* ===== verification/OrderPricing.thy ===== *)
theory OrderPricing
  imports Pricing Selector PriceOracle MarketConfig OrderTypes
begin

text \<open>
  The pricing of an order: \<open>price_order\<close> and \<open>calculate_exec_limits\<close> of the trait
  \<open>OrderPricingContext\<close> in \<open>prover_utils/mod.rs\<close>, with the free functions beside them. The
  trait's required methods are the fields of the record \<open>OrderPricingContext\<close>; the three reads
  of the clock are separate fields, since time passes between them. Reads of the configuration
  and of the price oracle within one pricing are taken to give the same answer.

  \<open>price_order\<close> takes the order by mutable reference, so its model returns the order as the code
  leaves it together with the result. It is split at the comments of the source:
  \<open>price_checks\<close>, \<open>price_gas\<close>, \<open>price_preflight\<close>, \<open>price_validate\<close>, and \<open>price_collateral\<close> or
  \<open>price_lock\<close>. A stage returns \<open>Inl\<close> the result to return early with, or \<open>Inr\<close> what the next
  stage needs. The human-readable reasons of a skip are left out; computations made only for
  them are kept where they can panic. A panic is the error \<open>PricingPanic\<close>.
\<close>

section \<open>Outcomes\<close>

definition ONE_MILLION :: u256 where "ONE_MILLION = 1000000"

definition SKIP_EXPIRED :: string where "SKIP_EXPIRED = ''[S-001]''"
definition SKIP_DEADLINE_TOO_SHORT :: string where "SKIP_DEADLINE_TOO_SHORT = ''[S-002]''"
definition SKIP_EXPIRY_TOO_LONG :: string where "SKIP_EXPIRY_TOO_LONG = ''[S-003]''"
definition SKIP_UNSUPPORTED_SELECTOR :: string where "SKIP_UNSUPPORTED_SELECTOR = ''[S-004]''"
definition SKIP_COLLATERAL_TOO_HIGH :: string where "SKIP_COLLATERAL_TOO_HIGH = ''[S-005]''"
definition SKIP_CYCLE_LIMIT_FROM_REWARD :: string where "SKIP_CYCLE_LIMIT_FROM_REWARD = ''[S-006]''"
definition SKIP_PREFLIGHT_LIMIT_EXCEEDED :: string where "SKIP_PREFLIGHT_LIMIT_EXCEEDED = ''[S-007]''"
definition SKIP_CYCLES_ABOVE_LIMIT :: string where "SKIP_CYCLES_ABOVE_LIMIT = ''[S-008]''"
definition SKIP_CYCLES_BELOW_MIN :: string where "SKIP_CYCLES_BELOW_MIN = ''[S-009]''"
definition SKIP_JOURNAL_TOO_LARGE :: string where "SKIP_JOURNAL_TOO_LARGE = ''[S-010]''"
definition SKIP_BLAKE3_JOURNAL_SIZE :: string where "SKIP_BLAKE3_JOURNAL_SIZE = ''[S-011]''"
definition SKIP_GAS_EXCEEDS_MAX_PRICE :: string where "SKIP_GAS_EXCEEDS_MAX_PRICE = ''[S-012]''"
definition SKIP_PREDICATE_CHECK_FAILED :: string where "SKIP_PREDICATE_CHECK_FAILED = ''[S-013]''"
definition SKIP_COLLATERAL_REWARD_TOO_LOW :: string where "SKIP_COLLATERAL_REWARD_TOO_LOW = ''[S-014]''"
definition SKIP_PRICE_TOO_LOW :: string where "SKIP_PRICE_TOO_LOW = ''[S-015]''"
definition SKIP_PREFLIGHT_GUEST_FAILED :: string where "SKIP_PREFLIGHT_GUEST_FAILED = ''[S-016]''"

definition apply_secondary_fulfillment_discount :: "u256 \<Rightarrow> u32 \<Rightarrow> u256" where
  "apply_secondary_fulfillment_discount reward probability_percent =
     saturating_mul reward (ucast probability_percent) div 100"

datatype ProveLimitReason =
    EthPricing u256 u256 u256        \<comment> \<open>max price, gas cost, Mcycle price in ETH\<close>
  | CollateralPricing u256 u256      \<comment> \<open>collateral reward, Mcycle price in collateral\<close>
  | ConfigCap u64
  | DeadlineCap u64 u64              \<comment> \<open>seconds remaining, peak kHz\<close>

record LockOutcome =
  lo_total_cycles :: u64
  lo_target_timestamp_secs :: u64
  lo_expiry_secs :: u64
  lo_target_mcycle_price :: u256
  lo_max_mcycle_price :: u256
  lo_config_min_mcycle_price :: u256
  lo_current_mcycle_price :: u256
  lo_journal_len :: nat

record AfterExpiryOutcome =
  ae_total_cycles :: u64
  ae_lock_expire_timestamp_secs :: u64
  ae_expiry_secs :: u64
  ae_mcycle_price :: u256
  ae_config_min_mcycle_price :: u256
  ae_journal_len :: nat

datatype OrderPricingOutcome =
    Lock LockOutcome
  | ProveAfterLockExpire AfterExpiryOutcome
  | Skip string

section \<open>The pricing context\<close>

record OrderPricingContext =
  cx_market_config :: "OrderPricingError + MarketConfig"
  cx_supported_selectors :: SupportedSelectors
  cx_collateral_token_decimals :: u8
  cx_denied_requestor_addresses :: "OrderPricingError + address list option"
  cx_check_requestor_allowed ::
    "OrderRequest \<Rightarrow> address list option \<Rightarrow> OrderPricingError + OrderPricingOutcome option"
  cx_check_request_available :: "OrderRequest \<Rightarrow> OrderPricingError + OrderPricingOutcome option"
  cx_estimate_gas_to_fulfill :: "ProofRequest \<Rightarrow> OrderPricingError + u64"
  cx_additional_proof_cycles :: "ProofRequest \<Rightarrow> OrderPricingError + u64"
  cx_is_priority_requestor :: "address \<Rightarrow> bool"
  cx_check_available_balances ::
    "OrderRequest \<Rightarrow> u256 \<Rightarrow> bool \<Rightarrow> u256 \<Rightarrow> OrderPricingError + OrderPricingOutcome option"
  cx_current_gas_price :: "OrderPricingError + u128"
  cx_estimate_erc1271_gas :: "OrderRequest \<Rightarrow> u64"
  cx_convert_to_eth :: "Amount \<Rightarrow> OrderPricingError + Amount"
  cx_convert_to_zkc :: "Amount \<Rightarrow> OrderPricingError + Amount"
  cx_evaluate_request :: "EvaluationRequest \<Rightarrow> u64 \<Rightarrow> OrderPricingError + RequestEvaluation"
  cx_now_price :: u64    \<comment> \<open>clock at the start of \<open>price_order\<close>\<close>
  cx_now_limits :: u64   \<comment> \<open>clock in \<open>calculate_exec_limits\<close>\<close>
  cx_now_lock :: u64     \<comment> \<open>clock at the current price\<close>
  cx_id_lib :: id_lib
  cx_digest_from_hex :: "string \<Rightarrow> digest option"
  cx_claim_ok :: "digest \<Rightarrow> bytes \<Rightarrow> digest"
  cx_claim_pruned :: "digest \<Rightarrow> digest \<Rightarrow> digest"

definition callback_gas :: "ProofRequest \<Rightarrow> OrderPricingError + u64" where
  "callback_gas req =
     ok_or UnexpectedErr
       (narrow (case callback_as_option (callback (requirements req)) of
                  Some cb \<Rightarrow> gasLimit cb | None \<Rightarrow> 0))"

definition estimate_fulfill_gas_default ::
    "MarketConfig \<Rightarrow> SupportedSelectors \<Rightarrow> ProofRequest \<Rightarrow> OrderPricingError + u64" where
  "estimate_fulfill_gas_default config supported req =
     (let sel = req_selector (requirements req) in
      if \<not> is_supported supported sel then Inl UnexpectedErr
      else res_bind
        (ok_or UnexpectedErr
           (narrow (case callback_as_option (callback (requirements req)) of
                      Some cb \<Rightarrow> gasLimit cb | None \<Rightarrow> 0)))
        (\<lambda>cb. let estimate = cfg_fulfill_gas_estimate config + cb in
           res_bind (ok_or UnexpectedErr (proof_type supported sel)) (\<lambda>ty.
             Inr (estimate + (case ty of
                ProofAny \<Rightarrow> 0 | ProofInclusion \<Rightarrow> 0
              | ProofGroth16 \<Rightarrow> cfg_groth16_verify_gas_estimate config
              | ProofBlake3Groth16 \<Rightarrow> cfg_groth16_verify_gas_estimate config)))))"

text \<open>The default methods of the trait.\<close>

definition default_estimate_gas_to_fulfill ::
    "OrderPricingError + MarketConfig \<Rightarrow> SupportedSelectors \<Rightarrow> ProofRequest \<Rightarrow> OrderPricingError + u64" where
  "default_estimate_gas_to_fulfill market_config supported req =
     res_bind market_config (\<lambda>config. estimate_fulfill_gas_default config supported req)"

definition default_cx_additional_proof_cycles ::
    "OrderPricingError + MarketConfig \<Rightarrow> ProofRequest \<Rightarrow> OrderPricingError + u64" where
  "default_cx_additional_proof_cycles market_config req =
     res_bind market_config (\<lambda>config. Inr (cfg_additional_proof_cycles config))"

definition ERC1271_MAX_GAS_FOR_CHECK :: u64 where "ERC1271_MAX_GAS_FOR_CHECK = 100000"

definition default_estimate_erc1271_gas :: "OrderRequest \<Rightarrow> u64" where
  "default_estimate_erc1271_gas ord =
     (if is_smart_contract_signed (request ord) then ERC1271_MAX_GAS_FOR_CHECK else 0)"

text \<open>\<open>estimate_erc1271_gas\<close>: \<open>code\<close> is the code deployed at the client's address, empty also when
  the call fails, \<open>estimate\<close> the answer of \<open>eth_estimateGas\<close>; the cache is a map per wallet.\<close>

definition estimate_erc1271_gas ::
    "(address \<Rightarrow> bytes) \<Rightarrow> (OrderRequest \<Rightarrow> u64 option) \<Rightarrow> (address \<rightharpoonup> u64) \<Rightarrow> OrderRequest
      \<Rightarrow> u64 \<times> (address \<rightharpoonup> u64)" where
  "estimate_erc1271_gas code estimate cache ord =
     (if \<not> is_smart_contract_signed (request ord) then (0, cache)
      else let client_addr = client_address (request ord) in
        case cache client_addr of
          Some gas \<Rightarrow> (gas, cache)
        | None \<Rightarrow>
            (let gas = (if code client_addr = [] then ERC1271_MAX_GAS_FOR_CHECK
                        else case estimate ord of
                               Some g \<Rightarrow> g | None \<Rightarrow> ERC1271_MAX_GAS_FOR_CHECK)
             in (gas, cache(client_addr \<mapsto> gas))))"

definition calculate_max_cycles_for_time :: "u64 \<Rightarrow> u64 \<Rightarrow> u64" where
  "calculate_max_cycles_for_time peak_prove_khz time_remaining_secs =
     saturating_mul peak_prove_khz time_remaining_secs * 1000"

section \<open>Execution limits\<close>

text \<open>The limit the collateral reward pays for.\<close>

definition collateral_based_limit :: "MarketConfig \<Rightarrow> OrderRequest \<Rightarrow> u256 \<Rightarrow> OrderPricingError + u64" where
  "collateral_based_limit config ord min_price_collateral =
     (if min_price_collateral = 0 then Inr (- 1)
      else res_bind (ok_or PricingPanic (collateral_reward_if_locked_and_not_fulfilled (offer (request ord))))
        (\<lambda>raw_price.
          let price = (if fulfillment_type ord = FulfillAfterLockExpire
                       then apply_secondary_fulfillment_discount raw_price
                              (cfg_expected_probability_win_secondary_fulfillment config)
                       else raw_price)
          in Inr (narrow_sat (div_ceil (saturating_mul price ONE_MILLION) min_price_collateral))))"

text \<open>The limit the price in ETH pays for.\<close>

definition eth_based_limit :: "OrderRequest \<Rightarrow> u256 \<Rightarrow> u256 \<Rightarrow> u64" where
  "eth_based_limit ord order_gas_cost min_mcycle_price =
     (if min_mcycle_price = 0 then - 1
      else narrow_sat
        (saturating_mul (saturating_sub (maxPrice (offer (request ord))) order_gas_cost) ONE_MILLION
           div min_mcycle_price))"

type_synonym limits = "u64 \<times> u64 \<times> ProveLimitReason"

definition cap_by_config :: "MarketConfig \<Rightarrow> bool \<Rightarrow> limits \<Rightarrow> limits" where
  "cap_by_config config skip_mcycle_limit l =
     (case l of (preflight_limit, prove_limit, reason) \<Rightarrow>
        if skip_mcycle_limit then l
        else let config_cycle_limit = saturating_mul (cfg_max_mcycle_limit config) 1000000 in
          if prove_limit > config_cycle_limit then
            (config_cycle_limit, config_cycle_limit, ConfigCap (cfg_max_mcycle_limit config))
          else if preflight_limit > config_cycle_limit then (config_cycle_limit, prove_limit, reason)
          else l)"

definition cap_by_deadline :: "OrderRequest \<Rightarrow> u64 \<Rightarrow> u64 \<Rightarrow> limits \<Rightarrow> limits" where
  "cap_by_deadline ord now peak_prove_khz l =
     (case l of (preflight_limit, prove_limit, reason) \<Rightarrow>
        let prove_window = saturating_sub (order_expiry ord) now;
            prove_deadline_limit = calculate_max_cycles_for_time peak_prove_khz prove_window;
            (prove_limit', reason') =
              (if prove_limit > prove_deadline_limit
               then (prove_deadline_limit, DeadlineCap prove_window peak_prove_khz)
               else (prove_limit, reason));
            new_preflight_limit =
              (if fulfillment_type ord \<noteq> FulfillAfterLockExpire then
                 max prove_deadline_limit
                   (calculate_max_cycles_for_time peak_prove_khz
                      (saturating_sub (expires_at (request ord)) (lock_expires_at (request ord))))
               else prove_deadline_limit)
        in ((if preflight_limit > new_preflight_limit then new_preflight_limit else preflight_limit),
            prove_limit', reason'))"

definition calculate_exec_limits ::
    "OrderPricingContext \<Rightarrow> OrderRequest \<Rightarrow> u256 \<Rightarrow> OrderPricingError + limits" where
  "calculate_exec_limits cx ord order_gas_cost =
     res_bind (cx_market_config cx) (\<lambda>config.
     let is_fulfill_after_lock_expire = (fulfillment_type ord = FulfillAfterLockExpire);
         client_addr = client_address (request ord);
         min_mcycle_price_amount =
           (case overrides_resolve (cfg_pricing_overrides config) client_addr
                   (req_selector (requirements (request ord))) of
              Some a \<Rightarrow> a | None \<Rightarrow> cfg_min_mcycle_price config)
     in res_bind (cx_convert_to_eth cx min_mcycle_price_amount) (\<lambda>min_mcycle_price_eth.
     res_bind (cx_convert_to_zkc cx (cfg_min_mcycle_price config)) (\<lambda>config_min_mcycle_price_zkc.
     let min_mcycle_price = amount_value min_mcycle_price_eth;
         min_price_collateral =
           scale_decimals (amount_value config_min_mcycle_price_zkc)
             (asset_decimals (amount_asset config_min_mcycle_price_zkc)) (cx_collateral_token_decimals cx)
     in res_bind (collateral_based_limit config ord min_price_collateral) (\<lambda>coll_limit.
     res_bind (ok_or PricingPanic (collateral_reward_if_locked_and_not_fulfilled (offer (request ord))))
       (\<lambda>reward.
     let eth_limit = eth_based_limit ord order_gas_cost min_mcycle_price;
         initial =
           (if is_fulfill_after_lock_expire
            then (coll_limit, coll_limit, CollateralPricing reward min_price_collateral)
            else ((if eth_limit > coll_limit then eth_limit else coll_limit), eth_limit,
                  EthPricing (maxPrice (offer (request ord))) order_gas_cost min_mcycle_price));
         capped = cap_by_config config (cx_is_priority_requestor cx client_addr) initial
     in Inr (case cfg_peak_prove_khz config of
               None \<Rightarrow> capped
             | Some khz \<Rightarrow> cap_by_deadline ord (cx_now_limits cx) khz capped))))))"

section \<open>The stages of \<open>price_order\<close>\<close>

type_synonym pricing_result = "OrderPricingError + OrderPricingOutcome"

text \<open>\<open>tryp r\<close> is \<open>r?\<close> in a stage; \<open>skip c\<close> returns early with a skip; \<open>check_outcome r\<close> is
  \<open>if let Some(outcome) = r? { return Ok(outcome) }\<close>.\<close>

fun tryp :: "OrderPricingError + 'a \<Rightarrow> pricing_result + 'a" where
  "tryp (Inl e) = Inl (Inl e)"
| "tryp (Inr x) = Inr x"

definition skip :: "string \<Rightarrow> pricing_result + 'a" where
  "skip code = Inl (Inr (Skip code))"

fun check_outcome :: "OrderPricingError + OrderPricingOutcome option \<Rightarrow> pricing_result + unit" where
  "check_outcome (Inl e) = Inl (Inl e)"
| "check_outcome (Inr None) = Inr ()"
| "check_outcome (Inr (Some outcome)) = Inl (Inr outcome)"

definition guard :: "bool \<Rightarrow> string \<Rightarrow> pricing_result + unit" where
  "guard bad code = (if bad then skip code else Inr ())"

definition lock_expired :: "OrderRequest \<Rightarrow> bool" where
  "lock_expired ord \<longleftrightarrow> fulfillment_type ord = FulfillAfterLockExpire"

definition lockin_collateral :: "OrderRequest \<Rightarrow> u256" where
  "lockin_collateral ord = (if lock_expired ord then 0 else lockCollateral (offer (request ord)))"

definition price_checks :: "OrderPricingContext \<Rightarrow> OrderRequest \<Rightarrow> pricing_result + MarketConfig" where
  "price_checks cx ord =
     (let now = cx_now_price cx;
          expiration = order_expiry ord
      in res_bind (guard (expiration \<le> now) SKIP_EXPIRED) (\<lambda>_.
      res_bind (tryp (cx_market_config cx)) (\<lambda>config.
      res_bind (tryp (cx_denied_requestor_addresses cx)) (\<lambda>denied_addresses_opt.
      let seconds_left = saturating_sub expiration now in
      res_bind (guard (seconds_left \<le> cfg_min_deadline config) SKIP_DEADLINE_TOO_SHORT) (\<lambda>_.
      res_bind (guard (case cfg_max_order_expiry_secs config of
                         Some max_expiry \<Rightarrow> seconds_left > max_expiry | None \<Rightarrow> False)
                  SKIP_EXPIRY_TOO_LONG) (\<lambda>_.
      res_bind (check_outcome (cx_check_requestor_allowed cx ord denied_addresses_opt)) (\<lambda>_.
      res_bind (guard (\<not> is_supported (cx_supported_selectors cx) (req_selector (requirements (request ord))))
                  SKIP_UNSUPPORTED_SELECTOR) (\<lambda>_.
      res_bind (tryp (cx_convert_to_zkc cx (cfg_max_collateral config))) (\<lambda>max_collateral_zkc.
      let max_collateral =
            scale_decimals (amount_value max_collateral_zkc)
              (asset_decimals (amount_asset max_collateral_zkc)) (cx_collateral_token_decimals cx)
      in res_bind (guard (\<not> lock_expired ord \<and> lockin_collateral ord > max_collateral)
                     SKIP_COLLATERAL_TOO_HIGH) (\<lambda>_.
      res_bind (check_outcome (cx_check_request_available cx ord)) (\<lambda>_.
      Inr config)))))))))))"

definition price_gas ::
    "OrderPricingContext \<Rightarrow> MarketConfig \<Rightarrow> OrderRequest \<Rightarrow> OrderRequest \<times> (pricing_result + u128 \<times> u256)" where
  "price_gas cx config ord =
     (case res_bind (tryp (cx_current_gas_price cx)) (\<lambda>gas_price.
           res_bind (tryp (cx_estimate_gas_to_fulfill cx (request ord))) (\<lambda>est.
           res_bind (tryp (callback_gas (request ord))) (\<lambda>cb.
           let fulfill_gas = est + cb;
               order_gas = (if lock_expired ord
                            then ucast (fulfill_gas + cfg_commit_fulfillment_gas_estimate config)
                            else ucast (cfg_lockin_gas_estimate config + cx_estimate_erc1271_gas cx ord + fulfill_gas))
           in Inr (gas_price, order_gas :: u256)))) of
        Inl r \<Rightarrow> (ord, Inl r)
      | Inr (gas_price, order_gas) \<Rightarrow>
          (let ord1 = ord\<lparr>gas_estimate := Some (narrow_sat order_gas)\<rparr> in
           case tryp (cx_additional_proof_cycles cx (request ord1)) of
             Inl r \<Rightarrow> (ord1, Inl r)
           | Inr cycles \<Rightarrow>
               (let ord2 = ord1\<lparr>additional_proof_cycles := Some cycles\<rparr>;
                    order_gas_cost = ucast gas_price * order_gas
                in (ord2, res_bind
                      (check_outcome (cx_check_available_balances cx ord2 order_gas_cost (lock_expired ord2)
                         (lockin_collateral ord2)))
                      (\<lambda>_. Inr (gas_price, order_gas_cost))))))"

text \<open>The figure printed when the cycle count is above the limit; \<open>None\<close> is a division by zero.\<close>

fun required_for_limit :: "ProveLimitReason \<Rightarrow> u64 \<Rightarrow> u256 option" where
  "required_for_limit (EthPricing max_price gas_cost _) cycle_count =
     checked_div (saturating_mul (saturating_sub max_price gas_cost) ONE_MILLION) (ucast cycle_count)"
| "required_for_limit (CollateralPricing reward _) cycle_count =
     checked_div (saturating_mul reward ONE_MILLION) (ucast cycle_count)"
| "required_for_limit (ConfigCap _) cycle_count = Some (ucast (div_ceil cycle_count 1000000))"
| "required_for_limit (DeadlineCap time_remaining_secs _) cycle_count =
     (let denom = saturating_mul time_remaining_secs 1000 in
      if denom = 0 then None else Some (ucast (div_ceil cycle_count denom)))"

text \<open>The evaluation itself: cycle count, program id, input id, journal, and the limit with its
  reason.\<close>

type_synonym preflight_data = "u64 \<times> string \<times> string \<times> bytes \<times> u64 \<times> ProveLimitReason"

fun evaluation_outcome :: "u64 \<Rightarrow> ProveLimitReason \<Rightarrow> RequestEvaluation \<Rightarrow> pricing_result + preflight_data" where
  "evaluation_outcome prove_limit reason (EvalSuccess _ metrics prog inp output) =
     Inr (normalized_units metrics, prog, inp, output, prove_limit, reason)"
| "evaluation_outcome _ _ (EvalLimitExceeded _) = skip SKIP_PREFLIGHT_LIMIT_EXCEEDED"
| "evaluation_outcome _ _ EvalGuestFailed = skip SKIP_PREFLIGHT_GUEST_FAILED"

definition run_preflight ::
    "OrderPricingContext \<Rightarrow> OrderRequest \<Rightarrow> u256 \<Rightarrow> pricing_result + preflight_data" where
  "run_preflight cx ord order_gas_cost =
     res_bind (tryp (calculate_exec_limits cx ord order_gas_cost)) (\<lambda>(exec_limit_cycles, prove_limit, reason).
     res_bind (guard (prove_limit < 2) SKIP_CYCLE_LIMIT_FROM_REWARD) (\<lambda>_.
     res_bind (tryp (cx_evaluate_request cx
        (evaluation_request_from_order (cx_id_lib cx) ord) exec_limit_cycles))
       (evaluation_outcome prove_limit reason)))"

definition price_preflight ::
    "OrderPricingContext \<Rightarrow> MarketConfig \<Rightarrow> OrderRequest \<Rightarrow> u256
      \<Rightarrow> OrderRequest \<times> (pricing_result + u64 \<times> string \<times> bytes)" where
  "price_preflight cx config ord order_gas_cost =
     (case run_preflight cx ord order_gas_cost of
        Inl r \<Rightarrow> (ord, Inl r)
      | Inr (cycle_count, prog, inp, journal, prove_limit, reason) \<Rightarrow>
          (let ord1 = ord\<lparr>image_id := Some prog, input_id := Some inp\<rparr> in
           if cycle_count > prove_limit then
             (ord1, case required_for_limit reason cycle_count of
                      None \<Rightarrow> Inl (Inl PricingPanic)
                    | Some _ \<Rightarrow> skip SKIP_CYCLES_ABOVE_LIMIT)
           else let ord2 = ord1\<lparr>total_cycles := Some cycle_count\<rparr> in
             (ord2, res_bind
                (guard (cfg_min_mcycle_limit config > 0
                        \<and> cycle_count < saturating_mul (cfg_min_mcycle_limit config) 1000000)
                   SKIP_CYCLES_BELOW_MIN)
                (\<lambda>_. Inr (cycle_count, prog, journal)))))"

definition price_validate ::
    "OrderPricingContext \<Rightarrow> MarketConfig \<Rightarrow> OrderRequest \<Rightarrow> u128 \<Rightarrow> u256 \<Rightarrow> string \<Rightarrow> bytes \<Rightarrow> pricing_result + u256" where
  "price_validate cx config ord gas_price order_gas_cost program_id journal =
     (let reqs = requirements (request ord);
          ty = predicateType (predicate reqs);
          blake3 = is_blake3_groth16_selector (req_selector reqs)
      in res_bind (guard ((ty = PrefixMatchType \<or> ty = DigestMatchType)
                          \<and> length journal > cfg_max_journal_bytes config) SKIP_JOURNAL_TOO_LARGE) (\<lambda>_.
      res_bind (guard (blake3 \<and> length journal \<noteq> 32) SKIP_BLAKE3_JOURNAL_SIZE) (\<lambda>_.
      let order_gas_cost' =
            (if ty \<noteq> ClaimDigestMatchType then
               order_gas_cost + ucast gas_price
                 * ucast (word_of_nat (length journal) * cfg_fulfill_journal_gas_per_byte config)
             else order_gas_cost)
      in res_bind (guard (order_gas_cost' > maxPrice (offer (request ord)) \<and> \<not> lock_expired ord)
                     SKIP_GAS_EXCEEDS_MAX_PRICE) (\<lambda>_.
      res_bind (case predicate_try_from (predicate reqs) of
                  Inl e \<Rightarrow> Inl (Inl (InvalidRequest (RequestPredicateError e)))
                | Inr p \<Rightarrow> Inr p) (\<lambda>p.
      res_bind (if blake3 then Inr NoData
                else res_bind (tryp (ok_or UnexpectedErr (cx_digest_from_hex cx program_id)))
                       (\<lambda>image. Inr (ImageIdAndJournal image journal))) (\<lambda>eval_data.
      res_bind (guard (predicate_eval (cx_claim_ok cx) (cx_claim_pruned cx) p eval_data = None)
                  SKIP_PREDICATE_CHECK_FAILED) (\<lambda>_.
      Inr order_gas_cost')))))))"

definition price_collateral ::
    "OrderPricingContext \<Rightarrow> MarketConfig \<Rightarrow> OrderRequest \<Rightarrow> u64 \<Rightarrow> nat \<Rightarrow> pricing_result" where
  "price_collateral cx config ord cycle_count journal_len =
     (let off = offer (request ord) in
      res_bind (ok_or PricingPanic (collateral_reward_if_locked_and_not_fulfilled off)) (\<lambda>raw_price.
      let price = apply_secondary_fulfillment_discount raw_price
                    (cfg_expected_probability_win_secondary_fulfillment config) in
      res_bind (ok_or PricingPanic (checked_div (saturating_mul price ONE_MILLION) (ucast cycle_count)))
        (\<lambda>mcycle_price.
      res_bind (cx_convert_to_zkc cx (cfg_min_mcycle_price config)) (\<lambda>zkc.
      let config_min = scale_decimals (amount_value zkc) (asset_decimals (amount_asset zkc))
                         (cx_collateral_token_decimals cx) in
      if mcycle_price < config_min then Inr (Skip SKIP_COLLATERAL_REWARD_TOO_LOW)
      else Inr (ProveAfterLockExpire
        \<lparr>ae_total_cycles = cycle_count,
         ae_lock_expire_timestamp_secs = rampUpStart off + ucast (lockTimeout off),
         ae_expiry_secs = rampUpStart off + ucast (timeout off),
         ae_mcycle_price = mcycle_price, ae_config_min_mcycle_price = config_min,
         ae_journal_len = journal_len\<rparr>)))))"

definition min_mcycle_price_for :: "MarketConfig \<Rightarrow> OrderRequest \<Rightarrow> Amount" where
  "min_mcycle_price_for config ord =
     (case overrides_resolve (cfg_pricing_overrides config) (client_address (request ord))
             (req_selector (requirements (request ord))) of
        Some a \<Rightarrow> a | None \<Rightarrow> cfg_min_mcycle_price config)"

definition price_per_mcycle :: "u256 \<Rightarrow> u256 \<Rightarrow> u64 \<Rightarrow> OrderPricingError + u256" where
  "price_per_mcycle price gas_cost cycle_count =
     ok_or PricingPanic
       (checked_div (saturating_mul (saturating_sub price gas_cost) ONE_MILLION) (ucast cycle_count))"

definition price_lock ::
    "OrderPricingContext \<Rightarrow> MarketConfig \<Rightarrow> OrderRequest \<Rightarrow> u256 \<Rightarrow> u64 \<Rightarrow> nat \<Rightarrow> pricing_result" where
  "price_lock cx config ord order_gas_cost cycle_count journal_len =
     (let off = offer (request ord) in
      res_bind (cx_convert_to_eth cx (min_mcycle_price_for config ord)) (\<lambda>eth.
      let config_min = amount_value eth in
      res_bind (price_per_mcycle (minPrice off) order_gas_cost cycle_count) (\<lambda>mcycle_price_min.
      res_bind (price_per_mcycle (maxPrice off) order_gas_cost cycle_count) (\<lambda>mcycle_price_max.
      if mcycle_price_max < config_min then Inr (Skip SKIP_PRICE_TOO_LOW)
      else case price_at off (cx_now_lock cx) of
        Inl _ \<Rightarrow> Inl UnexpectedErr
      | Inr current_mcycle_price \<Rightarrow>
          res_bind
            (if mcycle_price_min \<ge> config_min then Inr (mcycle_price_min, 0)
             else let target_min_price =
                    div_ceil (saturating_mul config_min (ucast cycle_count)) ONE_MILLION + order_gas_cost
                  in case time_at_price off target_min_price of
                       Inl _ \<Rightarrow> Inl UnexpectedErr
                     | Inr target_time \<Rightarrow> Inr (target_min_price, target_time))
            (\<lambda>(target_mcycle_price, target_timestamp_secs).
               Inr (Lock \<lparr>lo_total_cycles = cycle_count,
                          lo_target_timestamp_secs = target_timestamp_secs,
                          lo_expiry_secs = rampUpStart off + ucast (lockTimeout off),
                          lo_target_mcycle_price = target_mcycle_price,
                          lo_max_mcycle_price = mcycle_price_max,
                          lo_config_min_mcycle_price = config_min,
                          lo_current_mcycle_price = current_mcycle_price,
                          lo_journal_len = journal_len\<rparr>))))))"

definition price_order :: "OrderPricingContext \<Rightarrow> OrderRequest \<Rightarrow> OrderRequest \<times> pricing_result" where
  "price_order cx ord =
     (case price_checks cx ord of
        Inl r \<Rightarrow> (ord, r)
      | Inr config \<Rightarrow>
          (case price_gas cx config ord of
             (ord1, Inl r) \<Rightarrow> (ord1, r)
           | (ord1, Inr (gas_price, gas_cost)) \<Rightarrow>
               (case price_preflight cx config ord1 gas_cost of
                  (ord2, Inl r) \<Rightarrow> (ord2, r)
                | (ord2, Inr (cycle_count, program_id, journal)) \<Rightarrow>
                    (ord2,
                     case price_validate cx config ord2 gas_price gas_cost program_id journal of
                       Inl r \<Rightarrow> r
                     | Inr order_gas_cost \<Rightarrow>
                         if lock_expired ord2
                         then price_collateral cx config ord2 cycle_count (length journal)
                         else price_lock cx config ord2 order_gas_cost cycle_count (length journal)))))"

section \<open>What the stages establish\<close>

lemma guard_Inr [res_simps]: "guard bad code = Inr u \<longleftrightarrow> \<not> bad"
  by (simp add: guard_def skip_def)

lemma guard_Inl [res_simps]: "guard bad code = Inl r \<longleftrightarrow> bad \<and> r = Inr (Skip code)"
  by (auto simp: guard_def skip_def)

lemma tryp_Inr [res_simps]: "tryp m = Inr x \<longleftrightarrow> m = Inr x"
  by (cases m) auto

lemma tryp_Inl [res_simps]: "tryp m = Inl r \<longleftrightarrow> (\<exists>e. m = Inl e \<and> r = Inl e)"
  by (cases m) auto

lemma check_outcome_Inr [res_simps]: "check_outcome m = Inr u \<longleftrightarrow> m = Inr None"
  by (cases m rule: check_outcome.cases) auto

lemma check_outcome_Inl [res_simps]:
  "check_outcome m = Inl r \<longleftrightarrow> (\<exists>e. m = Inl e \<and> r = Inl e) \<or> (\<exists>out. m = Inr (Some out) \<and> r = Inr out)"
  by (cases m rule: check_outcome.cases) auto

lemma ok_or_Inl [res_simps]: "ok_or e x = Inl e' \<longleftrightarrow> x = None \<and> e' = e"
  by (auto simp: ok_or_def split: option.splits)

lemma unat_ONE_MILLION [unat_simps]: "unat ONE_MILLION = 1000000"
  by (simp add: ONE_MILLION_def)

definition same_request :: "OrderRequest \<Rightarrow> OrderRequest \<Rightarrow> bool" where
  "same_request a b \<longleftrightarrow> request a = request b \<and> fulfillment_type a = fulfillment_type b"

lemma same_request_simps:
  assumes "same_request a b"
  shows "request a = request b" "fulfillment_type a = fulfillment_type b"
    "lock_expired a = lock_expired b" "lockin_collateral a = lockin_collateral b"
    "order_expiry a = order_expiry b" "min_mcycle_price_for config a = min_mcycle_price_for config b"
  using assms by (auto simp: same_request_def lock_expired_def lockin_collateral_def order_expiry_def
      min_mcycle_price_for_def split: FulfillmentType.split)

lemma price_gas_order:
  "price_gas cx config ord = (ord1, r) \<Longrightarrow> same_request ord1 ord"
  by (auto simp: price_gas_def same_request_def Let_def split: sum.splits prod.splits)

lemma same_request_evaluation:
  "same_request a b \<Longrightarrow> chain_id a = chain_id b \<Longrightarrow> boundless_market_address a = boundless_market_address b \<Longrightarrow>
     evaluation_request_from_order lib a = evaluation_request_from_order lib b"
  by (simp add: evaluation_request_from_order_def same_request_def order_id_def request_digest_def)

lemma price_gas_evaluation:
  assumes "price_gas cx config ord = (ord1, r)"
  shows "evaluation_request_from_order lib ord1 = evaluation_request_from_order lib ord"
proof (rule same_request_evaluation [OF price_gas_order [OF assms]])
  show "chain_id ord1 = chain_id ord" "boundless_market_address ord1 = boundless_market_address ord"
    using assms by (auto simp: price_gas_def Let_def split: sum.splits prod.splits)
qed

lemma price_preflight_order:
  "price_preflight cx config ord gas = (ord1, r) \<Longrightarrow>
     same_request ord1 ord \<and> gas_estimate ord1 = gas_estimate ord"
  by (auto simp: price_preflight_def same_request_def Let_def split: sum.splits prod.splits if_splits)

lemma price_gas_Inr:
  assumes "price_gas cx config ord = (ord1, Inr (gas_price, gas_cost))"
  shows "cx_current_gas_price cx = Inr gas_price"
    and "\<exists>g. gas_estimate ord1 = Some g \<and> gas_cost = ucast gas_price * ucast g"
    and "\<not> lock_expired ord \<Longrightarrow> \<exists>est cb. cx_estimate_gas_to_fulfill cx (request ord) = Inr est
       \<and> callback_gas (request ord) = Inr cb
       \<and> gas_estimate ord1 = Some (cfg_lockin_gas_estimate config + cx_estimate_erc1271_gas cx ord + (est + cb))"
proof -
  have sat: "narrow_sat (ucast (w :: u64) :: u256) = w" for w
  proof -
    have "unat (narrow_sat (ucast w :: u256) :: u64) = unat w"
      using unat_lt [of w] by (simp add: unat_narrow_sat)
    then show ?thesis by (simp add: word_unat_eq_iff)
  qed
  show "\<exists>est cb. cx_estimate_gas_to_fulfill cx (request ord) = Inr est
       \<and> callback_gas (request ord) = Inr cb
       \<and> gas_estimate ord1 = Some (cfg_lockin_gas_estimate config + cx_estimate_erc1271_gas cx ord + (est + cb))"
    if "\<not> lock_expired ord"
    using assms that unfolding price_gas_def Let_def
    by (auto simp: res_simps sat split: sum.splits prod.splits if_splits)
  show "cx_current_gas_price cx = Inr gas_price"
    using assms by (auto simp: price_gas_def Let_def res_simps split: sum.splits prod.splits)
  show "\<exists>g. gas_estimate ord1 = Some g \<and> gas_cost = ucast gas_price * ucast g"
    using assms by (auto simp: price_gas_def Let_def res_simps sat split: sum.splits prod.splits if_splits)
qed

lemma evaluation_outcome_Inr [res_simps]:
  "evaluation_outcome limit reason ev = Inr t \<longleftrightarrow>
     (\<exists>e m p i out. ev = EvalSuccess e m p i out \<and> t = (normalized_units m, p, i, out, limit, reason))"
  by (cases ev) (auto simp: skip_def)

lemma evaluation_outcome_Inl: "evaluation_outcome limit reason ev = Inl r \<Longrightarrow> \<exists>c. r = Inr (Skip c)"
  by (cases ev) (auto simp: skip_def)

lemma run_preflight_Inr:
  assumes "run_preflight cx ord gas = Inr (cycles, prog, inp, journal, limit, reason)"
  shows "\<exists>pre e m. calculate_exec_limits cx ord gas = Inr (pre, limit, reason) \<and> 2 \<le> limit
     \<and> cx_evaluate_request cx (evaluation_request_from_order (cx_id_lib cx) ord) pre
         = Inr (EvalSuccess e m prog inp journal) \<and> cycles = normalized_units m"
  using assms by (auto simp: run_preflight_def res_simps not_less)

lemma run_preflight_Inl:
  assumes "run_preflight cx ord gas = Inl r"
  shows "(\<exists>c. r = Inr (Skip c)) \<or> (\<exists>e. calculate_exec_limits cx ord gas = Inl e \<and> r = Inl e)
     \<or> (\<exists>q l e. cx_evaluate_request cx q l = Inl e \<and> r = Inl e)"
  using assms by (auto simp: run_preflight_def res_simps dest: evaluation_outcome_Inl)

lemma price_preflight_Inr:
  assumes "price_preflight cx config ord gas = (ord1, Inr (cycles, prog, journal))"
  shows "total_cycles ord1 = Some cycles"
    and "\<exists>pre limit reason. calculate_exec_limits cx ord gas = Inr (pre, limit, reason) \<and> 2 \<le> limit \<and> cycles \<le> limit"
    and "cfg_min_mcycle_limit config = 0 \<or> saturating_mul (cfg_min_mcycle_limit config) 1000000 \<le> cycles"
    and "\<exists>l e m i. cx_evaluate_request cx (evaluation_request_from_order (cx_id_lib cx) ord) l
         = Inr (EvalSuccess e m prog i journal) \<and> cycles = normalized_units m"
proof -
  obtain inp limit reason where run: "run_preflight cx ord gas = Inr (cycles, prog, inp, journal, limit, reason)"
    and le: "cycles \<le> limit" and tc: "total_cycles ord1 = Some cycles"
    and mn: "\<not> (cfg_min_mcycle_limit config > 0 \<and> cycles < saturating_mul (cfg_min_mcycle_limit config) 1000000)"
    using assms
    by (auto simp: price_preflight_def Let_def res_simps skip_def not_less
        split: sum.splits prod.splits if_splits option.splits)
  show "total_cycles ord1 = Some cycles" by (rule tc)
  show "\<exists>pre limit reason. calculate_exec_limits cx ord gas = Inr (pre, limit, reason) \<and> 2 \<le> limit \<and> cycles \<le> limit"
    using run_preflight_Inr [OF run] le by blast
  show "cfg_min_mcycle_limit config = 0 \<or> saturating_mul (cfg_min_mcycle_limit config) 1000000 \<le> cycles"
    using mn by (auto simp: not_less word_greater_zero_iff)
  show "\<exists>l e m i. cx_evaluate_request cx (evaluation_request_from_order (cx_id_lib cx) ord) l
         = Inr (EvalSuccess e m prog i journal) \<and> cycles = normalized_units m"
    using run_preflight_Inr [OF run] by blast
qed

section \<open>Execution limits\<close>

fun limits_ordered :: "limits \<Rightarrow> bool" where
  "limits_ordered (preflight_limit, prove_limit, _) \<longleftrightarrow> prove_limit \<le> preflight_limit"

fun deadline_reason_ok :: "limits \<Rightarrow> bool" where
  "deadline_reason_ok (_, prove_limit, reason) \<longleftrightarrow>
     (case reason of
        DeadlineCap window khz \<Rightarrow> prove_limit = calculate_max_cycles_for_time khz window
      | _ \<Rightarrow> True)"

lemma cap_by_config_ok:
  assumes "limits_ordered l" "deadline_reason_ok l"
  shows "limits_ordered (cap_by_config config prio l)" "deadline_reason_ok (cap_by_config config prio l)"
    "\<not> prio \<Longrightarrow> fst (snd (cap_by_config config prio l)) \<le> saturating_mul (cfg_max_mcycle_limit config) 1000000"
    "fst (snd (cap_by_config config prio l)) \<le> fst (snd l)"
  using assms by (auto simp: cap_by_config_def Let_def not_less split: prod.splits)

lemma cap_by_deadline_ok:
  assumes "limits_ordered l" "deadline_reason_ok l"
  shows "limits_ordered (cap_by_deadline ord now khz l)" "deadline_reason_ok (cap_by_deadline ord now khz l)"
    "fst (snd (cap_by_deadline ord now khz l))
       \<le> calculate_max_cycles_for_time khz (saturating_sub (order_expiry ord) now)"
    "fst (snd (cap_by_deadline ord now khz l)) \<le> fst (snd l)"
  using assms
  by (auto simp: cap_by_deadline_def Let_def not_less max_def split: prod.splits if_splits)

lemma exec_limits_parts:
  assumes "calculate_exec_limits cx ord gas = Inr l"
  shows "\<exists>config initial eth. cx_market_config cx = Inr config
     \<and> cx_convert_to_eth cx (min_mcycle_price_for config ord) = Inr eth
     \<and> limits_ordered initial \<and> deadline_reason_ok initial
     \<and> (\<not> lock_expired ord \<longrightarrow> fst (snd initial) = eth_based_limit ord gas (amount_value eth))
     \<and> l = (let capped = cap_by_config config (cx_is_priority_requestor cx (client_address (request ord))) initial
            in case cfg_peak_prove_khz config of
                 None \<Rightarrow> capped | Some khz \<Rightarrow> cap_by_deadline ord (cx_now_limits cx) khz capped)"
proof -
  obtain config eth zkc coll reward where parts: "cx_market_config cx = Inr config"
    "cx_convert_to_eth cx (min_mcycle_price_for config ord) = Inr eth"
    and l: "l = (let initial =
              (if fulfillment_type ord = FulfillAfterLockExpire
               then (coll, coll, CollateralPricing reward zkc)
               else ((if eth_based_limit ord gas (amount_value eth) > coll
                      then eth_based_limit ord gas (amount_value eth) else coll),
                     eth_based_limit ord gas (amount_value eth),
                     EthPricing (maxPrice (offer (request ord))) gas (amount_value eth)));
                capped = cap_by_config config (cx_is_priority_requestor cx (client_address (request ord))) initial
            in case cfg_peak_prove_khz config of
                 None \<Rightarrow> capped | Some khz \<Rightarrow> cap_by_deadline ord (cx_now_limits cx) khz capped)"
    using assms by (auto simp: calculate_exec_limits_def Let_def res_simps min_mcycle_price_for_def)
  define initial where "initial = (if fulfillment_type ord = FulfillAfterLockExpire
     then (coll, coll, CollateralPricing reward zkc)
     else ((if eth_based_limit ord gas (amount_value eth) > coll
            then eth_based_limit ord gas (amount_value eth) else coll),
           eth_based_limit ord gas (amount_value eth),
           EthPricing (maxPrice (offer (request ord))) gas (amount_value eth)))"
  have "limits_ordered initial" "deadline_reason_ok initial"
    "\<not> lock_expired ord \<longrightarrow> fst (snd initial) = eth_based_limit ord gas (amount_value eth)"
    by (auto simp: initial_def lock_expired_def not_less)
  with parts l [folded initial_def] show ?thesis unfolding Let_def by blast
qed

lemma exec_limits_reason:
  assumes "calculate_exec_limits cx ord gas = Inr l"
  shows "limits_ordered l" "deadline_reason_ok l"
proof -
  obtain config initial where i: "limits_ordered initial" "deadline_reason_ok initial"
    and l: "l = (let capped = cap_by_config config (cx_is_priority_requestor cx (client_address (request ord))) initial
            in case cfg_peak_prove_khz config of
                 None \<Rightarrow> capped | Some khz \<Rightarrow> cap_by_deadline ord (cx_now_limits cx) khz capped)"
    using exec_limits_parts [OF assms] by blast
  note c = cap_by_config_ok(1,2) [OF i, of config "cx_is_priority_requestor cx (client_address (request ord))"]
  show "limits_ordered l" "deadline_reason_ok l"
    unfolding l Let_def using c cap_by_deadline_ok(1,2) [OF c] by (auto split: option.split)
qed

lemma exec_limits_bounds:
  assumes lim: "calculate_exec_limits cx ord gas = Inr (preflight_limit, prove_limit, reason)"
    and cfg: "cx_market_config cx = Inr config"
  shows "prove_limit \<le> preflight_limit
     \<and> (\<not> cx_is_priority_requestor cx (client_address (request ord)) \<longrightarrow>
          unat prove_limit \<le> unat (cfg_max_mcycle_limit config) * 1000000)
     \<and> (\<forall>khz. cfg_peak_prove_khz config = Some khz \<longrightarrow>
          prove_limit \<le> calculate_max_cycles_for_time khz (saturating_sub (order_expiry ord) (cx_now_limits cx)))
     \<and> (\<forall>eth. \<not> lock_expired ord \<longrightarrow> cx_convert_to_eth cx (min_mcycle_price_for config ord) = Inr eth \<longrightarrow>
          amount_value eth \<noteq> 0 \<longrightarrow>
          unat prove_limit * unat (amount_value eth) \<le> (unat (maxPrice (offer (request ord))) - unat gas) * 1000000)"
proof -
  let ?prio = "cx_is_priority_requestor cx (client_address (request ord))"
  obtain initial eth where eth: "cx_convert_to_eth cx (min_mcycle_price_for config ord) = Inr eth"
    and i: "limits_ordered initial" "deadline_reason_ok initial"
    and e: "\<not> lock_expired ord \<longrightarrow> fst (snd initial) = eth_based_limit ord gas (amount_value eth)"
    and l: "(preflight_limit, prove_limit, reason) = (let capped = cap_by_config config ?prio initial
            in case cfg_peak_prove_khz config of
                 None \<Rightarrow> capped | Some khz \<Rightarrow> cap_by_deadline ord (cx_now_limits cx) khz capped)"
    using exec_limits_parts [OF lim] unfolding cfg sum.inject by blast
  note c = cap_by_config_ok [OF i, where config = config and prio = ?prio]
  note d = cap_by_deadline_ok [OF c(1,2), of ord "cx_now_limits cx"]
  have p: "prove_limit = fst (snd (let capped = cap_by_config config ?prio initial
            in case cfg_peak_prove_khz config of
                 None \<Rightarrow> capped | Some khz \<Rightarrow> cap_by_deadline ord (cx_now_limits cx) khz capped))"
    by (simp flip: l)
  have 1: "prove_limit \<le> preflight_limit" using exec_limits_reason(1) [OF lim] by simp
  have capped: "prove_limit \<le> fst (snd (cap_by_config config ?prio initial))"
    unfolding p Let_def using d(4) by (auto split: option.split)
  have 2: "prove_limit \<le> saturating_mul (cfg_max_mcycle_limit config) 1000000" if "\<not> ?prio"
    using capped c(3) [OF that] by (rule order_trans)
  have 3: "prove_limit \<le> calculate_max_cycles_for_time khz (saturating_sub (order_expiry ord) (cx_now_limits cx))"
    if "cfg_peak_prove_khz config = Some khz" for khz
    unfolding p Let_def using that d(3) by simp
  have 4: "unat prove_limit * unat (amount_value eth) \<le> (unat (maxPrice (offer (request ord))) - unat gas) * 1000000"
    if "\<not> lock_expired ord" "amount_value eth \<noteq> 0"
  proof -
    have "prove_limit \<le> eth_based_limit ord gas (amount_value eth)"
      using order_trans [OF capped c(4)] e that(1) by simp
    then have "unat prove_limit \<le> unat (eth_based_limit ord gas (amount_value eth))"
      by (simp add: word_le_nat_alt)
    also have "\<dots> \<le> unat (saturating_mul (saturating_sub (maxPrice (offer (request ord))) gas) ONE_MILLION)
         div unat (amount_value eth)"
      using that(2) by (simp add: eth_based_limit_def unat_narrow_sat unat_div_distrib)
    also have "\<dots> \<le> (unat (maxPrice (offer (request ord))) - unat gas) * 1000000 div unat (amount_value eth)"
      by (intro div_le_mono) (simp add: unat_saturating_mul unat_saturating_sub unat_ONE_MILLION)
    finally show ?thesis
      by (metis (no_types, lifting) div_times_less_eq_dividend mult_le_mono1 order_trans)
  qed
  show ?thesis
    using 1 2 3 4 eth by (auto simp: word_le_nat_alt unat_simps)
qed

text \<open>C4: the limits \<open>calculate_exec_limits\<close> returns satisfy its assertions and its purpose: the
  preflight limit is at least the proving limit; the proving limit respects \<open>max_mcycle_limit\<close>
  (unless the requestor has priority) and the cycles the cluster can prove before the order
  expires; and for an order to lock, proving up to the limit at the configured price per Mcycle
  costs no more than the maximum price after gas.\<close>

theorem exec_limits_sound:
  assumes lim: "calculate_exec_limits cx ord gas = Inr (preflight_limit, prove_limit, reason)"
    and cfg: "cx_market_config cx = Inr config"
  shows "prove_limit \<le> preflight_limit
     \<and> (\<not> cx_is_priority_requestor cx (client_address (request ord)) \<longrightarrow>
          unat prove_limit \<le> unat (cfg_max_mcycle_limit config) * 1000000)
     \<and> (\<forall>khz. cfg_peak_prove_khz config = Some khz \<longrightarrow>
          prove_limit \<le> calculate_max_cycles_for_time khz (saturating_sub (order_expiry ord) (cx_now_limits cx)))
     \<and> (\<forall>eth. \<not> lock_expired ord \<longrightarrow> cx_convert_to_eth cx (min_mcycle_price_for config ord) = Inr eth \<longrightarrow>
          amount_value eth \<noteq> 0 \<longrightarrow>
          unat prove_limit * unat (amount_value eth) \<le> (unat (maxPrice (offer (request ord))) - unat gas) * 1000000)"
  using assms by (rule exec_limits_bounds)

section \<open>The price of a lock\<close>

lemma price_per_mcycle_Inr:
  assumes "price_per_mcycle p g c = Inr q"
  shows "0 < unat c" "unat q * unat c \<le> (unat p - unat g) * 1000000" "unat q * unat c < 2 ^ 256"
proof -
  let ?x = "saturating_mul (saturating_sub p g) ONE_MILLION"
  have c: "ucast c \<noteq> (0 :: u256)" and q: "q = ?x div ucast c"
    using assms by (auto simp: price_per_mcycle_def ok_or_Inr checked_div_Some)
  have "unat (ucast c :: u256) \<noteq> 0" using c by (simp only: unat_eq_zero not_False_eq_True)
  then show "0 < unat c" by simp
  have le: "unat q * unat c \<le> unat ?x" by (simp add: q unat_div_distrib)
  also have "unat ?x \<le> (unat p - unat g) * 1000000"
    by (simp add: unat_saturating_mul unat_saturating_sub unat_ONE_MILLION)
  finally show "unat q * unat c \<le> (unat p - unat g) * 1000000" .
  show "unat q * unat c < 2 ^ 256" using le unat_lt [of ?x] by simp
qed

lemma price_covers_cost:
  assumes "price_per_mcycle p g c = Inr q" "m \<le> q" "m \<noteq> 0"
  shows "unat m * unat c + unat g * 1000000 \<le> unat p * 1000000"
proof -
  have "unat m \<le> unat q" using assms(2) by (simp add: word_le_nat_alt)
  then have le: "unat m * unat c \<le> (unat p - unat g) * 1000000"
    using price_per_mcycle_Inr(2) [OF assms(1)] by (meson mult_le_mono1 order_trans)
  have "0 < unat m * unat c"
    using assms(3) price_per_mcycle_Inr(1) [OF assms(1)] by (simp add: unat_gt_0)
  then have "0 < unat p - unat g" using le by (cases "unat p - unat g") auto
  then have "(unat p - unat g) * 1000000 + unat g * 1000000 = unat p * 1000000"
    by (simp add: diff_mult_distrib)
  then show ?thesis using le by linarith
qed

definition target_min_price :: "u256 \<Rightarrow> u256 \<Rightarrow> u64 \<Rightarrow> u256" where
  "target_min_price m g c = div_ceil (saturating_mul m (ucast c)) ONE_MILLION + g"

lemma target_min_price_bounds:
  assumes "price_per_mcycle p g c = Inr q" "m \<le> q" "m \<noteq> 0"
  shows "target_min_price m g c \<le> p"
    "unat m * unat c + unat g * 1000000 \<le> unat (target_min_price m g c) * 1000000"
proof -
  note cost = price_covers_cost [OF assms]
  let ?x = "unat m * unat c"
  have "unat m \<le> unat q" using assms(2) by (simp add: word_le_nat_alt)
  then have "?x \<le> unat q * unat c" by (rule mult_le_mono1)
  then have "?x < 2 ^ 256" using price_per_mcycle_Inr(3) [OF assms(1)] by (rule le_less_trans)
  then have x: "unat (saturating_mul m (ucast c)) = ?x"
    by (simp add: unat_saturating_mul)
  define k where "k = unat (div_ceil (saturating_mul m (ucast c)) ONE_MILLION)"
  have k: "k = (?x + 1000000 - 1) div 1000000"
    unfolding k_def by (subst unat_div_ceil) (simp_all add: x ONE_MILLION_def)
  have k_iff: "k \<le> j \<longleftrightarrow> ?x \<le> j * 1000000" for j
    unfolding k by (rule div_ceil_bound_iff) simp
  have xk: "?x \<le> k * 1000000" using k_iff [of k] by simp
  have "k \<le> unat p - unat g" using cost unfolding k_iff by (simp add: diff_mult_distrib)
  moreover have "unat g \<le> unat p" using cost by linarith
  ultimately have kg: "k + unat g \<le> unat p" by linarith
  then have "k + unat g < 2 ^ 256" using unat_lt [of p] by simp
  then have t: "unat (target_min_price m g c) = k + unat g"
    unfolding target_min_price_def k_def by (subst unat_add_no_wrap) simp_all
  show "target_min_price m g c \<le> p" using kg t by (simp add: word_le_nat_alt)
  show "?x + unat g * 1000000 \<le> unat (target_min_price m g c) * 1000000" using xk t by simp
qed

lemma price_lock_cases:
  assumes "price_lock cx config ord gas cycles jl = Inr (Lock l)"
  defines "off \<equiv> offer (request ord)"
  shows "\<exists>qmin qmax. price_per_mcycle (minPrice off) gas cycles = Inr qmin
     \<and> price_per_mcycle (maxPrice off) gas cycles = Inr qmax \<and> lo_config_min_mcycle_price l \<le> qmax
     \<and> lo_total_cycles l = cycles
     \<and> (\<exists>eth. cx_convert_to_eth cx (min_mcycle_price_for config ord) = Inr eth
          \<and> lo_config_min_mcycle_price l = amount_value eth)
     \<and> (lo_config_min_mcycle_price l \<le> qmin \<and> lo_target_timestamp_secs l = 0
        \<or> time_at_price off (target_min_price (lo_config_min_mcycle_price l) gas cycles)
            = Inr (lo_target_timestamp_secs l))"
  using assms(1) unfolding off_def
  by (auto simp: price_lock_def Let_def res_simps target_min_price_def not_less price_at_def
      split: sum.splits if_splits prod.splits)

lemma price_at_ge_min:
  assumes "wf_offer off" "offer_no_wrap off" "price_at off ts = Inr p" "ts \<le> lock_deadline off"
  shows "minPrice off \<le> p"
proof -
  note b = offer_bounds [OF assms(1,2)]
  show ?thesis
    using price_at_time_curve [OF assms(1-3)] assms(4) b curve_bounds [OF b(1)]
    by (simp add: offer_curve_def word_le_nat_alt)
qed

lemma time_at_price_ok:
  assumes "wf_offer off" "offer_no_wrap off" "p \<le> maxPrice off"
  shows "\<exists>t. time_at_price off p = Inr t"
proof (cases "p \<le> minPrice off")
  case True
  then show ?thesis using assms(3) by (simp add: time_at_price_def Let_def not_less)
next
  case False
  then show ?thesis using time_at_price_value [OF assms(1,2) _ assms(3)] by (auto simp: not_le)
qed

lemma price_lock_profitable:
  assumes lock: "price_lock cx config ord gas cycles jl = Inr (Lock l)"
    and off: "wf_offer (offer (request ord))" "offer_no_wrap (offer (request ord))"
      "0 < rampUpPeriod (offer (request ord))"
    and m: "lo_config_min_mcycle_price l \<noteq> 0"
    and ts: "lo_target_timestamp_secs l \<le> ts" "ts \<le> lock_deadline (offer (request ord))"
      "price_at (offer (request ord)) ts = Inr p"
  shows "unat (lo_config_min_mcycle_price l) * unat (lo_total_cycles l) + unat gas * 1000000 \<le> unat p * 1000000"
proof -
  let ?off = "offer (request ord)" and ?m = "lo_config_min_mcycle_price l"
  from price_lock_cases [OF lock] obtain qmin qmax where
    q: "price_per_mcycle (minPrice ?off) gas cycles = Inr qmin"
      "price_per_mcycle (maxPrice ?off) gas cycles = Inr qmax" "?m \<le> qmax" "lo_total_cycles l = cycles"
    and c: "?m \<le> qmin \<and> lo_target_timestamp_secs l = 0
        \<or> time_at_price ?off (target_min_price ?m gas cycles) = Inr (lo_target_timestamp_secs l)"
    by blast
  from c show ?thesis
  proof
    assume "?m \<le> qmin \<and> lo_target_timestamp_secs l = 0"
    then have "unat ?m * unat cycles + unat gas * 1000000 \<le> unat (minPrice ?off) * 1000000"
      using price_covers_cost [OF q(1)] m by simp
    moreover have "unat (minPrice ?off) \<le> unat p"
      using price_at_ge_min [OF off(1,2) ts(3,2)] by (simp add: word_le_nat_alt)
    ultimately show ?thesis using q(4) by simp
  next
    assume t: "time_at_price ?off (target_min_price ?m gas cycles) = Inr (lo_target_timestamp_secs l)"
    note tb = target_min_price_bounds [OF q(2,3) m]
    have "target_min_price ?m gas cycles \<le> p"
      using time_at_price_spec [OF off tb(1)] t ts by auto
    then have "unat (target_min_price ?m gas cycles) * 1000000 \<le> unat p * 1000000"
      by (simp add: word_le_nat_alt)
    then show ?thesis using tb(2) q(4) by simp
  qed
qed

text \<open>Pricing an order to lock never fails on the price computation: for a validated offer in
  range, a positive cycle count and a price minimum that converts, the result is to lock or to
  skip, and the target price it waits for never exceeds the maximum price.\<close>

theorem price_lock_total:
  assumes "wf_offer (offer (request ord))" "offer_no_wrap (offer (request ord))" "cycles \<noteq> 0"
    and "cx_convert_to_eth cx (min_mcycle_price_for config ord) = Inr eth"
  shows "price_lock cx config ord gas cycles jl = Inr (Skip SKIP_PRICE_TOO_LOW)
     \<or> (\<exists>l. price_lock cx config ord gas cycles jl = Inr (Lock l)
          \<and> (lo_target_timestamp_secs l = 0 \<or> lo_target_mcycle_price l \<le> maxPrice (offer (request ord))))"
proof -
  let ?off = "offer (request ord)" and ?m = "amount_value eth"
  have "ucast cycles \<noteq> (0 :: u256)"
    using assms(3) by (simp add: ucast_eq_0_iff)
  then obtain qmin qmax where q: "price_per_mcycle (minPrice ?off) gas cycles = Inr qmin"
    "price_per_mcycle (maxPrice ?off) gas cycles = Inr qmax"
    by (auto simp: price_per_mcycle_def ok_or_def checked_div_def)
  show ?thesis
  proof (cases "qmax < ?m")
    case True
    then show ?thesis using assms(4) q by (simp add: price_lock_def Let_def)
  next
    case False
    show ?thesis
    proof (cases "?m \<le> qmin")
      case True
      then show ?thesis using assms(4) q False by (simp add: price_lock_def Let_def price_at_def)
    next
      case lt: False
      then have "?m \<noteq> 0" by auto
      then have t: "target_min_price ?m gas cycles \<le> maxPrice ?off"
        using target_min_price_bounds(1) [OF q(2)] False by (simp add: not_less)
      have "\<exists>t. time_at_price ?off (target_min_price ?m gas cycles) = Inr t"
        using assms(1,2) t by (rule time_at_price_ok)
      then show ?thesis
        using assms(4) q False lt t
        by (auto simp: price_lock_def Let_def price_at_def target_min_price_def)
    qed
  qed
qed

section \<open>Accepted orders\<close>

text \<open>The contract between \<open>price_order\<close> and the checks a context supplies: a check that ends the
  pricing ends it with a skip. Both implementations of the trait satisfy it.\<close>

locale pricing_context =
  fixes cx :: OrderPricingContext
  assumes allowed_skips:
      "cx_check_requestor_allowed cx ord denied = Inr (Some outcome) \<Longrightarrow> \<exists>c. outcome = Skip c"
    and available_skips:
      "cx_check_request_available cx ord = Inr (Some outcome) \<Longrightarrow> \<exists>c. outcome = Skip c"
    and balances_skip:
      "cx_check_available_balances cx ord gas expired collateral = Inr (Some outcome) \<Longrightarrow> \<exists>c. outcome = Skip c"
begin

lemma checks_early: "price_checks cx ord = Inl (Inr outcome) \<Longrightarrow> \<exists>c. outcome = Skip c"
  by (auto simp: price_checks_def Let_def res_simps dest: allowed_skips available_skips)

lemma gas_early: "price_gas cx config ord = (ord1, Inl (Inr outcome)) \<Longrightarrow> \<exists>c. outcome = Skip c"
  by (auto simp: price_gas_def Let_def res_simps dest: balances_skip split: sum.splits prod.splits)

lemma preflight_early:
  "price_preflight cx config ord gas = (ord1, Inl (Inr outcome)) \<Longrightarrow> \<exists>c. outcome = Skip c"
  by (auto simp: price_preflight_def Let_def res_simps skip_def dest!: run_preflight_Inl
      split: sum.splits prod.splits if_splits option.splits)

lemma validate_early:
  "price_validate cx config ord gp gas prog journal = Inl (Inr outcome) \<Longrightarrow> \<exists>c. outcome = Skip c"
  by (auto simp: price_validate_def Let_def res_simps split: sum.splits if_splits)

text \<open>An outcome that is not a skip went through every stage.\<close>

lemma accepted_stages:
  assumes "price_order cx ord = (ord', Inr outcome)" "\<nexists>c. outcome = Skip c"
  obtains config ord1 gp gas0 cycles prog journal gas where
    "price_checks cx ord = Inr config"
    "price_gas cx config ord = (ord1, Inr (gp, gas0))"
    "price_preflight cx config ord1 gas0 = (ord', Inr (cycles, prog, journal))"
    "price_validate cx config ord' gp gas0 prog journal = Inr gas"
    "Inr outcome = (if lock_expired ord' then price_collateral cx config ord' cycles (length journal)
                    else price_lock cx config ord' gas cycles (length journal))"
  using assms
  by (fastforce simp: price_order_def dest: checks_early gas_early preflight_early validate_early
      split: sum.splits prod.splits)

end

text \<open>What the evaluator measured for the order: a cycle count and a journal.\<close>

definition evaluated :: "OrderPricingContext \<Rightarrow> OrderRequest \<Rightarrow> u64 \<Rightarrow> bytes \<Rightarrow> bool" where
  "evaluated cx ord cycles journal \<longleftrightarrow>
     (\<exists>limit e m prog inp. cx_evaluate_request cx (evaluation_request_from_order (cx_id_lib cx) ord) limit
        = Inr (EvalSuccess e m prog inp journal) \<and> cycles = normalized_units m)"

lemma stages_evaluated:
  assumes "price_gas cx config ord = (ord1, r)"
    and "price_preflight cx config ord1 gas = (ord', Inr (cycles, prog, journal))"
  shows "evaluated cx ord cycles journal"
  using price_preflight_Inr(4) [OF assms(2)] unfolding evaluated_def price_gas_evaluation [OF assms(1)] by blast

text \<open>The guards of \<open>price_order\<close> and of the execution limits, for an order of \<open>cycles\<close> cycles with
  a journal of \<open>journal_len\<close> bytes.\<close>

definition within_limits ::
    "OrderPricingContext \<Rightarrow> MarketConfig \<Rightarrow> OrderRequest \<Rightarrow> u64 \<Rightarrow> nat \<Rightarrow> bool" where
  "within_limits cx config ord cycles journal_len \<longleftrightarrow>
     (let left = unat (order_expiry ord) - unat (cx_now_price cx);
          reqs = requirements (request ord);
          ty = predicateType (predicate reqs)
      in unat (cfg_min_deadline config) < left
       \<and> (case cfg_max_order_expiry_secs config of None \<Rightarrow> True | Some m \<Rightarrow> left \<le> unat m)
       \<and> is_supported (cx_supported_selectors cx) (req_selector reqs)
       \<and> (\<not> cx_is_priority_requestor cx (client_address (request ord)) \<longrightarrow>
             unat cycles \<le> unat (cfg_max_mcycle_limit config) * 1000000)
       \<and> (case cfg_peak_prove_khz config of None \<Rightarrow> True | Some khz \<Rightarrow>
             cycles \<le> calculate_max_cycles_for_time khz (saturating_sub (order_expiry ord) (cx_now_limits cx)))
       \<and> min (unat (cfg_min_mcycle_limit config) * 1000000) (2 ^ 64 - 1) \<le> unat cycles
       \<and> (ty = PrefixMatchType \<or> ty = DigestMatchType \<longrightarrow> journal_len \<le> cfg_max_journal_bytes config)
       \<and> (is_blake3_groth16_selector (req_selector reqs) \<longrightarrow> journal_len = 32)
       \<and> (\<exists>p. predicate_try_from (predicate reqs) = Inr p))"

lemma price_checks_Inr:
  assumes "price_checks cx ord = Inr config"
  shows "cx_market_config cx = Inr config"
    and "unat (cfg_min_deadline config) < unat (order_expiry ord) - unat (cx_now_price cx)"
    and "case cfg_max_order_expiry_secs config of None \<Rightarrow> True
         | Some m \<Rightarrow> unat (order_expiry ord) - unat (cx_now_price cx) \<le> unat m"
    and "is_supported (cx_supported_selectors cx) (req_selector (requirements (request ord)))"
  using assms
  by (auto simp: price_checks_def Let_def res_simps not_less not_le word_less_nat_alt word_le_nat_alt
      unat_saturating_sub split: option.splits)

text \<open>The gas for a journal that goes on chain.\<close>

definition journal_gas :: "MarketConfig \<Rightarrow> OrderRequest \<Rightarrow> bytes \<Rightarrow> u64" where
  "journal_gas config ord journal =
     (if predicateType (predicate (requirements (request ord))) = ClaimDigestMatchType then 0
      else word_of_nat (length journal) * cfg_fulfill_journal_gas_per_byte config)"

lemma price_validate_Inr:
  assumes "price_validate cx config ord gp gas0 prog journal = Inr gas"
  defines "reqs \<equiv> requirements (request ord)"
  shows "predicateType (predicate reqs) = PrefixMatchType \<or> predicateType (predicate reqs) = DigestMatchType
           \<Longrightarrow> length journal \<le> cfg_max_journal_bytes config"
    and "is_blake3_groth16_selector (req_selector reqs) \<Longrightarrow> length journal = 32"
    and "\<exists>p. predicate_try_from (predicate reqs) = Inr p"
    and "\<not> lock_expired ord \<Longrightarrow> gas \<le> maxPrice (offer (request ord))"
    and "gas = gas0 + ucast gp * ucast (journal_gas config ord journal)"
  using assms(1) unfolding reqs_def
  by (auto simp: price_validate_def journal_gas_def Let_def res_simps not_less split: sum.splits if_splits)

context pricing_context
begin

lemma accepted_within_limits:
  assumes "price_order cx ord = (ord', Inr outcome)" "\<nexists>c. outcome = Skip c"
  shows "\<exists>config cycles journal. cx_market_config cx = Inr config \<and> evaluated cx ord cycles journal
     \<and> total_cycles ord' = Some cycles \<and> same_request ord' ord
     \<and> within_limits cx config ord cycles (length journal)"
proof -
  obtain config ord1 gp gas0 cycles prog journal gas where
    c: "price_checks cx ord = Inr config" and g: "price_gas cx config ord = (ord1, Inr (gp, gas0))"
    and p: "price_preflight cx config ord1 gas0 = (ord', Inr (cycles, prog, journal))"
    and v: "price_validate cx config ord' gp gas0 prog journal = Inr gas"
    using accepted_stages [OF assms] .
  have s1: "same_request ord1 ord" and s2: "same_request ord' ord1"
    using price_gas_order [OF g] price_preflight_order [OF p] by auto
  then have s: "same_request ord' ord" by (simp add: same_request_def)
  note s1s = same_request_simps [OF s1] and ss = same_request_simps [OF s]
  note C = price_checks_Inr [OF c]
  obtain pre limit reason where
    l: "calculate_exec_limits cx ord1 gas0 = Inr (pre, limit, reason)" "cycles \<le> limit"
    using price_preflight_Inr(2) [OF p] by blast
  note L = exec_limits_bounds [OF l(1) C(1)]
  have "min (unat (cfg_min_mcycle_limit config) * 1000000) (2 ^ 64 - 1) \<le> unat cycles"
    using price_preflight_Inr(3) [OF p] by (auto simp: word_le_nat_alt unat_saturating_mul)
  moreover have "unat cycles \<le> unat limit" using l(2) by (simp add: word_le_nat_alt)
  ultimately have "within_limits cx config ord cycles (length journal)"
    using C L price_validate_Inr [OF v] l(2)
    by (auto simp: within_limits_def Let_def s1s ss split: option.splits)
  then show ?thesis using C(1) price_preflight_Inr(1) [OF p] s stages_evaluated [OF g p] by blast
qed

end

lemma price_collateral_not_Lock: "Inr (Lock l) \<noteq> price_collateral cx config ord cycles jl"
proof
  assume "Inr (Lock l) = price_collateral cx config ord cycles jl"
  from this [symmetric] show False
    by (auto simp: price_collateral_def Let_def res_simps split: if_splits)
qed

lemma unat_gas_product: "unat (ucast (a :: u128) * ucast (b :: u64) :: u256) = unat a * unat b"
  and gas_product_bound: "unat (a :: u128) * unat (b :: u64) < 2 ^ 192"
proof -
  have "unat a * unat b < 2 ^ 128 * 2 ^ 64"
    using unat_lt [of a] unat_lt [of b] by (intro mult_strict_mono) auto
  then show b: "unat a * unat b < 2 ^ 192" by simp
  then have "unat a * unat b < 2 ^ 256" by simp
  then show "unat (ucast a * ucast b :: u256) = unat a * unat b" by (subst unat_mult_no_wrap) auto
qed

lemma unat_gas_sum:
  "unat (ucast (a :: u128) * ucast (b :: u64) + ucast a * ucast (c :: u64) :: u256) = unat a * (unat b + unat c)"
proof -
  have "unat (ucast a * ucast b :: u256) + unat (ucast a * ucast c :: u256) < 2 ^ 256"
    using gas_product_bound [of a b] gas_product_bound [of a c] by (simp add: unat_gas_product)
  then have "unat (ucast a * ucast b + ucast a * ucast c :: u256)
      = unat (ucast a * ucast b :: u256) + unat (ucast a * ucast c :: u256)"
    by (subst unat_add_no_wrap) auto
  then show ?thesis by (simp only: unat_gas_product distrib_left)
qed

context pricing_context
begin

lemma lock_profitable:
  assumes "price_order cx ord = (ord', Inr (Lock l))"
    and off: "wf_offer (offer (request ord))" "offer_no_wrap (offer (request ord))"
      "0 < rampUpPeriod (offer (request ord))"
  shows "\<exists>config eth cycles journal gp est cb. cx_market_config cx = Inr config
     \<and> cx_convert_to_eth cx (case overrides_resolve (cfg_pricing_overrides config) (client_address (request ord))
                                   (req_selector (requirements (request ord))) of
                               Some a \<Rightarrow> a | None \<Rightarrow> cfg_min_mcycle_price config) = Inr eth
     \<and> evaluated cx ord cycles journal \<and> total_cycles ord' = Some cycles
     \<and> cx_current_gas_price cx = Inr gp \<and> cx_estimate_gas_to_fulfill cx (request ord) = Inr est
     \<and> callback_gas (request ord) = Inr cb
     \<and> gas_estimate ord' = Some (cfg_lockin_gas_estimate config + cx_estimate_erc1271_gas cx ord + (est + cb))
     \<and> (amount_value eth \<noteq> 0 \<longrightarrow> (\<forall>ts p. lo_target_timestamp_secs l \<le> ts \<longrightarrow>
          ts \<le> lock_deadline (offer (request ord)) \<longrightarrow> price_at (offer (request ord)) ts = Inr p \<longrightarrow>
          unat (amount_value eth) * unat cycles
            + unat gp * (unat (cfg_lockin_gas_estimate config + cx_estimate_erc1271_gas cx ord + (est + cb))
                         + unat (journal_gas config ord journal)) * 1000000
          \<le> unat p * 1000000))"
proof -
  obtain config ord1 gp gas0 cycles prog journal gas where
    c: "price_checks cx ord = Inr config"
    and g: "price_gas cx config ord = (ord1, Inr (gp, gas0))"
    and p: "price_preflight cx config ord1 gas0 = (ord', Inr (cycles, prog, journal))"
    and v: "price_validate cx config ord' gp gas0 prog journal = Inr gas"
    and out: "Inr (Lock l) = (if lock_expired ord' then price_collateral cx config ord' cycles (length journal)
                    else price_lock cx config ord' gas cycles (length journal))"
    by (rule accepted_stages [OF assms(1)]) simp_all
  have s: "same_request ord' ord" and ge: "gas_estimate ord' = gas_estimate ord1"
    using price_gas_order [OF g] price_preflight_order [OF p] by (auto simp: same_request_def)
  note ss = same_request_simps [OF s]
  have ne: "\<not> lock_expired ord'" and pl: "price_lock cx config ord' gas cycles (length journal) = Inr (Lock l)"
    using out price_collateral_not_Lock by (auto split: if_splits)
  obtain est cb where e: "cx_estimate_gas_to_fulfill cx (request ord) = Inr est" "callback_gas (request ord) = Inr cb"
    "gas_estimate ord1 = Some (cfg_lockin_gas_estimate config + cx_estimate_erc1271_gas cx ord + (est + cb))"
    using price_gas_Inr(3) [OF g] ne ss by auto
  have gas: "unat gas = unat gp * (unat (cfg_lockin_gas_estimate config + cx_estimate_erc1271_gas cx ord + (est + cb))
      + unat (journal_gas config ord journal))"
    using price_gas_Inr(2) [OF g] price_validate_Inr(5) [OF v] e(3)
    by (simp add: journal_gas_def ss unat_gas_sum)
  obtain eth where eth: "cx_convert_to_eth cx (min_mcycle_price_for config ord) = Inr eth"
    "lo_config_min_mcycle_price l = amount_value eth" "lo_total_cycles l = cycles"
    using price_lock_cases [OF pl] ss by auto
  note prof = price_lock_profitable [OF pl, unfolded ss eth(2,3) gas, OF off]
  show ?thesis
    by (intro exI conjI allI impI, rule price_checks_Inr(1) [OF c], rule eth(1) [unfolded min_mcycle_price_for_def],
        rule stages_evaluated [OF g p], rule price_preflight_Inr(1) [OF p], rule price_gas_Inr(1) [OF g],
        rule e(1), rule e(2), rule trans [OF ge e(3)], rule prof)
qed

end


text \<open>C1: an order priced to be locked pays for itself: from the target time of the outcome until
  the lock deadline, the price of the offer covers the gas for locking, fulfilling, the callback and the
  journal at the current gas price, plus, for every million cycles the evaluator measured for the order,
  the minimum price: the override configured for the client and selector, or else the configured
  minimum, converted to ETH. This holds for a validated offer whose times do not wrap, whose ramp-up
  period is not zero, and for a converted minimum price that is not zero. The gas units are the code's
  64-bit sums.\<close>

theorem lock_outcome_profitable:
  assumes "pricing_context cx" "price_order cx ord = (ord', Inr (Lock l))"
    and "wf_offer (offer (request ord))" "offer_no_wrap (offer (request ord))"
      "0 < rampUpPeriod (offer (request ord))"
  shows "\<exists>config eth cycles journal gp est cb. cx_market_config cx = Inr config
     \<and> cx_convert_to_eth cx (case overrides_resolve (cfg_pricing_overrides config) (client_address (request ord))
                                   (req_selector (requirements (request ord))) of
                               Some a \<Rightarrow> a | None \<Rightarrow> cfg_min_mcycle_price config) = Inr eth
     \<and> evaluated cx ord cycles journal \<and> total_cycles ord' = Some cycles
     \<and> cx_current_gas_price cx = Inr gp \<and> cx_estimate_gas_to_fulfill cx (request ord) = Inr est
     \<and> callback_gas (request ord) = Inr cb
     \<and> gas_estimate ord' = Some (cfg_lockin_gas_estimate config + cx_estimate_erc1271_gas cx ord + (est + cb))
     \<and> (amount_value eth \<noteq> 0 \<longrightarrow> (\<forall>ts p. lo_target_timestamp_secs l \<le> ts \<longrightarrow>
          ts \<le> lock_deadline (offer (request ord)) \<longrightarrow> price_at (offer (request ord)) ts = Inr p \<longrightarrow>
          unat (amount_value eth) * unat cycles
            + unat gp * (unat (cfg_lockin_gas_estimate config + cx_estimate_erc1271_gas cx ord + (est + cb))
                         + unat (journal_gas config ord journal)) * 1000000
          \<le> unat p * 1000000))"
  using assms by (rule pricing_context.lock_profitable)

section \<open>A pricing context for the examples\<close>

definition sample_config :: MarketConfig where
  "sample_config =
     \<lparr>cfg_min_mcycle_price = \<lparr>amount_value = 20, amount_asset = ETH\<rparr>,
      cfg_expected_probability_win_secondary_fulfillment = 50,
      cfg_max_mcycle_limit = 8000, cfg_min_mcycle_limit = 1, cfg_priority_requestor_addresses = None,
      cfg_max_journal_bytes = 100, cfg_peak_prove_khz = Some 100, cfg_min_deadline = 10,
      cfg_max_collateral = \<lparr>amount_value = 50, amount_asset = ZKC\<rparr>,
      cfg_allow_client_addresses = None, cfg_allow_requestor_lists = None, cfg_deny_requestor_addresses = None,
      cfg_lockin_gas_estimate = 3, cfg_fulfill_gas_estimate = 4, cfg_commit_fulfillment_gas_estimate = 1,
      cfg_fulfill_journal_gas_per_byte = 2, cfg_groth16_verify_gas_estimate = 5,
      cfg_additional_proof_cycles = 100, cfg_max_concurrent_proofs = 2,
      cfg_max_commitment_duration_secs = 14400, cfg_max_concurrent_preflights = 4,
      cfg_order_pricing_priority = ObservationTime, cfg_order_commitment_priority = CommitShortestExpiry,
      cfg_pricing_overrides =
        \<lparr>by_requestor = Map.empty, by_proof_type = Map.empty, by_requestor_proof_type = Map.empty\<rparr>,
      cfg_max_order_expiry_secs = None, cfg_skip_gas_profitability_check = False\<rparr>"

definition sample_context :: OrderPricingContext where
  "sample_context =
     \<lparr>cx_market_config = Inr sample_config,
      cx_supported_selectors = supported_selectors_default False,
      cx_collateral_token_decimals = 18,
      cx_denied_requestor_addresses = Inr None,
      cx_check_requestor_allowed = (\<lambda>_ _. Inr None),
      cx_check_request_available = (\<lambda>_. Inr None),
      cx_estimate_gas_to_fulfill = (\<lambda>_. Inr 4),
      cx_additional_proof_cycles = (\<lambda>_. Inr 100),
      cx_is_priority_requestor = (\<lambda>_. False),
      cx_check_available_balances = (\<lambda>_ _ _ _. Inr None),
      cx_current_gas_price = Inr 1,
      cx_estimate_erc1271_gas = (\<lambda>_. 0),
      cx_convert_to_eth = (\<lambda>a. Inr a), cx_convert_to_zkc = (\<lambda>a. Inr \<lparr>amount_value = amount_value a, amount_asset = ZKC\<rparr>),
      cx_evaluate_request = (\<lambda>_ _. Inr (EvalSuccess ''e'' \<lparr>native_units = 2000000, normalized_units = 2000000\<rparr>
                                       ''image'' ''input'' [7])),
      cx_now_price = 1000, cx_now_limits = 1001, cx_now_lock = 1002,
      cx_id_lib = \<lparr>lib_eip712_hash = (\<lambda>_ _. 0), lib_hex = (\<lambda>_. ''1''), lib_hash_text = (\<lambda>_. ''0'')\<rparr>,
      cx_digest_from_hex = (\<lambda>_. Some (replicate 32 1)),
      cx_claim_ok = (\<lambda>i j. i @ j), cx_claim_pruned = (@)\<rparr>"

lemma sample_context_ok: "pricing_context sample_context"
  by unfold_locales (auto simp: sample_context_def)

lemmas sample_simps = sample_context_def sample_config_def sample_order_def order_request_new_def
  requirements_new_def UNSPECIFIED_SELECTOR_def

lemma sample_checks: "price_checks sample_context (sample_order LockAndFulfill) = Inr sample_config"
  by (simp add: price_checks_def guard_def lock_expired_def lockin_collateral_def order_expiry_def
        lock_expires_at_def sample_simps is_supported_iff proof_type_default saturating_sub_def scale_decimals_def)

definition sample_gassed :: OrderRequest where
  "sample_gassed = (sample_order LockAndFulfill)\<lparr>gas_estimate := Some 7, additional_proof_cycles := Some 100\<rparr>"

definition sample_priced :: OrderRequest where
  "sample_priced = sample_gassed\<lparr>image_id := Some ''image'', input_id := Some ''input'', total_cycles := Some 2000000\<rparr>"

lemma sample_gas: "price_gas sample_context sample_config (sample_order LockAndFulfill) = (sample_gassed, Inr (1, 7))"
  by (simp add: price_gas_def sample_simps sample_gassed_def callback_gas_def callback_as_option_def
        callback_is_none_def callback_none_def ok_or_def narrow_def narrow_sat_def lock_expired_def)

lemma sample_limits: "calculate_exec_limits sample_context sample_gassed 7 = Inr (5150000, 5150000, EthPricing 110 7 20)"
  by (simp add: calculate_exec_limits_def sample_simps sample_gassed_def overrides_resolve_def or_else_def scale_decimals_def
    collateral_based_limit_def ok_or_def collateral_reward_half div_ceil_def saturating_mul_def ONE_MILLION_def narrow_sat_def
    eth_based_limit_def saturating_sub_def cap_by_config_def cap_by_deadline_def calculate_max_cycles_for_time_def order_expiry_def
    lock_expires_at_def expires_at_def)

lemma sample_preflight: "price_preflight sample_context sample_config sample_gassed 7 = (sample_priced, Inr (2000000, ''image'', [7]))"
proof -
  have "cx_evaluate_request sample_context r l = Inr (EvalSuccess ''e'' \<lparr>native_units = 2000000, normalized_units = 2000000\<rparr>
                                       ''image'' ''input'' [7])" for r l by (simp add: sample_context_def)
  then show ?thesis
  by (simp add: price_preflight_def run_preflight_def sample_limits guard_def sample_priced_def sample_config_def saturating_mul_def)
qed

lemma sample_validate: "price_validate sample_context sample_config sample_priced 1 7 ''image'' [7] = Inr 9"
  by (simp add: price_validate_def sample_priced_def sample_gassed_def sample_simps guard_def lock_expired_def
     is_blake3_groth16_selector_def selector_ext_from_bytes_def selector_ext_try_from_def
    R0_GROTH16_BLAKE3_CLASS_ID_def predicate_try_from_def split_at_checked_def digest_try_from_def
    predicate_eval_def starts_with_def ok_or_def)

definition sample_lock_outcome :: LockOutcome where
  "sample_lock_outcome =
     \<lparr>lo_total_cycles = 2000000, lo_target_timestamp_secs = 1039, lo_expiry_secs = 1200,
      lo_target_mcycle_price = 49, lo_max_mcycle_price = 50, lo_config_min_mcycle_price = 20,
      lo_current_mcycle_price = 12, lo_journal_len = 1\<rparr>"

lemma sample_price_lock:
  "price_lock sample_context sample_config sample_priced 9 2000000 1 = Inr (Lock sample_lock_outcome)"
  by (simp add: price_lock_def sample_lock_outcome_def sample_priced_def sample_gassed_def sample_simps min_mcycle_price_for_def
    overrides_resolve_def or_else_def price_per_mcycle_def ok_or_def checked_div_def saturating_mul_def saturating_sub_def
    ONE_MILLION_def price_at_def price_at_time_def div_ceil_def time_at_price_def narrow_def)
lemma sample_lock:
  "price_order sample_context (sample_order LockAndFulfill) = (sample_priced, Inr (Lock sample_lock_outcome))"
proof -
  have "lock_expired sample_priced = False"
    by (simp add: lock_expired_def sample_priced_def sample_gassed_def sample_order_def order_request_new_def)
  then show ?thesis
    by (simp add: price_order_def sample_checks sample_gas sample_preflight sample_validate
          sample_price_lock [unfolded One_nat_def])
qed

lemma sample_order_offer:
  "wf_offer (offer (request (sample_order ft)))" "offer_no_wrap (offer (request (sample_order ft)))"
  "0 < rampUpPeriod (offer (request (sample_order ft)))"
  by (simp_all add: sample_order_def order_request_new_def wf_offer_def offer_no_wrap_def)


theorem lock_outcome_profitable_witness:
  "20 * 2000000 + (3 + 0 + (4 + 0) + 1 * 2) * 1000000 \<le> (49 * 1000000 :: nat)
     \<and> price_at (offer (request (sample_order LockAndFulfill))) 1039 = Inr 49"
proof -
  have ev: "evaluated sample_context (sample_order LockAndFulfill) c j \<longleftrightarrow> c = 2000000 \<and> j = [7]" for c j
    by (auto simp: evaluated_def sample_context_def)
  have o: "offer (request (sample_order LockAndFulfill)) =
     \<lparr>minPrice = 10, maxPrice = 110, rampUpStart = 1000, rampUpPeriod = 100,
      lockTimeout = 200, timeout = 300, lockCollateral = 7\<rparr>"
    by (simp add: sample_order_def order_request_new_def)
  have pr: "price_at (offer (request (sample_order LockAndFulfill))) 1039 = Inr 49"
    and dl: "(1039 :: u64) \<le> lock_deadline (offer (request (sample_order LockAndFulfill)))"
    by (simp_all add: o price_at_def price_at_time_def lock_deadline_def)
  show ?thesis
    using lock_outcome_profitable [OF sample_context_ok sample_lock sample_order_offer] pr dl
    by (auto simp: ev sample_lock_outcome_def)
qed

theorem exec_limits_sound_witness:
  "(5150000 :: u64) \<le> 5150000 \<and> unat (5150000 :: u64) \<le> unat (cfg_max_mcycle_limit sample_config) * 1000000"
proof -
  have "cx_market_config sample_context = Inr sample_config" by (simp add: sample_context_def)
  from exec_limits_sound [OF sample_limits this]
  have "\<not> cx_is_priority_requestor sample_context (client_address (request sample_gassed)) \<longrightarrow>
          unat (5150000 :: u64) \<le> unat (cfg_max_mcycle_limit sample_config) * 1000000" by blast
  then show ?thesis by (simp add: sample_context_def)
qed

theorem price_lock_total_witness:
  "price_lock sample_context sample_config (sample_order LockAndFulfill) 9 2000000 1 = Inr (Skip SKIP_PRICE_TOO_LOW)
   \<or> (\<exists>l. price_lock sample_context sample_config (sample_order LockAndFulfill) 9 2000000 1 = Inr (Lock l)
        \<and> (lo_target_timestamp_secs l = 0
           \<or> lo_target_mcycle_price l \<le> maxPrice (offer (request (sample_order LockAndFulfill)))))"
proof -
  have "cx_convert_to_eth sample_context (min_mcycle_price_for sample_config (sample_order LockAndFulfill))
     = Inr (min_mcycle_price_for sample_config (sample_order LockAndFulfill))"
    by (simp add: sample_context_def)
  from price_lock_total [OF sample_order_offer(1,2) _ this] show ?thesis by simp
qed

section \<open>Panics\<close>












section \<open>Gas of callbacks\<close>

text \<open>The default estimate includes the callback gas that \<open>price_order\<close> adds again.\<close>

lemma default_gas_counts_callback_twice:
  assumes "default_estimate_gas_to_fulfill (Inr config) supported req = Inr est" "callback_gas req = Inr cb"
    and "proof_type supported (req_selector (requirements req)) = Some ProofAny"
  shows "est + cb = cfg_fulfill_gas_estimate config + cb + cb"
proof -
  have "estimate_fulfill_gas_default config supported req = Inr (cfg_fulfill_gas_estimate config + cb)"
  proof -
    have "ok_or UnexpectedErr (proof_type supported (req_selector (requirements req))) = Inr ProofAny"
      using assms(3) by (simp add: ok_or_def)
    then show ?thesis
      by (simp add: estimate_fulfill_gas_default_def Let_def assms(2) [unfolded callback_gas_def]
            is_supported_iff assms(3))
  qed
  then have "est = cfg_fulfill_gas_estimate config + cb"
    using assms(1) by (simp add: default_estimate_gas_to_fulfill_def)
  then show ?thesis by simp
qed

end
