(* ===== verification/DynamicGas.thy ===== *)
theory DynamicGas
  imports Complex_Main Prelude
begin

text \<open>
  Gas prices: \<open>dynamic_gas_filler.rs\<close>. The priority modes, the EIP-1559 estimate computed from the
  fee history with its two corrections, and the filler that raises the price with the number of
  pending transactions. Constants and functions of alloy are the fields of \<open>alloy_fees\<close>, the
  answers of the node the fields of \<open>fee_chain\<close>. Percentiles, floating-point numbers in the
  source that are only passed on and compared with zero, are rationals.
\<close>

section \<open>Priority modes\<close>

record Eip1559Estimation =
  max_fee_per_gas :: u128
  max_priority_fee_per_gas :: u128

record alloy_fees =
  EIP1559_FEE_ESTIMATION_REWARD_PERCENTILE :: rat
  EIP1559_BASE_FEE_MULTIPLIER :: u128
  EIP1559_MIN_PRIORITY_FEE :: u128
  scale_by_pct :: "Eip1559Estimation \<Rightarrow> u64 \<Rightarrow> Eip1559Estimation"

record PriorityModeConfig =
  base_fee_multiplier_percentage :: u64
  priority_fee_multiplier_percentage :: u64
  priority_fee_percentile :: rat
  dynamic_multiplier_percentage :: u64
  min_priority_fee_wei :: u128

datatype PriorityMode = Low | Medium | High | Custom u64 u64 rat u64 u128

definition DEFAULT_BASE_FEE_MULTIPLIER_PERCENTAGE :: "alloy_fees \<Rightarrow> u64" where
  "DEFAULT_BASE_FEE_MULTIPLIER_PERCENTAGE al = ucast (EIP1559_BASE_FEE_MULTIPLIER al) * 100"

fun priority_mode_config :: "alloy_fees \<Rightarrow> PriorityMode \<Rightarrow> PriorityModeConfig" where
  "priority_mode_config al Low =
     \<lparr>base_fee_multiplier_percentage = DEFAULT_BASE_FEE_MULTIPLIER_PERCENTAGE al,
      priority_fee_multiplier_percentage = 100, priority_fee_percentile = 20,
      dynamic_multiplier_percentage = 3, min_priority_fee_wei = 0\<rparr>"
| "priority_mode_config al Medium =
     \<lparr>base_fee_multiplier_percentage = DEFAULT_BASE_FEE_MULTIPLIER_PERCENTAGE al,
      priority_fee_multiplier_percentage = 100, priority_fee_percentile = 30,
      dynamic_multiplier_percentage = 5, min_priority_fee_wei = 0\<rparr>"
| "priority_mode_config al High =
     \<lparr>base_fee_multiplier_percentage = 250,
      priority_fee_multiplier_percentage = 100, priority_fee_percentile = 50,
      dynamic_multiplier_percentage = 7, min_priority_fee_wei = 0\<rparr>"
| "priority_mode_config al (Custom base prio pct dyn min_fee) =
     \<lparr>base_fee_multiplier_percentage = base, priority_fee_multiplier_percentage = prio,
      priority_fee_percentile = pct, dynamic_multiplier_percentage = dyn, min_priority_fee_wei = min_fee\<rparr>"

section \<open>Fee estimation\<close>

definition estimate_priority_fee :: "alloy_fees \<Rightarrow> u128 list list \<Rightarrow> u128" where
  "estimate_priority_fee al rewards =
     (let rewards = filter (\<lambda>r. r > 0) (map hd (filter (\<lambda>r. r \<noteq> []) rewards)) in
      if rewards = [] then EIP1559_MIN_PRIORITY_FEE al
      else let rewards = sort rewards;
               mid = length rewards div 2;
               median = (if length rewards mod 2 = 0 then (rewards ! (mid - 1) + rewards ! mid) div 2
                         else rewards ! mid)
           in max median (EIP1559_MIN_PRIORITY_FEE al))"

definition fee_part :: "u128 \<Rightarrow> u64 \<Rightarrow> u128" where
  "fee_part fee percentage = saturating_mul fee (ucast percentage) div 100"

definition estimator_estimate ::
    "alloy_fees \<Rightarrow> PriorityModeConfig \<Rightarrow> u128 \<Rightarrow> u128 list list \<Rightarrow> Eip1559Estimation" where
  "estimator_estimate al c base_fee rewards =
     (let max_priority_fee = estimate_priority_fee al rewards;
          scaled_priority_fee = fee_part max_priority_fee (priority_fee_multiplier_percentage c);
          potential_max_fee = fee_part base_fee (base_fee_multiplier_percentage c)
      in \<lparr>max_fee_per_gas = potential_max_fee + scaled_priority_fee,
          max_priority_fee_per_gas = scaled_priority_fee\<rparr>)"

datatype TransportError = Transport | NullResp | UnsupportedFeature

text \<open>The node: \<open>eth_feeHistory\<close> at a percentile (base fee of the latest block, rewards), the base
  fee of the latest block if there is such a block, \<open>eth_maxPriorityFeePerGas\<close>, \<open>eth_gasPrice\<close> and
  the two nonces of the sender.\<close>

record fee_chain =
  fee_history :: "rat \<Rightarrow> TransportError + u128 option \<times> u128 list list option"
  latest_block :: "TransportError + u64 option option"
  suggested_priority_fee :: "TransportError + u128"
  gas_price_rpc :: "TransportError + u128"
  confirmed_nonce :: "TransportError + u64"
  pending_nonce :: "TransportError + u64"

definition reward_percentile :: "alloy_fees \<Rightarrow> PriorityModeConfig \<Rightarrow> rat" where
  "reward_percentile al c =
     (if priority_fee_percentile c = 0 then EIP1559_FEE_ESTIMATION_REWARD_PERCENTILE al
      else priority_fee_percentile c)"

definition base_fee_per_gas :: "fee_chain \<Rightarrow> u128 option \<Rightarrow> TransportError + u128" where
  "base_fee_per_gas ch history_base =
     (let from_block = res_bind (latest_block ch) (\<lambda>b. res_bind (ok_or NullResp b) (\<lambda>header.
            res_bind (ok_or UnsupportedFeature header) (\<lambda>fee. Inr (ucast fee))))
      in case history_base of
           Some base_fee \<Rightarrow> if base_fee \<noteq> 0 then Inr base_fee else from_block
         | None \<Rightarrow> from_block)"

text \<open>The two corrections: a near-zero tip is replaced by the node's suggestion, and a tip below
  the configured floor by the floor.\<close>

definition raise_priority_fee ::
    "PriorityModeConfig \<Rightarrow> u128 \<Rightarrow> u128 \<Rightarrow> Eip1559Estimation \<Rightarrow> Eip1559Estimation" where
  "raise_priority_fee c base_fee fee est =
     \<lparr>max_fee_per_gas = max (max_fee_per_gas est) (fee_part base_fee (base_fee_multiplier_percentage c) + fee),
      max_priority_fee_per_gas = fee\<rparr>"

definition suggestion_fallback ::
    "fee_chain \<Rightarrow> PriorityModeConfig \<Rightarrow> u128 \<Rightarrow> Eip1559Estimation \<Rightarrow> Eip1559Estimation" where
  "suggestion_fallback ch c base_fee est =
     (if max_priority_fee_per_gas est \<le> 1 then
        (case suggested_priority_fee ch of
           Inr suggested \<Rightarrow>
             if suggested > max_priority_fee_per_gas est then raise_priority_fee c base_fee suggested est
             else est
         | Inl _ \<Rightarrow> est)
      else est)"

definition floor_priority_fee :: "PriorityModeConfig \<Rightarrow> u128 \<Rightarrow> Eip1559Estimation \<Rightarrow> Eip1559Estimation" where
  "floor_priority_fee c base_fee est =
     (if min_priority_fee_wei c > 0 \<and> max_priority_fee_per_gas est < min_priority_fee_wei c
      then raise_priority_fee c base_fee (min_priority_fee_wei c) est
      else est)"

definition estimate_eip1559_fees ::
    "alloy_fees \<Rightarrow> fee_chain \<Rightarrow> PriorityModeConfig \<Rightarrow> TransportError + Eip1559Estimation" where
  "estimate_eip1559_fees al ch c =
     res_bind (fee_history ch (reward_percentile al c)) (\<lambda>(history_base, rewards).
     res_bind (base_fee_per_gas ch history_base) (\<lambda>base_fee.
     Inr (floor_priority_fee c base_fee
       (suggestion_fallback ch c base_fee
         (estimator_estimate al c base_fee (case rewards of Some r \<Rightarrow> r | None \<Rightarrow> []))))))"

definition estimate_max_fee_per_gas :: "alloy_fees \<Rightarrow> fee_chain \<Rightarrow> PriorityMode \<Rightarrow> TransportError + u128" where
  "estimate_max_fee_per_gas al ch mode =
     (case estimate_eip1559_fees al ch (priority_mode_config al mode) of
        Inr estimation \<Rightarrow> Inr (max_fee_per_gas estimation)
      | Inl _ \<Rightarrow> gas_price_rpc ch)"

section \<open>Filling a transaction\<close>

datatype GasFillable = FillLegacy u64 u128 | FillEip1559 u64 Eip1559Estimation

record DynamicGasParams =
  fillable :: GasFillable
  multiplier :: u64

record gas_fields =
  tx_gas_limit :: u64
  tx_gas_price :: "u128 option"
  tx_max_fee :: "u128 option"
  tx_priority_fee :: "u128 option"

text \<open>\<open>gas_filler\<close> is alloy's \<open>GasFiller.prepare\<close> for the transaction at hand, which asks the
  overriding provider for its estimate.\<close>

definition filler_prepare ::
    "alloy_fees \<Rightarrow> fee_chain \<Rightarrow> (TransportError + Eip1559Estimation \<Rightarrow> TransportError + GasFillable)
      \<Rightarrow> PriorityMode \<Rightarrow> TransportError + DynamicGasParams" where
  "filler_prepare al ch gas_filler mode =
     (let priority_config = priority_mode_config al mode in
      res_bind (gas_filler (estimate_eip1559_fees al ch priority_config)) (\<lambda>f.
      res_bind (confirmed_nonce ch) (\<lambda>confirmed.
      res_bind (pending_nonce ch) (\<lambda>pending.
      let tx_diff = saturating_sub pending confirmed
      in Inr \<lparr>fillable = f,
              multiplier = saturating_mul tx_diff (dynamic_multiplier_percentage priority_config)\<rparr>))))"

definition adjusted_gas_limit :: "u64 \<Rightarrow> u64 \<Rightarrow> u64" where
  "adjusted_gas_limit additional gas_limit = saturating_mul gas_limit (100 + additional) div 100"

definition filler_fill :: "alloy_fees \<Rightarrow> u64 \<Rightarrow> DynamicGasParams \<Rightarrow> gas_fields" where
  "filler_fill al additional_gas_limit_percentage params =
     (case fillable params of
        FillLegacy gas_limit gas_price \<Rightarrow>
          \<lparr>tx_gas_limit = adjusted_gas_limit additional_gas_limit_percentage gas_limit,
           tx_gas_price = Some (saturating_mul gas_price (100 + ucast (multiplier params)) div 100),
           tx_max_fee = None, tx_priority_fee = None\<rparr>
      | FillEip1559 gas_limit estimate \<Rightarrow>
          (let estimate' = scale_by_pct al estimate (multiplier params) in
           \<lparr>tx_gas_limit = adjusted_gas_limit additional_gas_limit_percentage gas_limit,
            tx_gas_price = None, tx_max_fee = Some (max_fee_per_gas estimate'),
            tx_priority_fee = Some (max_priority_fee_per_gas estimate')\<rparr>))"

section \<open>What an estimate guarantees\<close>

text \<open>The fee cap leaves room for the multiplied base fee and the whole tip.\<close>

definition fees_cover :: "PriorityModeConfig \<Rightarrow> u128 \<Rightarrow> Eip1559Estimation \<Rightarrow> bool" where
  "fees_cover c base_fee est \<longleftrightarrow>
     unat (fee_part base_fee (base_fee_multiplier_percentage c)) + unat (max_priority_fee_per_gas est)
       \<le> unat (max_fee_per_gas est)"

text \<open>The amounts whose sum with the multiplied base fee the code computes.\<close>

definition fees_fit :: "alloy_fees \<Rightarrow> fee_chain \<Rightarrow> PriorityModeConfig \<Rightarrow> u128 \<Rightarrow> u128 list list \<Rightarrow> bool" where
  "fees_fit al ch c base_fee rewards \<longleftrightarrow>
     (let part = unat (fee_part base_fee (base_fee_multiplier_percentage c)) in
      part + unat (fee_part (estimate_priority_fee al rewards) (priority_fee_multiplier_percentage c)) < 2 ^ 128
      \<and> part + unat (min_priority_fee_wei c) < 2 ^ 128
      \<and> (case suggested_priority_fee ch of Inr s \<Rightarrow> part + unat s < 2 ^ 128 | Inl _ \<Rightarrow> True))"

lemma raise_covers:
  assumes "unat (fee_part base_fee (base_fee_multiplier_percentage c)) + unat fee < 2 ^ 128"
  shows "fees_cover c base_fee (raise_priority_fee c base_fee fee est)"
proof -
  let ?p = "fee_part base_fee (base_fee_multiplier_percentage c)"
  have "unat (?p + fee) = unat ?p + unat fee"
    using assms by (intro unat_add_no_wrap) simp
  then show ?thesis
    by (simp add: fees_cover_def raise_priority_fee_def max_def word_le_nat_alt)
qed

lemma estimate_covers:
  assumes "fees_fit al ch c base_fee rewards"
  shows "fees_cover c base_fee (floor_priority_fee c base_fee
     (suggestion_fallback ch c base_fee (estimator_estimate al c base_fee rewards)))"
proof -
  have "fees_cover c base_fee (estimator_estimate al c base_fee rewards)"
    using assms by (simp add: fees_cover_def estimator_estimate_def fees_fit_def Let_def unat_add_no_wrap)
  then have "fees_cover c base_fee (suggestion_fallback ch c base_fee (estimator_estimate al c base_fee rewards))"
    using assms raise_covers
    by (auto simp: suggestion_fallback_def fees_fit_def Let_def split: sum.split)
  then show ?thesis
    using assms raise_covers by (auto simp: floor_priority_fee_def fees_fit_def Let_def)
qed

lemma floor_respected: "min_priority_fee_wei c \<le> max_priority_fee_per_gas (floor_priority_fee c base_fee est)"
  by (auto simp: floor_priority_fee_def raise_priority_fee_def not_less word_gt_0)

text \<open>C40: the fee cap of an estimate covers the base fee with its multiplier and the whole tip,
  also after the tip was replaced by the node's suggestion or by the configured floor, and the
  tip is never below that floor. The sums fit 128 bits.\<close>

theorem fee_estimate_covers:
  assumes "estimate_eip1559_fees al ch c = Inr est"
    and "fee_history ch (reward_percentile al c) = Inr (hb, rewards)"
    and "base_fee_per_gas ch hb = Inr base_fee"
    and "fees_fit al ch c base_fee (case rewards of Some r \<Rightarrow> r | None \<Rightarrow> [])"
  shows "unat (fee_part base_fee (base_fee_multiplier_percentage c)) + unat (max_priority_fee_per_gas est)
           \<le> unat (max_fee_per_gas est)
       \<and> min_priority_fee_wei c \<le> max_priority_fee_per_gas est"
proof -
  have "est = floor_priority_fee c base_fee (suggestion_fallback ch c base_fee
     (estimator_estimate al c base_fee (case rewards of Some r \<Rightarrow> r | None \<Rightarrow> [])))"
    using assms(1-3) by (simp add: estimate_eip1559_fees_def)
  then show ?thesis
    using estimate_covers [OF assms(4)] floor_respected by (simp add: fees_cover_def)
qed

definition sample_alloy :: alloy_fees where
  "sample_alloy = \<lparr>EIP1559_FEE_ESTIMATION_REWARD_PERCENTILE = 20, EIP1559_BASE_FEE_MULTIPLIER = 2,
     EIP1559_MIN_PRIORITY_FEE = 1, scale_by_pct = (\<lambda>e _. e)\<rparr>"

definition sample_fee_chain :: fee_chain where
  "sample_fee_chain = \<lparr>fee_history = (\<lambda>_. Inr (Some 1000, Some [[7], [], [0], [3], [5]])),
     latest_block = Inr None, suggested_priority_fee = Inr 9, gas_price_rpc = Inr 50,
     confirmed_nonce = Inr 4, pending_nonce = Inr 6\<rparr>"

lemma sample_estimate:
  "estimate_eip1559_fees sample_alloy sample_fee_chain (priority_mode_config sample_alloy (Custom 150 100 0 5 8))
     = Inr \<lparr>max_fee_per_gas = 1508, max_priority_fee_per_gas = 8\<rparr>"
  by (simp add: estimate_eip1559_fees_def sample_alloy_def sample_fee_chain_def reward_percentile_def
      base_fee_per_gas_def estimator_estimate_def estimate_priority_fee_def fee_part_def saturating_mul_def
      suggestion_fallback_def floor_priority_fee_def raise_priority_fee_def word_le_nat_alt max_def)

theorem fee_estimate_covers_witness:
  "unat (fee_part 1000 150) + unat (8 :: u128) \<le> unat (1508 :: u128) \<and> (8 :: u128) \<le> 8"
  using fee_estimate_covers [OF sample_estimate, of "Some 1000" "Some [[7], [], [0], [3], [5]]" 1000]
  by (simp add: sample_alloy_def sample_fee_chain_def base_fee_per_gas_def fees_fit_def fee_part_def
      saturating_mul_def estimate_priority_fee_def)

section \<open>The median tip\<close>

text \<open>The tips that count: the first reward of each block, zeros left out.\<close>

definition positive_tips :: "u128 list list \<Rightarrow> u128 list" where
  "positive_tips rewards = filter (\<lambda>r. r > 0) (map hd (filter (\<lambda>r. r \<noteq> []) rewards))"

lemma avg_between:
  fixes a b lo hi :: u128
  assumes "lo \<le> a" "a \<le> b" "b \<le> hi" "unat a + unat b < 2 ^ 128"
  shows "lo \<le> (a + b) div 2 \<and> (a + b) div 2 \<le> hi"
proof -
  have "unat (a + b) = unat a + unat b" using assms(4) by (intro unat_add_no_wrap) simp
  then have "unat ((a + b) div 2) = (unat a + unat b) div 2" by (simp add: unat_div_distrib)
  moreover have "unat lo \<le> (unat a + unat b) div 2" "(unat a + unat b) div 2 \<le> unat hi"
    using assms by (simp_all add: word_le_nat_alt)
  ultimately show ?thesis by (simp add: word_le_nat_alt)
qed

text \<open>The estimated tip does not depend on the order of the blocks in the history, and lies
  between the smallest and the largest positive tip or is alloy's minimum. Tips are below half
  the range of their type.\<close>

theorem priority_fee_median:
  assumes "\<forall>r\<in>set (positive_tips rewards). lo \<le> r \<and> r \<le> hi" "unat hi < 2 ^ 127"
  shows "(mset rewards' = mset rewards \<longrightarrow> estimate_priority_fee al rewards' = estimate_priority_fee al rewards)
       \<and> (positive_tips rewards \<noteq> [] \<longrightarrow>
            max lo (EIP1559_MIN_PRIORITY_FEE al) \<le> estimate_priority_fee al rewards
            \<and> estimate_priority_fee al rewards \<le> max hi (EIP1559_MIN_PRIORITY_FEE al))"
proof (intro conjI impI)
  assume "mset rewards' = mset rewards"
  then have "mset (positive_tips rewards') = mset (positive_tips rewards)"
    by (simp add: positive_tips_def)
  then have "sort (positive_tips rewards') = sort (positive_tips rewards)"
      "(positive_tips rewards' = []) = (positive_tips rewards = [])"
    by (auto intro: properties_for_sort)
  then show "estimate_priority_fee al rewards' = estimate_priority_fee al rewards"
    by (simp add: estimate_priority_fee_def Let_def flip: positive_tips_def)
next
  assume ne: "positive_tips rewards \<noteq> []"
  define s where "s = sort (positive_tips rewards)"
  define mid where "mid = length s div 2"
  have len: "0 < length s" using ne by (simp add: s_def)
  then have mid: "mid < length s" by (simp add: mid_def)
  have b: "lo \<le> s ! i \<and> s ! i \<le> hi" if "i < length s" for i
    using assms(1) nth_mem [OF that] by (simp add: s_def)
  have "lo \<le> (if length s mod 2 = 0 then (s ! (mid - 1) + s ! mid) div 2 else s ! mid)
      \<and> (if length s mod 2 = 0 then (s ! (mid - 1) + s ! mid) div 2 else s ! mid) \<le> hi"
  proof (cases "length s mod 2 = 0")
    case True
    have le: "s ! (mid - 1) \<le> s ! mid"
      using mid by (intro sorted_nth_mono) (simp_all add: s_def)
    have "s ! mid \<le> hi" "s ! (mid - 1) \<le> hi" using b mid by simp_all
    then have "unat (s ! (mid - 1)) + unat (s ! mid) < 2 ^ 128"
      using assms(2) by (simp add: word_le_nat_alt)
    then have "lo \<le> (s ! (mid - 1) + s ! mid) div 2 \<and> (s ! (mid - 1) + s ! mid) div 2 \<le> hi"
      using b mid by (intro avg_between [OF _ le]) auto
    then show ?thesis using True by simp
  next
    case False
    then show ?thesis using b [OF mid] by simp
  qed
  moreover have "estimate_priority_fee al rewards =
      max (if length s mod 2 = 0 then (s ! (mid - 1) + s ! mid) div 2 else s ! mid) (EIP1559_MIN_PRIORITY_FEE al)"
    using ne by (simp add: estimate_priority_fee_def Let_def s_def mid_def flip: positive_tips_def)
  ultimately show "max lo (EIP1559_MIN_PRIORITY_FEE al) \<le> estimate_priority_fee al rewards"
      and "estimate_priority_fee al rewards \<le> max hi (EIP1559_MIN_PRIORITY_FEE al)"
    by (auto simp: le_max_iff_disj)
qed

theorem priority_fee_median_witness:
  "5 \<le> estimate_priority_fee sample_alloy [[7], [], [0], [5], [6]]
   \<and> estimate_priority_fee sample_alloy [[7], [], [0], [5], [6]] \<le> 7"
  using priority_fee_median [of "[[7], [], [0], [5], [6]]" 5 7 "[[7], [], [0], [5], [6]]" sample_alloy]
  by (simp add: positive_tips_def sample_alloy_def)

text \<open>The percentage of the gas limit is an increase: 120 more than doubles the limit.\<close>

lemma gas_limit_percentage_is_increase:
  "unat gas_limit * (100 + unat additional) < 2 ^ 64 \<Longrightarrow> 100 + unat additional < 2 ^ 64 \<Longrightarrow>
     unat (adjusted_gas_limit additional gas_limit) = unat gas_limit * (100 + unat additional) div 100"
  by (simp add: adjusted_gas_limit_def unat_simps unat_div_distrib unat_add_no_wrap)

end
