(* ===== verification/RequestorPricing.thy ===== *)
theory RequestorPricing
  imports OrderPricing DynamicGas
begin

text \<open>
  The preflight of a requestor: \<open>prover_utils/requestor_pricing.rs\<close>, the first implementation of
  the pricing context, and the fallback of \<open>price_provider.rs\<close>. A requestor prices its own request
  before submitting it, once as an order to lock and once as an order to fulfill after the lock
  expires, with the default configuration of a prover. The evaluator, the node and the price
  provider are parameters.
\<close>

section \<open>The configuration\<close>

record PricePercentiles =
  p10 :: u256
  p25 :: u256
  p50 :: u256
  p75 :: u256
  p90 :: u256
  p95 :: u256
  p99 :: u256

type_synonym percentiles_result = "unit + PricePercentiles"

text \<open>\<open>price_percentiles\<close> of the standard provider: the default, then the fallback if there is
  one.\<close>

definition standard_price_percentiles ::
    "percentiles_result \<Rightarrow> percentiles_result option \<Rightarrow> percentiles_result" where
  "standard_price_percentiles default_result fallback =
     (case default_result of
        Inr p \<Rightarrow> Inr p
      | Inl e \<Rightarrow> (case fallback of Some r \<Rightarrow> r | None \<Rightarrow> Inl e))"

definition build_market_config :: "u256_parser \<Rightarrow> percentiles_result option \<Rightarrow> MarketConfig option" where
  "build_market_config u256_from_str price_provider =
     (case price_provider of
        None \<Rightarrow> market_config_default u256_from_str
      | Some percentiles \<Rightarrow>
          (let min_mcycle_price = (case percentiles of
                  Inr p \<Rightarrow> saturating_mul (p10 p) ONE_MILLION
                | Inl _ \<Rightarrow> 0)
           in map_option
                (\<lambda>c. c\<lparr>cfg_min_mcycle_price := \<lparr>amount_value = min_mcycle_price, amount_asset = ETH\<rparr>\<rparr>)
                (market_config_default u256_from_str)))"

section \<open>The context\<close>

record RequestorPricingContext =
  rq_alloy :: alloy_fees
  rq_node :: fee_chain
  rq_code :: "address \<Rightarrow> bytes"
  rq_estimate_erc1271 :: "OrderRequest \<Rightarrow> u64 option"
  rq_erc1271_gas_cache :: "address \<rightharpoonup> u64"
  rq_evaluator :: "EvaluationRequest \<Rightarrow> u64 \<Rightarrow> OrderPricingError + RequestEvaluation"
  rq_market_config :: MarketConfig
  rq_supported_selectors :: SupportedSelectors
  rq_collateral_token_decimals :: u8
  rq_price_oracle :: "(TradingPair \<Rightarrow> rate_result) option"
  rq_id_lib :: id_lib
  rq_digest_from_hex :: "string \<Rightarrow> digest option"
  rq_claim_ok :: "digest \<Rightarrow> bytes \<Rightarrow> digest"
  rq_claim_pruned :: "digest \<Rightarrow> digest \<Rightarrow> digest"

text \<open>The readings of the clock during one pricing.\<close>

record pricing_clock =
  at_start :: u64
  at_limits :: u64
  at_lock :: u64

definition rq_current_gas_price :: "RequestorPricingContext \<Rightarrow> OrderPricingError + u128" where
  "rq_current_gas_price r =
     (case estimate_max_fee_per_gas (rq_alloy r) (rq_node r) Medium of
        Inl _ \<Rightarrow> Inl RpcErr | Inr fee \<Rightarrow> Inr fee)"

definition oracle_convert :: "(TradingPair \<Rightarrow> rate_result) \<Rightarrow> Amount \<Rightarrow> Asset \<Rightarrow> OrderPricingError + Amount" where
  "oracle_convert rates amount target =
     (case manager_convert rates amount target of Inl _ \<Rightarrow> Inl UnexpectedErr | Inr a \<Rightarrow> Inr a)"

definition rq_convert_to_eth :: "RequestorPricingContext \<Rightarrow> Amount \<Rightarrow> OrderPricingError + Amount" where
  "rq_convert_to_eth r amount =
     (if amount_asset amount = ETH then Inr amount
      else case rq_price_oracle r of
             None \<Rightarrow> Inr \<lparr>amount_value = 0, amount_asset = ETH\<rparr>
           | Some rates \<Rightarrow> oracle_convert rates amount ETH)"

definition rq_convert_to_zkc :: "RequestorPricingContext \<Rightarrow> Amount \<Rightarrow> OrderPricingError + Amount" where
  "rq_convert_to_zkc r amount =
     (if amount_asset amount = ZKC then Inr amount
      else case rq_price_oracle r of
             None \<Rightarrow> Inr \<lparr>amount_value = - 1, amount_asset = ZKC\<rparr>
           | Some rates \<Rightarrow> oracle_convert rates amount ZKC)"

definition requestor_context :: "RequestorPricingContext \<Rightarrow> pricing_clock \<Rightarrow> OrderPricingContext" where
  "requestor_context r clock =
     \<lparr>cx_market_config = Inr (rq_market_config r),
      cx_supported_selectors = rq_supported_selectors r,
      cx_collateral_token_decimals = rq_collateral_token_decimals r,
      cx_denied_requestor_addresses = Inr None,
      cx_check_requestor_allowed = (\<lambda>_ _. Inr None),
      cx_check_request_available = (\<lambda>_. Inr None),
      cx_estimate_gas_to_fulfill =
        default_estimate_gas_to_fulfill (Inr (rq_market_config r)) (rq_supported_selectors r),
      cx_additional_proof_cycles = default_cx_additional_proof_cycles (Inr (rq_market_config r)),
      cx_is_priority_requestor = (\<lambda>_. False),
      cx_check_available_balances = (\<lambda>_ _ _ _. Inr None),
      cx_current_gas_price = rq_current_gas_price r,
      cx_estimate_erc1271_gas = (\<lambda>ord.
        fst (estimate_erc1271_gas (rq_code r) (rq_estimate_erc1271 r) (rq_erc1271_gas_cache r) ord)),
      cx_convert_to_eth = rq_convert_to_eth r,
      cx_convert_to_zkc = rq_convert_to_zkc r,
      cx_evaluate_request = rq_evaluator r,
      cx_now_price = at_start clock, cx_now_limits = at_limits clock, cx_now_lock = at_lock clock,
      cx_id_lib = rq_id_lib r, cx_digest_from_hex = rq_digest_from_hex r,
      cx_claim_ok = rq_claim_ok r, cx_claim_pruned = rq_claim_pruned r\<rparr>"

text \<open>The checks of the requestor never end a pricing, so the contract of the pricing holds.\<close>

interpretation rq: pricing_context "requestor_context r clock"
  by unfold_locales (simp_all add: requestor_context_def)

section \<open>The preflight\<close>

datatype PreflightError = DecimalsFailed | ConfigPanic | LockPricingFailed OrderPricingError
  | ExpirePricingFailed OrderPricingError

text \<open>\<open>new\<close> of the context, and the preflight: \<open>env\<close> holds what the caller passes in, \<open>decimals\<close> is
  the answer of the market contract.\<close>

definition requestor_new ::
    "RequestorPricingContext \<Rightarrow> bool \<Rightarrow> u8 \<Rightarrow> MarketConfig \<Rightarrow> RequestorPricingContext" where
  "requestor_new env is_dev_mode decimals config =
     env\<lparr>rq_supported_selectors := supported_selectors_default is_dev_mode,
         rq_collateral_token_decimals := decimals, rq_market_config := config,
         rq_erc1271_gas_cache := Map.empty\<rparr>"

definition requestor_order_preflight ::
    "RequestorPricingContext \<Rightarrow> bool \<Rightarrow> u256_parser \<Rightarrow> (unit + u8) \<Rightarrow> percentiles_result option
      \<Rightarrow> u64 \<Rightarrow> pricing_clock \<Rightarrow> pricing_clock \<Rightarrow> ProofRequest \<Rightarrow> address \<Rightarrow> u64
      \<Rightarrow> PreflightError + u64 option" where
  "requestor_order_preflight env is_dev_mode u256_from_str decimals price_provider
       now lock_clock expire_clock req market_address chain =
     (case decimals of
        Inl _ \<Rightarrow> Inl DecimalsFailed
      | Inr collateral_token_decimals \<Rightarrow>
     (case build_market_config u256_from_str price_provider of
        None \<Rightarrow> Inl ConfigPanic
      | Some market_config \<Rightarrow>
     (let r = requestor_new env is_dev_mode collateral_token_decimals market_config;
          lock_order = order_request_new now req [] LockAndFulfill market_address chain;
          expire_order = order_request_new now req [] FulfillAfterLockExpire market_address chain
      in case snd (price_order (requestor_context r lock_clock) lock_order) of
           Inl e \<Rightarrow> Inl (LockPricingFailed e)
         | Inr lock_outcome \<Rightarrow>
             (let after_lock = (case lock_outcome of Lock l \<Rightarrow> Some (lo_total_cycles l) | _ \<Rightarrow> None)
              in case snd (price_order (requestor_context r expire_clock) expire_order) of
                   Inl e \<Rightarrow> Inl (ExpirePricingFailed e)
                 | Inr expire_outcome \<Rightarrow>
                     Inr (case expire_outcome of
                            ProveAfterLockExpire a \<Rightarrow> Some (ae_total_cycles a)
                          | _ \<Rightarrow> after_lock)))))"

section \<open>What the preflight reports\<close>

text \<open>The cycle count of an outcome is the one recorded on the order.\<close>

lemma price_lock_cycles: "price_lock cx config ord gas cycles n = Inr (Lock l) \<Longrightarrow> lo_total_cycles l = cycles"
  by (cases "price_at (offer (request ord)) (cx_now_lock cx)")
    (auto simp: price_lock_def Let_def res_simps split: if_splits sum.splits)

lemma price_collateral_cycles:
  "price_collateral cx config ord cycles n = Inr (ProveAfterLockExpire a) \<Longrightarrow> ae_total_cycles a = cycles"
  by (auto simp: price_collateral_def Let_def res_simps split: if_splits)

lemma price_lock_not_expire: "price_lock cx config ord gas cycles n \<noteq> Inr (ProveAfterLockExpire a)"
  by (cases "price_at (offer (request ord)) (cx_now_lock cx)")
    (auto simp: price_lock_def Let_def res_simps split: if_splits sum.splits)

fun outcome_cycles :: "OrderPricingOutcome \<Rightarrow> u64 option" where
  "outcome_cycles (Lock l) = Some (lo_total_cycles l)"
| "outcome_cycles (ProveAfterLockExpire a) = Some (ae_total_cycles a)"
| "outcome_cycles (Skip _) = None"

context pricing_context
begin

lemma outcome_cycles_recorded:
  assumes "price_order cx ord = (ord', Inr outcome)" "outcome_cycles outcome = Some c"
  shows "total_cycles ord' = Some c"
    and "\<exists>config n. cx_market_config cx = Inr config \<and> within_limits cx config ord c n"
    and "\<exists>q l e m p i out. cx_evaluate_request cx q l = Inr (EvalSuccess e m p i out) \<and> c = normalized_units m"
proof -
  have ns: "\<nexists>code. outcome = Skip code" using assms(2) by auto
  obtain config ord1 gp gas0 cycles prog journal gas where
    p: "price_preflight cx config ord1 gas0 = (ord', Inr (cycles, prog, journal))"
    and o: "Inr outcome = (if lock_expired ord' then price_collateral cx config ord' cycles (length journal)
                    else price_lock cx config ord' gas cycles (length journal))"
    using accepted_stages [OF assms(1) ns] .
  have "c = cycles"
    using o assms(2) price_collateral_not_Lock price_lock_not_expire
    by (cases outcome) (auto dest!: sym [where s = "Inr _"] dest: price_lock_cycles price_collateral_cycles split: if_splits)
  then show tc: "total_cycles ord' = Some c"
      and "\<exists>q l e m p i out. cx_evaluate_request cx q l = Inr (EvalSuccess e m p i out) \<and> c = normalized_units m"
    using price_preflight_Inr(1,4) [OF p] by blast+
  show "\<exists>config n. cx_market_config cx = Inr config \<and> within_limits cx config ord c n"
    using accepted_within_limits [OF assms(1) ns] tc by auto
qed

end

text \<open>A cycle count reported by the preflight was measured by the evaluator, and lies within the
  limits a prover with the preflight's configuration applies to the request.\<close>

theorem preflight_cycles_measured:
  assumes "requestor_order_preflight env dev parser decimals provider now lock_clock expire_clock req market chain
             = Inr (Some c)"
  shows "\<exists>config. build_market_config parser provider = Some config
     \<and> unat c \<le> unat (cfg_max_mcycle_limit config) * 1000000
     \<and> (\<exists>q l e m p i out. rq_evaluator env q l = Inr (EvalSuccess e m p i out) \<and> c = normalized_units m)"
proof -
  obtain d config where d: "decimals = Inr d" and b: "build_market_config parser provider = Some config"
    using assms by (auto simp: requestor_order_preflight_def split: sum.splits option.splits)
  define r where "r = requestor_new env dev d config"
  obtain clock ord outcome where o: "snd (price_order (requestor_context r clock) ord) = Inr outcome"
    and c: "outcome_cycles outcome = Some c"
    using assms
    by (auto simp: requestor_order_preflight_def d b Let_def r_def [symmetric]
        split: sum.splits OrderPricingOutcome.splits)
  obtain ord' where po: "price_order (requestor_context r clock) ord = (ord', Inr outcome)"
    using o by (cases "price_order (requestor_context r clock) ord") auto
  note rec = pricing_context.outcome_cycles_recorded [OF rq.pricing_context_axioms po c]
  have "unat c \<le> unat (cfg_max_mcycle_limit config) * 1000000"
    using rec(2) by (auto simp: within_limits_def Let_def requestor_context_def r_def requestor_new_def)
  moreover have "cx_evaluate_request (requestor_context r clock) = rq_evaluator env"
    by (simp add: requestor_context_def r_def requestor_new_def)
  ultimately show ?thesis using b rec(3) by auto
qed

section \<open>Without a price oracle\<close>

lemma div_ceil_max: "div_ceil (v :: u256) (- 1) \<le> 1"
proof -
  have "unat v \<le> 1 * unat (- 1 :: u256)"
    using unat_lt [of v] by (simp add: unat_max_word)
  then have "(unat v + unat (- 1 :: u256) - 1) div unat (- 1 :: u256) \<le> 1"
    by (subst div_ceil_bound_iff) (simp_all add: unat_max_word)
  then show ?thesis by (simp add: word_le_nat_alt unat_div_ceil)
qed

lemma narrow_sat_le_1:
  assumes "(v :: u256) \<le> 1"
  shows "(narrow_sat v :: u64) \<le> 1"
proof -
  have "unat v \<le> 1" using assms by (simp add: word_le_nat_alt)
  then show ?thesis by (simp add: word_le_nat_alt unat_narrow_sat)
qed

lemma exec_limit_max_price:
  assumes lim: "calculate_exec_limits cx ord gas = Inr (pre, limit, reason)" and exp: "lock_expired ord"
    and cfg: "cx_market_config cx = Inr config" "cx_collateral_token_decimals cx = 18"
    and zkc: "cx_convert_to_zkc cx (cfg_min_mcycle_price config) = Inr \<lparr>amount_value = - 1, amount_asset = ZKC\<rparr>"
  shows "limit \<le> 1"
proof -
  let ?prio = "cx_is_priority_requestor cx (client_address (request ord))"
  obtain coll reward where c: "collateral_based_limit config ord (- 1) = Inr coll"
    and l: "(pre, limit, reason) =
       (case cfg_peak_prove_khz config of
          None \<Rightarrow> cap_by_config config ?prio (coll, coll, CollateralPricing reward (- 1))
        | Some khz \<Rightarrow> cap_by_deadline ord (cx_now_limits cx) khz
            (cap_by_config config ?prio (coll, coll, CollateralPricing reward (- 1))))"
  proof (cases "cfg_peak_prove_khz config")
    case None
    then show ?thesis
      using that lim exp
      by (simp add: calculate_exec_limits_def Let_def res_simps cfg zkc scale_decimals_def lock_expired_def) metis
  next
    case (Some khz)
    then show ?thesis
      using that lim exp
      by (simp add: calculate_exec_limits_def Let_def res_simps cfg zkc scale_decimals_def lock_expired_def) metis
  qed
  have "coll \<le> 1"
    using c by (auto simp: collateral_based_limit_def Let_def res_simps intro!: narrow_sat_le_1 div_ceil_max)
  moreover have "limits_ordered (coll, coll, CollateralPricing reward (- 1))"
    "deadline_reason_ok (coll, coll, CollateralPricing reward (- 1))" by simp_all
  note cc = cap_by_config_ok [OF this, where config = config and prio = ?prio]
  have "fst (snd (pre, limit, reason)) \<le> coll"
    unfolding l using cc(4) cap_by_deadline_ok(4) [OF cc(1,2), of ord "cx_now_limits cx"]
    by (auto split: option.split intro: order_trans)
  ultimately show ?thesis by (auto intro: order_trans)
qed

text \<open>Without a price oracle the requestor replaces a price it cannot convert to the collateral
  token by the largest number, so the pricing of a request for fulfillment after the lock
  expires never succeeds, for a price in ETH or US dollars and a collateral token of eighteen
  decimals.\<close>

theorem no_oracle_no_secondary:
  assumes "rq_price_oracle r = None" "amount_asset (cfg_min_mcycle_price (rq_market_config r)) \<noteq> ZKC"
    and "rq_collateral_token_decimals r = 18" "fulfillment_type ord = FulfillAfterLockExpire"
  shows "snd (price_order (requestor_context r clock) ord) \<noteq> Inr (ProveAfterLockExpire a)"
proof
  let ?cx = "requestor_context r clock"
  assume o: "snd (price_order ?cx ord) = Inr (ProveAfterLockExpire a)"
  obtain ord' where po: "price_order ?cx ord = (ord', Inr (ProveAfterLockExpire a))"
    using o by (cases "price_order ?cx ord") auto
  have ns: "\<nexists>c. ProveAfterLockExpire a = Skip c" by simp
  obtain config ord1 gp gas0 cycles prog journal where
    c: "price_checks ?cx ord = Inr config" and g: "price_gas ?cx config ord = (ord1, Inr (gp, gas0))"
    and p: "price_preflight ?cx config ord1 gas0 = (ord', Inr (cycles, prog, journal))"
    using rq.accepted_stages [OF po ns] .
  have exp: "lock_expired ord1"
    using same_request_simps(2) [OF price_gas_order [OF g]] assms(4) by (simp add: lock_expired_def)
  have cfg: "cx_market_config ?cx = Inr (rq_market_config r)" "cx_collateral_token_decimals ?cx = 18"
    "cx_convert_to_zkc ?cx (cfg_min_mcycle_price (rq_market_config r)) = Inr \<lparr>amount_value = - 1, amount_asset = ZKC\<rparr>"
    using assms(1-3) by (simp_all add: requestor_context_def rq_convert_to_zkc_def)
  obtain pre limit reason where l: "calculate_exec_limits ?cx ord1 gas0 = Inr (pre, limit, reason)" "2 \<le> limit"
    using price_preflight_Inr(2) [OF p] by blast
  have "limit \<le> 1" using exec_limit_max_price [OF l(1) exp cfg(1,2,3)] .
  with l(2) show False by (simp add: word_le_nat_alt)
qed

section \<open>Examples\<close>

definition sample_requestor :: RequestorPricingContext where
  "sample_requestor =
     \<lparr>rq_alloy = sample_alloy, rq_node = sample_fee_chain, rq_code = (\<lambda>_. []),
      rq_estimate_erc1271 = (\<lambda>_. None), rq_erc1271_gas_cache = Map.empty,
      rq_evaluator = (\<lambda>_ _. Inr (EvalSuccess ''e'' \<lparr>native_units = 2000000, normalized_units = 2000000\<rparr>
                         ''image'' ''input'' [7])),
      rq_market_config = sample_config, rq_supported_selectors = supported_selectors_default False,
      rq_collateral_token_decimals = 18, rq_price_oracle = None,
      rq_id_lib = \<lparr>lib_eip712_hash = (\<lambda>_ _. 0), lib_hex = (\<lambda>_. ''1''), lib_hash_text = (\<lambda>_. ''0'')\<rparr>,
      rq_digest_from_hex = (\<lambda>_. Some (replicate 32 1)),
      rq_claim_ok = (\<lambda>i j. i @ j), rq_claim_pruned = (@)\<rparr>"

theorem no_oracle_no_secondary_witness:
  "\<forall>a. snd (price_order (requestor_context sample_requestor \<lparr>at_start = 1000, at_limits = 1001, at_lock = 1002\<rparr>)
     (sample_order FulfillAfterLockExpire)) \<noteq> Inr (ProveAfterLockExpire a)"
  by (intro allI, rule no_oracle_no_secondary)
    (simp_all add: sample_requestor_def sample_config_def sample_order_def order_request_new_def)

text \<open>A preflight at a market price of zero.\<close>

definition free_market :: "percentiles_result option" where
  "free_market = Some (Inr \<lparr>p10 = 0, p25 = 0, p50 = 0, p75 = 0, p90 = 0, p95 = 0, p99 = 0\<rparr>)"

definition preflight_config :: MarketConfig where
  "preflight_config =
     (the (market_config_default read_dec))\<lparr>cfg_min_mcycle_price := \<lparr>amount_value = 0, amount_asset = ETH\<rparr>\<rparr>"

lemma free_market_config: "build_market_config read_dec free_market = Some preflight_config"
  using market_config_default_Some [OF u256_text_dec]
  by (auto simp: build_market_config_def free_market_def preflight_config_def saturating_mul_def)

lemma preflight_config_fields:
  "cfg_min_mcycle_price preflight_config = \<lparr>amount_value = 0, amount_asset = ETH\<rparr>"
  "cfg_max_collateral preflight_config = \<lparr>amount_value = 10000000, amount_asset = USD\<rparr>"
  "cfg_min_deadline preflight_config = 195" "cfg_max_order_expiry_secs preflight_config = None"
  "cfg_max_mcycle_limit preflight_config = 8000" "cfg_min_mcycle_limit preflight_config = 0"
  "cfg_peak_prove_khz preflight_config = None" "cfg_max_journal_bytes preflight_config = 10000"
  "cfg_lockin_gas_estimate preflight_config = 200000" "cfg_fulfill_gas_estimate preflight_config = 420000"
  "cfg_commit_fulfillment_gas_estimate preflight_config = 50000"
  "cfg_fulfill_journal_gas_per_byte preflight_config = 26"
  "cfg_additional_proof_cycles preflight_config = 2270000"
  "cfg_pricing_overrides preflight_config =
     \<lparr>by_requestor = Map.empty, by_proof_type = Map.empty, by_requestor_proof_type = Map.empty\<rparr>"
  "cfg_expected_probability_win_secondary_fulfillment preflight_config = 50"
proof -
  obtain c where c: "market_config_default read_dec = Some c"
      "cfg_max_collateral c = \<lparr>amount_value = 10000000, amount_asset = USD\<rparr>"
    using market_config_default_Some [OF u256_text_dec] by blast
  have pc: "preflight_config = c\<lparr>cfg_min_mcycle_price := \<lparr>amount_value = 0, amount_asset = ETH\<rparr>\<rparr>"
    by (simp add: preflight_config_def c)
  note d = c(1) [unfolded market_config_default_def]
  show "cfg_min_mcycle_price preflight_config = \<lparr>amount_value = 0, amount_asset = ETH\<rparr>"
    "cfg_max_collateral preflight_config = \<lparr>amount_value = 10000000, amount_asset = USD\<rparr>"
    by (simp_all add: pc c)
  show "cfg_min_deadline preflight_config = 195" "cfg_max_order_expiry_secs preflight_config = None"
  "cfg_max_mcycle_limit preflight_config = 8000" "cfg_min_mcycle_limit preflight_config = 0"
  "cfg_peak_prove_khz preflight_config = None" "cfg_max_journal_bytes preflight_config = 10000"
  "cfg_lockin_gas_estimate preflight_config = 200000" "cfg_fulfill_gas_estimate preflight_config = 420000"
  "cfg_commit_fulfillment_gas_estimate preflight_config = 50000"
  "cfg_fulfill_journal_gas_per_byte preflight_config = 26"
  "cfg_additional_proof_cycles preflight_config = 2270000"
  "cfg_pricing_overrides preflight_config =
     \<lparr>by_requestor = Map.empty, by_proof_type = Map.empty, by_requestor_proof_type = Map.empty\<rparr>"
  "cfg_expected_probability_win_secondary_fulfillment preflight_config = 50"
    using d unfolding pc
    by (auto simp: default_deadlines split: sum.splits
      simp: default_max_order_expiry_secs_def default_max_mcycle_limit_def default_min_mcycle_limit_def
      default_max_journal_bytes_def default_lockin_gas_estimate_def default_fulfill_gas_estimate_def
      default_commit_fulfillment_gas_estimate_def default_fulfill_journal_gas_per_byte_def
      default_additional_proof_cycles_def default_expected_probability_win_secondary_fulfillment_def)
qed

definition preflight_request :: ProofRequest where
  "preflight_request = (request (sample_order LockAndFulfill))
     \<lparr>offer := \<lparr>minPrice = 10000000000, maxPrice = 20000000000, rampUpStart = 1000, rampUpPeriod = 100,
               lockTimeout = 600, timeout = 900, lockCollateral = 7\<rparr>\<rparr>"

definition preflight_clock :: pricing_clock where
  "preflight_clock = \<lparr>at_start = 1000, at_limits = 1001, at_lock = 1002\<rparr>"

definition preflight_context :: OrderPricingContext where
  "preflight_context = requestor_context (requestor_new sample_requestor False 18 preflight_config) preflight_clock"

definition preflight_order :: "FulfillmentType \<Rightarrow> OrderRequest" where
  "preflight_order ft = order_request_new 1000 preflight_request [] ft 9 1"

lemma preflight_context_fields:
  "cx_market_config preflight_context = Inr preflight_config"
  "cx_supported_selectors preflight_context = supported_selectors_default False"
  "cx_collateral_token_decimals preflight_context = 18"
  "cx_denied_requestor_addresses preflight_context = Inr None"
  "cx_check_requestor_allowed preflight_context = (\<lambda>_ _. Inr None)"
  "cx_check_request_available preflight_context = (\<lambda>_. Inr None)"
  "cx_estimate_gas_to_fulfill preflight_context =
     estimate_fulfill_gas_default preflight_config (supported_selectors_default False)"
  "cx_additional_proof_cycles preflight_context = (\<lambda>_. Inr 2270000)"
  "cx_is_priority_requestor preflight_context = (\<lambda>_. False)"
  "cx_check_available_balances preflight_context = (\<lambda>_ _ _ _. Inr None)"
  "cx_current_gas_price preflight_context = Inr 2005"
  "cx_convert_to_eth preflight_context a = (if amount_asset a = ETH then Inr a else Inr \<lparr>amount_value = 0, amount_asset = ETH\<rparr>)"
  "cx_convert_to_zkc preflight_context a = (if amount_asset a = ZKC then Inr a else Inr \<lparr>amount_value = - 1, amount_asset = ZKC\<rparr>)"
  "cx_evaluate_request preflight_context = (\<lambda>_ _. Inr (EvalSuccess ''e'' \<lparr>native_units = 2000000, normalized_units = 2000000\<rparr>
                         ''image'' ''input'' [7]))"
  "cx_now_price preflight_context = 1000" "cx_now_limits preflight_context = 1001" "cx_now_lock preflight_context = 1002"
  "cx_digest_from_hex preflight_context = (\<lambda>_. Some (replicate 32 1))"
  "cx_claim_ok preflight_context = (\<lambda>i j. i @ j)"
proof -
  have "estimate_max_fee_per_gas sample_alloy sample_fee_chain Medium = Inr 2005"
    by (simp add: estimate_max_fee_per_gas_def estimate_eip1559_fees_def sample_alloy_def sample_fee_chain_def
        reward_percentile_def base_fee_per_gas_def estimator_estimate_def estimate_priority_fee_def fee_part_def
        saturating_mul_def suggestion_fallback_def floor_priority_fee_def word_le_nat_alt max_def
        DEFAULT_BASE_FEE_MULTIPLIER_PERCENTAGE_def)
  then show "cx_current_gas_price preflight_context = Inr 2005"
    by (simp add: preflight_context_def requestor_context_def requestor_new_def sample_requestor_def rq_current_gas_price_def)
qed (auto simp: preflight_context_def requestor_context_def requestor_new_def sample_requestor_def preflight_clock_def
    default_estimate_gas_to_fulfill_def default_cx_additional_proof_cycles_def rq_convert_to_eth_def rq_convert_to_zkc_def
    preflight_config_fields fun_eq_iff)

lemmas preflight_order_simps = preflight_order_def preflight_request_def sample_order_def order_request_new_def
  requirements_new_def UNSPECIFIED_SELECTOR_def

lemma preflight_erc1271: "cx_estimate_erc1271_gas preflight_context (preflight_order ft) = 0"
  by (simp add: preflight_context_def requestor_context_def requestor_new_def estimate_erc1271_gas_def
      preflight_order_simps is_smart_contract_signed_def request_id_u256_def sample_requestor_def
      from_lossy_pack request_id_new_def)

lemma preflight_checks: "price_checks preflight_context (preflight_order ft) = Inr preflight_config"
  by (cases ft) (simp_all add: price_checks_def guard_def lock_expired_def lockin_collateral_def order_expiry_def
        lock_expires_at_def expires_at_def preflight_order_simps preflight_context_fields preflight_config_fields
        is_supported_iff proof_type_default saturating_sub_def scale_decimals_def)

definition preflight_gassed :: OrderRequest where
  "preflight_gassed = (preflight_order LockAndFulfill)\<lparr>gas_estimate := Some 620000, additional_proof_cycles := Some 2270000\<rparr>"

definition preflight_expire_gassed :: OrderRequest where
  "preflight_expire_gassed =
     (preflight_order FulfillAfterLockExpire)\<lparr>gas_estimate := Some 470000, additional_proof_cycles := Some 2270000\<rparr>"

definition preflight_priced :: OrderRequest where
  "preflight_priced = preflight_gassed\<lparr>image_id := Some ''image'', input_id := Some ''input'', total_cycles := Some 2000000\<rparr>"

lemma preflight_gas:
  "price_gas preflight_context preflight_config (preflight_order LockAndFulfill) = (preflight_gassed, Inr (2005, 1243100000))"
  "price_gas preflight_context preflight_config (preflight_order FulfillAfterLockExpire) =
     (preflight_expire_gassed, Inr (2005, 942350000))"
proof -
  have cb: "callback_gas (request (preflight_order ft)) = Inr 0" for ft
    by (simp add: callback_gas_def callback_as_option_def callback_is_none_def callback_none_def ok_or_def
        narrow_def preflight_order_simps)
  have est: "estimate_fulfill_gas_default preflight_config (supported_selectors_default False)
       (request (preflight_order ft)) = Inr 420000" for ft
    by (simp add: estimate_fulfill_gas_default_def preflight_config_fields is_supported_iff proof_type_default
        callback_as_option_def callback_is_none_def callback_none_def ok_or_def narrow_def preflight_order_simps)
  have ft: "fulfillment_type (preflight_order ft) = ft" for ft by (simp add: preflight_order_simps)
  show "price_gas preflight_context preflight_config (preflight_order LockAndFulfill) = (preflight_gassed, Inr (2005, 1243100000))"
    by (simp add: price_gas_def preflight_context_fields preflight_config_fields est cb preflight_erc1271
        lock_expired_def ft narrow_sat_def preflight_gassed_def)
  show "price_gas preflight_context preflight_config (preflight_order FulfillAfterLockExpire) =
     (preflight_expire_gassed, Inr (2005, 942350000))"
    by (simp add: price_gas_def preflight_context_fields preflight_config_fields est cb preflight_erc1271
        lock_expired_def ft narrow_sat_def preflight_expire_gassed_def)
qed

lemma div_ceil_zero: "div_ceil (v :: u256) (- 1) = (if v = 0 then 0 else 1)" if "v < - 1"
proof -
  have "unat v < unat (- 1 :: u256)" using that by (simp add: word_less_nat_alt)
  then have "v div - 1 = 0" "v mod - 1 = v"
    using that by (simp_all add: word_unat_eq_iff unat_div_distrib unat_mod_distrib)
  then show ?thesis by (simp add: div_ceil_def)
qed

lemma preflight_limits:
  "calculate_exec_limits preflight_context preflight_gassed 1243100000
     = Inr (8000000000, 8000000000, ConfigCap 8000)"
  by (simp add: calculate_exec_limits_def preflight_context_fields preflight_config_fields preflight_gassed_def
    preflight_order_simps overrides_resolve_def or_else_def scale_decimals_def
    collateral_based_limit_def ok_or_def collateral_reward_half div_ceil_zero saturating_mul_def ONE_MILLION_def narrow_sat_def
    eth_based_limit_def saturating_sub_def cap_by_config_def)

lemma preflight_preflight:
  "price_preflight preflight_context preflight_config preflight_gassed 1243100000
     = (preflight_priced, Inr (2000000, ''image'', [7]))"
  by (simp add: price_preflight_def run_preflight_def preflight_limits guard_def preflight_priced_def
      preflight_context_fields preflight_config_fields)

lemma preflight_validate:
  "price_validate preflight_context preflight_config preflight_priced 2005 1243100000 ''image'' [7] = Inr 1243152130"
  by (simp add: price_validate_def preflight_priced_def preflight_gassed_def preflight_order_simps
    preflight_context_fields preflight_config_fields guard_def lock_expired_def
    is_blake3_groth16_selector_def selector_ext_from_bytes_def selector_ext_try_from_def
    R0_GROTH16_BLAKE3_CLASS_ID_def predicate_try_from_def split_at_checked_def digest_try_from_def
    predicate_eval_def starts_with_def ok_or_def)

lemma preflight_lock:
  "\<exists>l. price_lock preflight_context preflight_config preflight_priced 1243152130 2000000 (Suc 0) = Inr (Lock l)"
  by (simp add: price_lock_def preflight_priced_def preflight_gassed_def preflight_order_simps
    preflight_context_fields preflight_config_fields min_mcycle_price_for_def
    overrides_resolve_def or_else_def price_per_mcycle_def ok_or_def checked_div_def saturating_mul_def saturating_sub_def
    ONE_MILLION_def price_at_def)

lemma preflight_lock_order:
  "\<exists>l. snd (price_order preflight_context (preflight_order LockAndFulfill)) = Inr (Lock l) \<and> lo_total_cycles l = 2000000"
proof -
  obtain l where l: "price_lock preflight_context preflight_config preflight_priced 1243152130 2000000 (Suc 0) = Inr (Lock l)"
    using preflight_lock by blast
  have "lock_expired preflight_priced = False"
    by (simp add: lock_expired_def preflight_priced_def preflight_gassed_def preflight_order_simps)
  then show ?thesis
    using price_lock_cycles [OF l]
    by (simp add: price_order_def preflight_checks preflight_gas preflight_preflight preflight_validate l)
qed

lemma preflight_expire_order:
  "\<exists>c. snd (price_order preflight_context (preflight_order FulfillAfterLockExpire)) = Inr (Skip c)"
proof -
  have le: "limit \<le> 1" if "calculate_exec_limits preflight_context preflight_expire_gassed 942350000 = Inr (pre, limit, reason)"
    for pre limit reason
    by (rule exec_limit_max_price [OF that, where config = preflight_config]) (simp_all add: preflight_context_fields preflight_config_fields
        preflight_expire_gassed_def preflight_order_simps lock_expired_def)
  have "\<exists>l. calculate_exec_limits preflight_context preflight_expire_gassed 942350000 = Inr l"
    by (simp add: calculate_exec_limits_def preflight_context_fields preflight_config_fields preflight_expire_gassed_def
      preflight_order_simps overrides_resolve_def or_else_def collateral_based_limit_def ok_or_def collateral_reward_half
      scale_decimals_def Let_def cap_by_config_def)
  then obtain pre limit reason where
    l: "calculate_exec_limits preflight_context preflight_expire_gassed 942350000 = Inr (pre, limit, reason)" by auto
  have "limit < 2" using le [OF l] by (simp add: word_le_nat_alt word_less_nat_alt)
  then have "run_preflight preflight_context preflight_expire_gassed 942350000 = Inl (Inr (Skip SKIP_CYCLE_LIMIT_FROM_REWARD))"
    by (simp add: run_preflight_def l guard_def skip_def)
  then show ?thesis
    by (simp add: price_order_def preflight_checks preflight_gas price_preflight_def)
qed

lemma preflight_reports:
  "requestor_order_preflight sample_requestor False read_dec (Inr 18) free_market 1000 preflight_clock preflight_clock
     preflight_request 9 1 = Inr (Some 2000000)"
proof -
  obtain l c where "snd (price_order preflight_context (preflight_order LockAndFulfill)) = Inr (Lock l)" "lo_total_cycles l = 2000000"
    "snd (price_order preflight_context (preflight_order FulfillAfterLockExpire)) = Inr (Skip c)"
    using preflight_lock_order preflight_expire_order by blast
  then show ?thesis
    by (simp add: requestor_order_preflight_def free_market_config Let_def flip: preflight_context_def preflight_order_def)
qed

theorem preflight_cycles_measured_witness:
  "\<exists>config. build_market_config read_dec free_market = Some config
     \<and> unat (2000000 :: u64) \<le> unat (cfg_max_mcycle_limit config) * 1000000
     \<and> (\<exists>q l e m p i out. rq_evaluator sample_requestor q l = Inr (EvalSuccess e m p i out) \<and> 2000000 = normalized_units m)"
  by (rule preflight_cycles_measured [OF preflight_reports])

end
