(* ===== verification/Backend.thy ===== *)
theory Backend
  imports Selector OrderTypes
begin

text \<open>
  The proving backends behind the broker: the snapshot of the on-chain router registry
  (\<open>contracts/router_registry.rs\<close>), the policy a backend derives from it (\<open>router_policy.rs\<close> of
  \<open>boundless-backend\<close>), the methods of a backend the broker calls (\<open>types.rs\<close>) and the router that
  dispatches a selector to a backend (\<open>router.rs\<close>).

  A \<open>HashMap\<close> whose keys are iterated is an association list without duplicate keys, in order of
  insertion; nothing proved depends on that order. Error texts are left out.
\<close>

section \<open>The router registry\<close>

record RouterEntry =
  implementation :: address
  class_id :: selector
  gas_limit :: u64

record RouterRegistry =
  default_class_id :: selector
  entries :: "selector \<rightharpoonup> RouterEntry"
  required_assessor :: "selector \<rightharpoonup> selector"

definition resolve_verifier_class :: "RouterRegistry \<Rightarrow> selector \<Rightarrow> selector option" where
  "resolve_verifier_class reg sel =
     (if sel = UNSPECIFIED_SELECTOR then
        (if default_class_id reg \<noteq> 0 then Some (default_class_id reg) else None)
      else case entries reg sel of
        Some entry \<Rightarrow> Some (class_id entry)
      | None \<Rightarrow> if required_assessor reg sel \<noteq> None then Some sel else None)"

definition required_assessor_class :: "RouterRegistry \<Rightarrow> selector \<Rightarrow> selector option" where
  "required_assessor_class reg cls =
     (case required_assessor reg cls of
        Some c \<Rightarrow> if c \<noteq> 0 then Some c else None
      | None \<Rightarrow> None)"

section \<open>The router policy\<close>

record RouterPolicy =
  registry :: RouterRegistry
  assessor_priority :: "selector list"
  producible :: "(selector \<times> selector) list"
  class_to_producible :: "(selector \<times> selector) list"
  supported_classes :: "selector list"

definition map_insert :: "'k \<Rightarrow> 'v \<Rightarrow> ('k \<times> 'v) list \<Rightarrow> ('k \<times> 'v) list" where
  "map_insert k v m =
     (if map_of m k = None then m @ [(k, v)] else map (\<lambda>(k', w). (k', if k' = k then v else w)) m)"

definition or_insert :: "'k \<Rightarrow> 'v \<Rightarrow> ('k \<times> 'v) list \<Rightarrow> ('k \<times> 'v) list" where
  "or_insert k v m = (if map_of m k = None then m @ [(k, v)] else m)"

fun collect_producible ::
    "RouterRegistry \<Rightarrow> (selector \<times> selector) list \<Rightarrow> (selector \<times> selector) list \<times> (selector \<times> selector) list
      \<Rightarrow> (selector \<times> selector) list \<times> (selector \<times> selector) list" where
  "collect_producible reg [] acc = acc"
| "collect_producible reg ((sel, produced) # rest) (prd, cls) =
     (case entries reg sel of
        Some entry \<Rightarrow>
          collect_producible reg rest (map_insert sel produced prd, or_insert (class_id entry) produced cls)
      | None \<Rightarrow> collect_producible reg rest (prd, cls))"

definition assessor_for_verifier_class :: "RouterPolicy \<Rightarrow> selector \<Rightarrow> selector option" where
  "assessor_for_verifier_class p verifier_class =
     (case required_assessor_class (registry p) verifier_class of
        None \<Rightarrow> None
      | Some assessor_class \<Rightarrow>
          find (\<lambda>sel. case entries (registry p) sel of
                  Some e \<Rightarrow> class_id e = assessor_class | None \<Rightarrow> False) (assessor_priority p))"

definition router_policy_new ::
    "RouterRegistry \<Rightarrow> (selector \<times> selector) list \<Rightarrow> selector list \<Rightarrow> RouterPolicy" where
  "router_policy_new reg producible_entries priority =
     (let (prd, cls) = collect_producible reg producible_entries ([], []);
          policy = \<lparr>registry = reg, assessor_priority = priority, producible = prd,
                    class_to_producible = cls, supported_classes = []\<rparr>
      in policy\<lparr>supported_classes :=
           filter (\<lambda>c. assessor_for_verifier_class policy c \<noteq> None) (map fst cls)\<rparr>)"

definition producible_selector :: "RouterPolicy \<Rightarrow> selector \<Rightarrow> selector option" where
  "producible_selector p sel =
     (case map_of (producible p) sel of
        Some s \<Rightarrow> Some s
      | None \<Rightarrow> map_of (class_to_producible p) sel)"

definition assessor_selector_for_signed :: "RouterPolicy \<Rightarrow> selector \<Rightarrow> selector option" where
  "assessor_selector_for_signed p sel =
     (case resolve_verifier_class (registry p) sel of
        None \<Rightarrow> None
      | Some verifier_class \<Rightarrow> assessor_for_verifier_class p verifier_class)"

definition policy_supported_selectors :: "RouterPolicy \<Rightarrow> selector list" where
  "policy_supported_selectors p =
     filter (\<lambda>sel. assessor_selector_for_signed p sel \<noteq> None) (map fst (producible p))
       @ supported_classes p
       @ (if default_class_id (registry p) \<in> set (supported_classes p) then [UNSPECIFIED_SELECTOR] else [])"

section \<open>What the policy advertises\<close>

lemma map_of_map_insert: "map_of (map_insert k v m) = (map_of m)(k \<mapsto> v)"
proof (cases "map_of m k")
  case (Some w)
  have "map_of (map (\<lambda>(k', w). (k', if k' = k then v else w)) m) j
      = (if j = k then map_option (\<lambda>_. v) (map_of m k) else map_of m j)" for j
    by (induction m) auto
  then show ?thesis using Some by (auto simp: map_insert_def fun_eq_iff)
qed (auto simp: map_insert_def map_add_def fun_eq_iff split: option.split)

lemma map_of_or_insert: "map_of (or_insert k v m) = (if map_of m k = None then (map_of m)(k \<mapsto> v) else map_of m)"
  by (auto simp: or_insert_def map_add_def fun_eq_iff split: option.split)

lemma distinct_map_insert: "distinct (map fst m) \<Longrightarrow> distinct (map fst (map_insert k v m))"
proof -
  have "map fst (map (\<lambda>(k', w). (k', if k' = k then v else w)) m) = map fst m"
    by (induction m) auto
  then show "distinct (map fst m) \<Longrightarrow> distinct (map fst (map_insert k v m))"
    by (simp add: map_insert_def map_of_eq_None_iff del: map_map)
qed

lemma distinct_or_insert: "distinct (map fst m) \<Longrightarrow> distinct (map fst (or_insert k v m))"
  by (auto simp: or_insert_def map_of_eq_None_iff)

text \<open>The selectors the registry covers, and the entries of one class, in order of preference.\<close>

definition covered :: "RouterRegistry \<Rightarrow> (selector \<times> selector) list \<Rightarrow> (selector \<times> selector) list" where
  "covered reg pairs = filter (\<lambda>(s, _). entries reg s \<noteq> None) pairs"

definition in_class :: "RouterRegistry \<Rightarrow> selector \<Rightarrow> selector \<times> selector \<Rightarrow> bool" where
  "in_class reg c sp \<longleftrightarrow> (case entries reg (fst sp) of Some e \<Rightarrow> class_id e = c | None \<Rightarrow> False)"

lemma collect_producible_map:
  "collect_producible reg pairs (prd0, cls0) = (prd, cls) \<Longrightarrow>
     map_of prd = map_of prd0 ++ map_of (rev (covered reg pairs))"
proof (induction pairs arbitrary: prd0 cls0)
  case (Cons sp rest)
  obtain s p where sp: "sp = (s, p)" by (cases sp)
  show ?case
  proof (cases "entries reg s")
    case None
    then show ?thesis using Cons by (simp add: sp covered_def)
  next
    case (Some e)
    then have "map_of prd = map_of (map_insert s p prd0) ++ map_of (rev (covered reg rest))"
      using Cons.IH Cons.prems by (simp add: sp)
    moreover have "covered reg (sp # rest) = (s, p) # covered reg rest"
      using Some by (simp add: sp covered_def)
    ultimately show ?thesis
      unfolding map_of_map_insert by (auto simp: map_add_def fun_eq_iff split: option.split)
  qed
qed (simp add: covered_def)

lemma collect_producible_class:
  "collect_producible reg pairs (prd0, cls0) = (prd, cls) \<Longrightarrow>
     map_of cls c = (case map_of cls0 c of Some v \<Rightarrow> Some v
                     | None \<Rightarrow> map_option snd (find (in_class reg c) pairs))"
proof (induction pairs arbitrary: prd0 cls0)
  case (Cons sp rest)
  obtain s p where sp: "sp = (s, p)" by (cases sp)
  show ?case
  proof (cases "entries reg s")
    case None
    then have "\<not> in_class reg c sp" by (simp add: in_class_def sp)
    then have "find (in_class reg c) (sp # rest) = find (in_class reg c) rest" by simp
    moreover have "collect_producible reg rest (prd0, cls0) = (prd, cls)"
      using Cons.prems None by (simp add: sp)
    ultimately show ?thesis using Cons.IH by presburger
  next
    case (Some e)
    then have "map_of cls c = (case map_of (or_insert (class_id e) p cls0) c of Some v \<Rightarrow> Some v
        | None \<Rightarrow> map_option snd (find (in_class reg c) rest))"
      using Cons.IH Cons.prems by (simp add: sp)
    moreover have "in_class reg c sp \<longleftrightarrow> class_id e = c" using Some by (simp add: sp in_class_def)
    ultimately show ?thesis
      by (cases "map_of cls0 c"; cases "class_id e = c") (auto simp: sp map_of_or_insert)
  qed
qed (simp split: option.split)

lemma collect_producible_distinct:
  "collect_producible reg pairs (prd0, cls0) = (prd, cls) \<Longrightarrow> distinct (map fst prd0) \<Longrightarrow>
     distinct (map fst cls0) \<Longrightarrow> distinct (map fst prd) \<and> distinct (map fst cls)"
proof (induction pairs arbitrary: prd0 cls0)
  case (Cons sp rest)
  obtain s p where sp: "sp = (s, p)" by (cases sp)
  show ?case
    using Cons by (cases "entries reg s") (simp_all add: sp distinct_map_insert distinct_or_insert)
qed simp

text \<open>A registry as the router keeps it: class identifiers and entry selectors are disjoint, zero is
  neither, and the class of every entry is covered.\<close>

definition wf_registry :: "RouterRegistry \<Rightarrow> bool" where
  "wf_registry reg \<longleftrightarrow> entries reg 0 = None
     \<and> (\<forall>s e. entries reg s = Some e \<longrightarrow>
          class_id e \<noteq> 0 \<and> entries reg (class_id e) = None \<and> required_assessor reg (class_id e) \<noteq> None)"

lemma policy_new_parts:
  assumes "p = router_policy_new reg pairs prio"
  shows "registry p = reg" "assessor_priority p = prio"
    "map_of (producible p) = map_of (rev (covered reg pairs))"
    "map_of (class_to_producible p) c = map_option snd (find (in_class reg c) pairs)"
    "distinct (map fst (producible p))" "distinct (supported_classes p)"
    "c \<in> set (supported_classes p) \<longleftrightarrow>
       map_of (class_to_producible p) c \<noteq> None \<and> assessor_for_verifier_class p c \<noteq> None"
proof -
  obtain prd cls where c: "collect_producible reg pairs ([], []) = (prd, cls)" by fastforce
  have p: "producible p = prd" "class_to_producible p = cls" "registry p = reg" "assessor_priority p = prio"
    by (simp_all add: assms router_policy_new_def c)
  define q where "q = \<lparr>registry = reg, assessor_priority = prio, producible = prd,
                    class_to_producible = cls, supported_classes = []\<rparr>"
  have a: "assessor_for_verifier_class q = assessor_for_verifier_class p"
    by (rule ext) (simp add: assessor_for_verifier_class_def p q_def cong: option.case_cong)
  have sc: "supported_classes p = filter (\<lambda>c. assessor_for_verifier_class p c \<noteq> None) (map fst cls)"
    unfolding a [symmetric] by (simp add: assms router_policy_new_def c q_def)
  show "registry p = reg" "assessor_priority p = prio" by (simp_all add: p)
  show "map_of (producible p) = map_of (rev (covered reg pairs))"
    using collect_producible_map [OF c] by (simp add: p)
  show "map_of (class_to_producible p) c = map_option snd (find (in_class reg c) pairs)"
    using collect_producible_class [OF c] by (simp add: p)
  have d: "distinct (map fst prd)" "distinct (map fst cls)" using collect_producible_distinct [OF c] by simp_all
  then show "distinct (map fst (producible p))" "distinct (supported_classes p)"
    by (simp_all add: p(1) sc)
  show "c \<in> set (supported_classes p) \<longleftrightarrow>
       map_of (class_to_producible p) c \<noteq> None \<and> assessor_for_verifier_class p c \<noteq> None"
    unfolding p(2) by (auto simp: sc map_of_eq_None_iff)
qed

lemma producible_keys:
  assumes "p = router_policy_new reg pairs prio"
  shows "map_of (producible p) s \<noteq> None \<longleftrightarrow> s \<in> fst ` set pairs \<and> entries reg s \<noteq> None"
  unfolding policy_new_parts(3) [OF assms] map_of_eq_None_iff by (force simp: covered_def)

lemma class_keys:
  assumes "p = router_policy_new reg pairs prio" "map_of (class_to_producible p) c \<noteq> None"
  shows "\<exists>s e. entries reg s = Some e \<and> class_id e = c"
proof -
  from assms have "find (in_class reg c) pairs \<noteq> None" by (auto simp: policy_new_parts(4))
  then obtain sp where "in_class reg c sp" by (auto simp: find_None_iff)
  then show ?thesis by (auto simp: in_class_def split: option.splits)
qed

lemma class_assessor:
  assumes "wf_registry reg" "p = router_policy_new reg pairs prio" "map_of (class_to_producible p) c \<noteq> None"
  shows "assessor_selector_for_signed p c = assessor_for_verifier_class p c"
    "c = default_class_id reg \<Longrightarrow> assessor_selector_for_signed p UNSPECIFIED_SELECTOR = assessor_for_verifier_class p c"
proof -
  obtain t e where te: "entries reg t = Some e" "class_id e = c" using class_keys [OF assms(2,3)] by blast
  have c: "c \<noteq> 0" "entries reg c = None" "required_assessor reg c \<noteq> None"
    using assms(1) te by (auto simp: wf_registry_def)
  note P = policy_new_parts(1) [OF assms(2)]
  show "assessor_selector_for_signed p c = assessor_for_verifier_class p c"
    using c by (simp add: assessor_selector_for_signed_def resolve_verifier_class_def P UNSPECIFIED_SELECTOR_def)
  show "c = default_class_id reg \<Longrightarrow> assessor_selector_for_signed p UNSPECIFIED_SELECTOR = assessor_for_verifier_class p c"
    using c by (simp add: assessor_selector_for_signed_def resolve_verifier_class_def P)
qed

lemma supported_sealable:
  assumes "wf_registry reg" "p = router_policy_new reg pairs prio" "s \<in> set (policy_supported_selectors p)"
  shows "assessor_selector_for_signed p s \<noteq> None"
proof -
  note P = policy_new_parts [OF assms(2)]
  have cls: "assessor_selector_for_signed p c \<noteq> None" if "c \<in> set (supported_classes p)" for c
    using class_assessor(1) [OF assms(1,2), of c] that unfolding P(7) by simp
  have "assessor_selector_for_signed p UNSPECIFIED_SELECTOR \<noteq> None" if "default_class_id reg \<in> set (supported_classes p)"
    using class_assessor(2) [OF assms(1,2), of "default_class_id reg"] that unfolding P(7) by simp
  then show ?thesis
    using assms(3) cls unfolding policy_supported_selectors_def P(1) by (auto split: if_splits)
qed

text \<open>C35: a backend advertises exactly the selectors it can serve: those for which an assessor it
  can satisfy is registered and, unless it is the unspecified selector, a verifier selector it
  can produce. The unspecified selector stands for the default class. The router keeps class
  identifiers and entry selectors apart.\<close>

theorem advertised_iff_servable:
  assumes "wf_registry reg" "p = router_policy_new reg pairs prio"
  shows "s \<in> set (policy_supported_selectors p) \<longleftrightarrow>
     assessor_selector_for_signed p s \<noteq> None
     \<and> (if s = UNSPECIFIED_SELECTOR then map_of (class_to_producible p) (default_class_id reg) \<noteq> None
        else producible_selector p s \<noteq> None)"
proof -
  note P = policy_new_parts [OF assms(2)] and K = producible_keys [OF assms(2)] and C = class_keys [OF assms(2)]
  have wf: "entries reg 0 = None"
    "\<And>s e. entries reg s = Some e \<Longrightarrow> class_id e \<noteq> 0 \<and> entries reg (class_id e) = None \<and> required_assessor reg (class_id e) \<noteq> None"
    using assms(1) by (auto simp: wf_registry_def)
  have zero: "map_of (producible p) 0 = None" "map_of (class_to_producible p) 0 = None"
    using K [of 0] C [of 0] wf by (auto simp del: not_None_eq)
  have mem: "s \<in> set (policy_supported_selectors p) \<longleftrightarrow>
     (map_of (producible p) s \<noteq> None \<and> assessor_selector_for_signed p s \<noteq> None)
     \<or> s \<in> set (supported_classes p)
     \<or> (s = 0 \<and> default_class_id reg \<in> set (supported_classes p))"
    by (auto simp: policy_supported_selectors_def P(1) UNSPECIFIED_SELECTOR_def map_of_eq_None_iff)
  note cls = class_assessor [OF assms]
  show ?thesis
  proof (cases "s = 0")
    case True
    have "assessor_selector_for_signed p 0 = assessor_for_verifier_class p (default_class_id reg)"
      if "map_of (class_to_producible p) (default_class_id reg) \<noteq> None"
      using class_assessor(2) [OF assms that] by (simp add: UNSPECIFIED_SELECTOR_def)
    then show ?thesis
      using True mem zero P(7) by (auto simp: UNSPECIFIED_SELECTOR_def)
  next
    case False
    have "s \<in> set (supported_classes p) \<longleftrightarrow>
        map_of (class_to_producible p) s \<noteq> None \<and> assessor_selector_for_signed p s \<noteq> None"
      using P(7) [of s] cls [of s] by auto
    moreover have "producible_selector p s \<noteq> None \<longleftrightarrow>
        map_of (producible p) s \<noteq> None \<or> map_of (class_to_producible p) s \<noteq> None"
      by (auto simp: producible_selector_def split: option.split)
    ultimately show ?thesis using False mem by (auto simp: UNSPECIFIED_SELECTOR_def)
  qed
qed

text \<open>A registry with one class of two versions, sealed by one assessor.\<close>

definition sample_registry :: RouterRegistry where
  "sample_registry =
     \<lparr>default_class_id = 0xAA000001,
      entries = (\<lambda>s. if s = 0x11 \<or> s = 0x12 then Some \<lparr>implementation = 0, class_id = 0xAA000001, gas_limit = 0\<rparr>
                     else if s = 0x22 then Some \<lparr>implementation = 0, class_id = 0xAA000002, gas_limit = 0\<rparr>
                     else None),
      required_assessor = [0xAA000001 \<mapsto> 0xAA000002, 0xAA000002 \<mapsto> 0]\<rparr>"

lemma sample_registry_wf: "wf_registry sample_registry"
  by (simp add: wf_registry_def sample_registry_def)

theorem advertised_iff_servable_witness:
  "\<exists>p. p = router_policy_new sample_registry [(0x11, 0x11), (0x12, 0x12)] [0x22]
     \<and> 0xAA000001 \<in> set (policy_supported_selectors p) \<and> 0x33 \<notin> set (policy_supported_selectors p)"
proof -
  let ?p = "router_policy_new sample_registry [(0x11, 0x11), (0x12, 0x12)] [0x22]"
  note W = advertised_iff_servable [OF sample_registry_wf refl, of _ "[(0x11, 0x11), (0x12, 0x12)]" "[0x22]"]
  have "0xAA000001 \<in> set (policy_supported_selectors ?p)" "0x33 \<notin> set (policy_supported_selectors ?p)"
    unfolding W
    by (simp_all add: assessor_selector_for_signed_def resolve_verifier_class_def assessor_for_verifier_class_def
        required_assessor_class_def producible_selector_def router_policy_new_def sample_registry_def
        map_insert_def or_insert_def UNSPECIFIED_SELECTOR_def)
  then show ?thesis by blast
qed

text \<open>A class identifier resolves to the most preferred entry the backend can produce in it.\<close>

lemma class_resolves_to_preferred:
  assumes "p = router_policy_new reg pairs prio" "entries reg c = None"
  shows "producible_selector p c = map_option snd (find (in_class reg c) pairs)"
proof -
  have "map_of (producible p) c = None" using producible_keys [OF assms(1), of c] assms(2) by auto
  then show ?thesis by (simp add: producible_selector_def policy_new_parts(4) [OF assms(1)])
qed

section \<open>Backends\<close>

datatype BackendFailure = Operation | NoSelectors | AlreadyRegistered | ListedTwice | SelectorTaken
  | NotClassified | NoRoute | UnknownBackend

record ProcessOrder =
  po_order_id :: string
  po_request :: ProofRequest
  po_image_id :: "string option"
  po_input_id :: "string option"
  po_backend_state :: "bytes option"

record CancelOrder =
  co_order_id :: string
  co_selector :: selector
  co_backend_state :: "bytes option"
  co_is_proving :: bool

datatype SubmissionPath = Batched | Direct

record ProcessedOrder =
  pr_backend_id :: string
  pr_order_id :: string
  pr_submission_path :: SubmissionPath
  pr_compressed :: bool

datatype OrderProcessProgress = InProgress bytes | Completed ProcessedOrder

text \<open>The methods of the trait \<open>Backend\<close> the router dispatches to; batching and submission are left
  out.\<close>

record Backend =
  bk_id :: string
  bk_supported_selectors :: "selector list"
  bk_proof_type :: "selector \<Rightarrow> ProofType option"
  bk_assessor_group :: "selector \<Rightarrow> BackendFailure + selector option"
  bk_fulfillment_gas :: "ProofRequest \<Rightarrow> BackendFailure + u64"
  bk_additional_proof_cycles :: "ProofRequest \<Rightarrow> BackendFailure + u64"
  bk_evaluate_request :: "EvaluationRequest \<Rightarrow> u64 \<Rightarrow> OrderPricingError + RequestEvaluation"
  bk_process_order :: "ProcessOrder \<Rightarrow> BackendFailure + OrderProcessProgress"
  bk_cancel_order :: "CancelOrder \<Rightarrow> BackendFailure + unit"

record BackendEntry =
  en_id :: string
  en_selectors :: "selector list"
  en_backend :: Backend

definition backend_entry_new :: "Backend \<Rightarrow> BackendEntry" where
  "backend_entry_new b = \<lparr>en_id = bk_id b, en_selectors = bk_supported_selectors b, en_backend = b\<rparr>"

record BackendRouter =
  backends :: "string \<rightharpoonup> BackendEntry"
  routes :: "selector \<rightharpoonup> string"

definition router_new :: BackendRouter where
  "router_new = \<lparr>backends = Map.empty, routes = Map.empty\<rparr>"

fun check_selectors :: "BackendRouter \<Rightarrow> Backend \<Rightarrow> selector set \<Rightarrow> selector list \<Rightarrow> BackendFailure + unit" where
  "check_selectors r b seen [] = Inr ()"
| "check_selectors r b seen (s # ss) =
     (if s \<in> seen then Inl ListedTwice
      else if routes r s \<noteq> None then Inl SelectorTaken
      else if bk_proof_type b s = None then Inl NotClassified
      else check_selectors r b (insert s seen) ss)"

fun add_routes :: "string \<Rightarrow> selector list \<Rightarrow> (selector \<rightharpoonup> string) \<Rightarrow> (selector \<rightharpoonup> string)" where
  "add_routes i [] m = m"
| "add_routes i (s # ss) m = add_routes i ss (m(s \<mapsto> i))"

definition register_backend :: "BackendRouter \<Rightarrow> BackendEntry \<Rightarrow> BackendFailure + BackendRouter" where
  "register_backend r entry =
     (if en_selectors entry = [] then Inl NoSelectors
      else if backends r (en_id entry) \<noteq> None then Inl AlreadyRegistered
      else res_bind (check_selectors r (en_backend entry) {} (en_selectors entry)) (\<lambda>_.
        Inr \<lparr>backends = (backends r)(en_id entry \<mapsto> entry),
             routes = add_routes (en_id entry) (en_selectors entry) (routes r)\<rparr>))"

definition router_supported_selectors :: "BackendRouter \<Rightarrow> SupportedSelectors" where
  "router_supported_selectors r = (\<lambda>s.
     case routes r s of
       None \<Rightarrow> None
     | Some i \<Rightarrow> (case backends r i of
                    Some entry \<Rightarrow> bk_proof_type (en_backend entry) s
                  | None \<Rightarrow> None))"

definition backend_for_selector :: "BackendRouter \<Rightarrow> selector \<Rightarrow> BackendFailure + Backend" where
  "backend_for_selector r s =
     res_bind (ok_or NoRoute (routes r s)) (\<lambda>i.
     res_bind (ok_or UnknownBackend (backends r i)) (\<lambda>entry. Inr (en_backend entry)))"

definition backend_for_id :: "BackendRouter \<Rightarrow> string \<Rightarrow> BackendFailure + Backend" where
  "backend_for_id r i = res_bind (ok_or UnknownBackend (backends r i)) (\<lambda>entry. Inr (en_backend entry))"

definition router_assessor_group :: "BackendRouter \<Rightarrow> string \<Rightarrow> selector \<Rightarrow> BackendFailure + selector option" where
  "router_assessor_group r i s = res_bind (backend_for_id r i) (\<lambda>b. bk_assessor_group b s)"

definition router_fulfillment_gas :: "BackendRouter \<Rightarrow> ProofRequest \<Rightarrow> BackendFailure + u64" where
  "router_fulfillment_gas r req =
     res_bind (backend_for_selector r (req_selector (requirements req))) (\<lambda>b. bk_fulfillment_gas b req)"

definition router_additional_proof_cycles :: "BackendRouter \<Rightarrow> ProofRequest \<Rightarrow> BackendFailure + u64" where
  "router_additional_proof_cycles r req =
     res_bind (backend_for_selector r (req_selector (requirements req))) (\<lambda>b. bk_additional_proof_cycles b req)"

definition router_evaluate_request ::
    "BackendRouter \<Rightarrow> EvaluationRequest \<Rightarrow> u64 \<Rightarrow> OrderPricingError + RequestEvaluation" where
  "router_evaluate_request r req limit =
     res_bind (ok_or UnexpectedErr (routes r (ev_selector req))) (\<lambda>i.
     res_bind (ok_or UnexpectedErr (backends r i)) (\<lambda>entry. bk_evaluate_request (en_backend entry) req limit))"

definition router_process_order :: "BackendRouter \<Rightarrow> ProcessOrder \<Rightarrow> BackendFailure + OrderProcessProgress" where
  "router_process_order r cmd =
     res_bind (backend_for_selector r (req_selector (requirements (po_request cmd)))) (\<lambda>b. bk_process_order b cmd)"

definition router_cancel_order :: "BackendRouter \<Rightarrow> CancelOrder \<Rightarrow> BackendFailure + unit" where
  "router_cancel_order r cmd = res_bind (backend_for_selector r (co_selector cmd)) (\<lambda>b. bk_cancel_order b cmd)"

section \<open>Registration\<close>

text \<open>The contract of a backend: it classifies every selector it advertises.\<close>

locale backend =
  fixes b :: Backend
  assumes classified: "s \<in> set (bk_supported_selectors b) \<Longrightarrow> bk_proof_type b s \<noteq> None"
begin

lemma check_selectors_ok:
  assumes "distinct ss" "set ss \<inter> seen = {}" "set ss \<subseteq> set (bk_supported_selectors b)"
    and "\<And>s. s \<in> set ss \<Longrightarrow> routes r s = None"
  shows "check_selectors r b seen ss = Inr ()"
  using assms
proof (induction ss arbitrary: seen)
  case (Cons s ss)
  then have "check_selectors r b (insert s seen) ss = Inr ()" by (intro Cons.IH) auto
  then show ?case using Cons.prems classified by auto
qed simp

text \<open>A backend with fresh, distinct selectors and a fresh identifier can be registered.\<close>

lemma registers:
  assumes "bk_supported_selectors b \<noteq> []" "distinct (bk_supported_selectors b)"
    and "backends r (bk_id b) = None" "\<And>s. s \<in> set (bk_supported_selectors b) \<Longrightarrow> routes r s = None"
  shows "\<exists>r'. register_backend r (backend_entry_new b) = Inr r'"
  using check_selectors_ok [of "bk_supported_selectors b" "{}" r] assms
  by (auto simp: register_backend_def backend_entry_new_def)

end

fun register_all :: "BackendRouter \<Rightarrow> BackendEntry list \<Rightarrow> BackendFailure + BackendRouter" where
  "register_all r [] = Inr r"
| "register_all r (e # es) = res_bind (register_backend r e) (\<lambda>r'. register_all r' es)"

definition router_ok :: "BackendRouter \<Rightarrow> bool" where
  "router_ok r \<longleftrightarrow>
     (\<forall>i e. backends r i = Some e \<longrightarrow> en_id e = i)
     \<and> (\<forall>s i. routes r s = Some i \<longrightarrow>
          (\<exists>e. backends r i = Some e \<and> s \<in> set (en_selectors e) \<and> bk_proof_type (en_backend e) s \<noteq> None))
     \<and> (\<forall>i e s. backends r i = Some e \<longrightarrow> s \<in> set (en_selectors e) \<longrightarrow> routes r s = Some i)"

lemma check_selectors_Inr:
  "check_selectors r b seen ss = Inr u \<Longrightarrow>
     distinct ss \<and> set ss \<inter> seen = {} \<and> (\<forall>s\<in>set ss. routes r s = None \<and> bk_proof_type b s \<noteq> None)"
  by (induction r b seen ss rule: check_selectors.induct) (auto split: if_splits)

lemma add_routes_apply: "add_routes i ss m s = (if s \<in> set ss then Some i else m s)"
  by (induction ss arbitrary: m) auto

lemma register_backend_ok:
  assumes "router_ok r" "register_backend r e = Inr r'"
  shows "router_ok r'" "\<And>s i. routes r s = Some i \<Longrightarrow> routes r' s = Some i"
    "\<And>s. s \<in> set (en_selectors e) \<Longrightarrow> routes r' s = Some (en_id e)"
    "backends r' = (backends r)(en_id e \<mapsto> e)" "backends r (en_id e) = None"
proof -
  have fresh: "backends r (en_id e) = None"
    and c: "check_selectors r (en_backend e) {} (en_selectors e) = Inr ()"
    and r': "r' = \<lparr>backends = (backends r)(en_id e \<mapsto> e), routes = add_routes (en_id e) (en_selectors e) (routes r)\<rparr>"
    using assms(2) by (auto simp: register_backend_def res_simps split: if_splits)
  note C = check_selectors_Inr [OF c]
  show "backends r' = (backends r)(en_id e \<mapsto> e)" "backends r (en_id e) = None" using fresh by (simp_all add: r')
  show "routes r s = Some i \<Longrightarrow> routes r' s = Some i" for s i
    using C by (auto simp: r' add_routes_apply)
  show "s \<in> set (en_selectors e) \<Longrightarrow> routes r' s = Some (en_id e)" for s
    by (simp add: r' add_routes_apply)
  have ids: "\<And>i e. backends r i = Some e \<Longrightarrow> en_id e = i"
    and rts: "\<And>s i. routes r s = Some i \<Longrightarrow> \<exists>e. backends r i = Some e \<and> s \<in> set (en_selectors e)
               \<and> bk_proof_type (en_backend e) s \<noteq> None"
    and sels: "\<And>i e s. backends r i = Some e \<Longrightarrow> s \<in> set (en_selectors e) \<Longrightarrow> routes r s = Some i"
    using assms(1) unfolding router_ok_def by blast+
  have "\<exists>e'. backends r' i = Some e' \<and> s \<in> set (en_selectors e') \<and> bk_proof_type (en_backend e') s \<noteq> None"
    if "routes r' s = Some i" for s i
  proof (cases "s \<in> set (en_selectors e)")
    case True
    then show ?thesis using that C by (auto simp: r' add_routes_apply)
  next
    case False
    then have "routes r s = Some i" using that by (simp add: r' add_routes_apply)
    then show ?thesis using rts fresh by (fastforce simp: r')
  qed
  moreover have "routes r' s = Some i" if "backends r' i = Some e'" "s \<in> set (en_selectors e')" for i e' s
    using that sels [of i e' s] C by (cases "i = en_id e") (auto simp: r' add_routes_apply)
  ultimately show "router_ok r'"
    using ids unfolding router_ok_def by (auto simp: r')
qed

lemma register_all_ok:
  "router_ok r \<Longrightarrow> register_all r es = Inr r' \<Longrightarrow>
     router_ok r' \<and> (\<forall>i e. backends r i = Some e \<longrightarrow> backends r' i = Some e)
     \<and> (\<forall>i e. backends r' i = Some e \<longrightarrow> backends r i = Some e \<or> e \<in> set es)
     \<and> (\<forall>e\<in>set es. backends r' (en_id e) = Some e)"
proof (induction es arbitrary: r)
  case (Cons e es)
  obtain r1 where r1: "register_backend r e = Inr r1" "register_all r1 es = Inr r'"
    using Cons.prems(2) by (auto simp: res_simps)
  note R = register_backend_ok [OF Cons.prems(1) r1(1)]
  note IH = Cons.IH [OF R(1) r1(2)]
  have keep: "backends r' i = Some e'" if "backends r1 i = Some e'" for i e' using IH that by blast
  have "backends r' i = Some e'" if "backends r i = Some e'" for i e'
  proof -
    have "i \<noteq> en_id e" using that R(5) by auto
    then show ?thesis using keep that R(4) by simp
  qed
  moreover have "backends r' (en_id e) = Some e" using keep R(4) by simp
  moreover have "backends r i = Some e' \<or> e' \<in> set (e # es)" if "backends r' i = Some e'" for i e'
  proof -
    have "backends r1 i = Some e' \<or> e' \<in> set es" using IH that by blast
    then show ?thesis using R(4) by (cases "i = en_id e") auto
  qed
  ultimately show ?case using IH by simp
qed simp

text \<open>C33: however backends are registered, every route leads to a registered backend that lists and
  classifies the selector, a registered selector is dispatched to the backend that listed it,
  and the advertised selectors are exactly those that can be dispatched.\<close>

theorem router_dispatch_sound:
  assumes "register_all router_new es = Inr r"
  shows "(is_supported (router_supported_selectors r) s \<longleftrightarrow> (\<exists>b. backend_for_selector r s = Inr b))
     \<and> (\<forall>b. backend_for_selector r s = Inr b \<longrightarrow>
          (\<exists>e\<in>set es. en_backend e = b \<and> s \<in> set (en_selectors e) \<and> bk_proof_type b s \<noteq> None))
     \<and> (\<forall>e\<in>set es. s \<in> set (en_selectors e) \<longrightarrow> backend_for_selector r s = Inr (en_backend e))"
proof -
  have "router_ok router_new" by (simp add: router_ok_def router_new_def)
  note R = register_all_ok [OF this assms]
  have rts: "\<exists>e. backends r i = Some e \<and> s \<in> set (en_selectors e) \<and> bk_proof_type (en_backend e) s \<noteq> None"
    if "routes r s = Some i" for i
    using R that unfolding router_ok_def by blast
  have sels: "routes r s = Some (en_id e)" if "e \<in> set es" "s \<in> set (en_selectors e)" for e
    using R that unfolding router_ok_def by blast
  have mem: "e \<in> set es" if "backends r i = Some e" for i e
    using R that by (auto simp: router_new_def)
  show ?thesis
  proof (cases "routes r s")
    case None
    then show ?thesis
      using sels by (auto simp: is_supported_def router_supported_selectors_def backend_for_selector_def ok_or_def)
  next
    case (Some i)
    obtain e where e: "backends r i = Some e" "s \<in> set (en_selectors e)" "bk_proof_type (en_backend e) s \<noteq> None"
      using rts [OF Some] by blast
    have "backend_for_selector r s = Inr (en_backend e)"
      using Some e(1) by (simp add: backend_for_selector_def ok_or_def)
    moreover have "is_supported (router_supported_selectors r) s"
      using Some e by (simp add: is_supported_def router_supported_selectors_def)
    moreover have "e' = e" if "e' \<in> set es" "s \<in> set (en_selectors e')" for e'
      using sels [OF that] Some e(1) R that(1) by simp
    moreover note mem [OF e(1)]
    ultimately have "\<exists>b. backend_for_selector r s = Inr b" "is_supported (router_supported_selectors r) s"
      "backend_for_selector r s = Inr b \<Longrightarrow> b = en_backend e"
      "e' \<in> set es \<Longrightarrow> s \<in> set (en_selectors e') \<Longrightarrow> backend_for_selector r s = Inr (en_backend e')"
      "e \<in> set es" for b e'
      by auto
    then show ?thesis using e(2,3) by blast
  qed
qed

text \<open>A backend for one selector, which fails every request.\<close>

definition sample_backend :: Backend where
  "sample_backend =
     \<lparr>bk_id = ''sample'', bk_supported_selectors = [5], bk_proof_type = [5 \<mapsto> ProofAny],
      bk_assessor_group = (\<lambda>_. Inr None), bk_fulfillment_gas = (\<lambda>_. Inr 1), bk_additional_proof_cycles = (\<lambda>_. Inr 0),
      bk_evaluate_request = (\<lambda>_ _. Inl UnexpectedErr), bk_process_order = (\<lambda>_. Inl Operation),
      bk_cancel_order = (\<lambda>_. Inr ())\<rparr>"

theorem router_dispatch_sound_witness:
  "\<exists>r. register_all router_new [backend_entry_new sample_backend] = Inr r
     \<and> backend_for_selector r 5 = Inr sample_backend"
proof -
  have sel: "en_selectors (backend_entry_new sample_backend) = [5]" "en_backend (backend_entry_new sample_backend) = sample_backend"
    by (simp_all add: backend_entry_new_def sample_backend_def)
  have "bk_proof_type sample_backend 5 \<noteq> None" by (simp add: sample_backend_def)
  then have "\<exists>r. register_all router_new [backend_entry_new sample_backend] = Inr r"
    by (simp add: register_backend_def sel router_new_def)
  then obtain r where r: "register_all router_new [backend_entry_new sample_backend] = Inr r" by blast
  note D = conjunct2 [OF conjunct2 [OF router_dispatch_sound [OF r, of 5]]]
  have "backend_for_selector r 5 = Inr sample_backend" using D by (simp add: sel)
  then show ?thesis using r by blast
qed

end
