(* ===== verification/Risc0Backend.thy ===== *)
theory Risc0Backend
  imports Backend
begin

text \<open>
  The RISC Zero backend, \<open>risc0-backend/src/lib.rs\<close>: the selectors it can produce, how a selector
  decides the compression and the submission path of an order, its cost model, and the processing
  of one order. The prover service, the downloader and the RISC Zero library are the fields of
  \<open>risc0_env\<close>; the state a backend keeps for an order travels encoded, as the broker stores it.
\<close>

section \<open>Selectors\<close>

definition SELECTOR_GROTH16_V3_0 :: selector where
  "SELECTOR_GROTH16_V3_0 = selector_ext_repr Groth16V3_0"
definition SELECTOR_BLAKE3_GROTH16_V0_1 :: selector where
  "SELECTOR_BLAKE3_GROTH16_V0_1 = selector_ext_repr Blake3Groth16V0_1"
definition SELECTOR_FAKE_RECEIPT :: selector where
  "SELECTOR_FAKE_RECEIPT = selector_ext_repr FakeReceipt"
definition SELECTOR_FAKE_BLAKE3_GROTH16 :: selector where
  "SELECTOR_FAKE_BLAKE3_GROTH16 = selector_ext_repr FakeBlake3Groth16"
definition ONCHAIN_ASSESSOR_SELECTOR :: selector where "ONCHAIN_ASSESSOR_SELECTOR = 0x22"
definition R0_ASSESSOR_SELECTOR :: selector where "R0_ASSESSOR_SELECTOR = 0x24"

definition ASSESSOR_PRIORITY :: "selector list" where
  "ASSESSOR_PRIORITY = [ONCHAIN_ASSESSOR_SELECTOR, R0_ASSESSOR_SELECTOR]"

definition risc0_producible :: "selector \<Rightarrow> bool \<Rightarrow> (selector \<times> selector) list" where
  "risc0_producible set_inclusion_selector dev_mode =
     (if dev_mode then [(SELECTOR_FAKE_RECEIPT, SELECTOR_FAKE_RECEIPT),
                        (SELECTOR_FAKE_BLAKE3_GROTH16, SELECTOR_FAKE_BLAKE3_GROTH16)] else [])
     @ [(SELECTOR_GROTH16_V3_0, SELECTOR_GROTH16_V3_0),
        (SELECTOR_BLAKE3_GROTH16_V0_1, SELECTOR_BLAKE3_GROTH16_V0_1),
        (set_inclusion_selector, UNSPECIFIED_SELECTOR)]"

definition risc0_router_policy :: "RouterRegistry \<Rightarrow> selector \<Rightarrow> bool \<Rightarrow> RouterPolicy" where
  "risc0_router_policy reg set_inclusion_selector dev_mode =
     router_policy_new reg (risc0_producible set_inclusion_selector dev_mode) ASSESSOR_PRIORITY"

definition selectors_of_interest :: "selector \<Rightarrow> bool \<Rightarrow> selector list" where
  "selectors_of_interest set_inclusion_selector dev_mode =
     map fst (risc0_producible set_inclusion_selector dev_mode) @ ASSESSOR_PRIORITY"

definition proof_type_for_selector :: "selector \<Rightarrow> ProofType option" where
  "proof_type_for_selector s =
     (if s = UNSPECIFIED_SELECTOR \<or> s = SELECTOR_FAKE_RECEIPT then Some ProofAny
      else if s = SELECTOR_GROTH16_V3_0 then Some ProofGroth16
      else if s = SELECTOR_BLAKE3_GROTH16_V0_1 \<or> s = SELECTOR_FAKE_BLAKE3_GROTH16
      then Some ProofBlake3Groth16 else None)"

definition submission_path_for_risc0_selector :: "selector \<Rightarrow> SubmissionPath" where
  "submission_path_for_risc0_selector s =
     (if s = SELECTOR_GROTH16_V3_0 \<or> s = SELECTOR_BLAKE3_GROTH16_V0_1
         \<or> s = SELECTOR_FAKE_RECEIPT \<or> s = SELECTOR_FAKE_BLAKE3_GROTH16
      then Direct else Batched)"

datatype CompressionType = NoCompression | Groth16 | Blake3Groth16

definition compression_type_for_selector :: "selector \<Rightarrow> CompressionType" where
  "compression_type_for_selector s =
     (if s = SELECTOR_GROTH16_V3_0 \<or> s = SELECTOR_FAKE_RECEIPT then Groth16
      else if s = SELECTOR_BLAKE3_GROTH16_V0_1 \<or> s = SELECTOR_FAKE_BLAKE3_GROTH16 then Blake3Groth16
      else NoCompression)"

lemmas selector_consts = SELECTOR_GROTH16_V3_0_def SELECTOR_BLAKE3_GROTH16_V0_1_def
  SELECTOR_FAKE_RECEIPT_def SELECTOR_FAKE_BLAKE3_GROTH16_def UNSPECIFIED_SELECTOR_def

section \<open>Costs\<close>

record Risc0CostModel =
  direct_fulfill_gas :: u64
  batched_fulfill_gas :: u64
  direct_additional_proof_cycles :: u64
  batched_additional_proof_cycles :: u64

definition risc0_cost_model_default :: Risc0CostModel where
  "risc0_cost_model_default =
     \<lparr>direct_fulfill_gas = 400000, batched_fulfill_gas = 420000,
      direct_additional_proof_cycles = 0, batched_additional_proof_cycles = 2000000 + 270000\<rparr>"

section \<open>Order state\<close>

definition RISC0_ORDER_STATE_VERSION :: u32 where "RISC0_ORDER_STATE_VERSION = 1"

record Risc0OrderState =
  version :: u32
  proof_id :: string
  compressed_proof_id :: "string option"

record risc0_env =
  has_image :: "string \<Rightarrow> BackendFailure + bool"
  upload_image :: "string \<Rightarrow> bytes \<Rightarrow> BackendFailure + unit"
  upload_input :: "bytes \<Rightarrow> BackendFailure + string"
  prove_stark :: "string \<Rightarrow> string \<Rightarrow> BackendFailure + string"
  wait_for_stark :: "string \<Rightarrow> BackendFailure + unit"
  cancel_stark :: "string \<Rightarrow> BackendFailure + unit"
  compress :: "string \<Rightarrow> BackendFailure + string"
  compress_blake3_groth16 :: "string \<Rightarrow> BackendFailure + string"
  verify_groth16_receipt :: "string \<Rightarrow> BackendFailure + unit"
  verify_blake3_groth16_receipt :: "string \<Rightarrow> BackendFailure + unit"
  download :: "string \<Rightarrow> BackendFailure + bytes"
  download_unlimited :: "string \<Rightarrow> BackendFailure + bytes"
  compute_image_id :: "bytes \<Rightarrow> digest option"
  digest_text :: "digest \<Rightarrow> string"
  digest_from_hex :: "string \<Rightarrow> digest option"
  guest_env_stdin :: "bytes \<Rightarrow> bytes option"
  json_encode :: "Risc0OrderState \<Rightarrow> bytes"
  json_decode :: "bytes \<Rightarrow> Risc0OrderState option"
  evaluate :: "EvaluationRequest \<Rightarrow> u64 \<Rightarrow> OrderPricingError + RequestEvaluation"

definition risc0_order_state_decode :: "risc0_env \<Rightarrow> bytes \<Rightarrow> BackendFailure + Risc0OrderState" where
  "risc0_order_state_decode env raw =
     res_bind (ok_or Operation (json_decode env raw)) (\<lambda>decoded.
       if version decoded \<le> RISC0_ORDER_STATE_VERSION then Inr decoded else Inl Operation)"

record Risc0Backend =
  rb_id :: string
  rb_env :: risc0_env
  rb_priority_check :: "address \<Rightarrow> bool"
  rb_router_policy :: RouterPolicy
  rb_cost_model :: Risc0CostModel

definition normalize_selector :: "Risc0Backend \<Rightarrow> selector \<Rightarrow> selector" where
  "normalize_selector b s =
     (case producible_selector (rb_router_policy b) s of Some p \<Rightarrow> p | None \<Rightarrow> s)"

definition upload_order_image :: "Risc0Backend \<Rightarrow> ProofRequest \<Rightarrow> BackendFailure + string" where
  "upload_order_image b req =
     (let env = rb_env b in
      res_bind (case predicate_try_from (predicate (requirements req)) of Inl _ \<Rightarrow> Inl Operation | Inr p \<Rightarrow> Inr p)
      (\<lambda>p.
      let required = map_option (digest_text env) (predicate_image_id p) in
      res_bind (case required of Some s \<Rightarrow> has_image env s | None \<Rightarrow> Inr False) (\<lambda>cached.
      if cached then ok_or Operation required
      else
      res_bind (download env (imageUrl req)) (\<lambda>image_data.
      res_bind (ok_or Operation (compute_image_id env image_data)) (\<lambda>image_id.
      res_bind (case required of
                  None \<Rightarrow> Inr ()
                | Some s \<Rightarrow> res_bind (ok_or Operation (digest_from_hex env s))
                              (\<lambda>want. if image_id = want then Inr () else Inl Operation)) (\<lambda>_.
      let image_id_str = digest_text env image_id in
      res_bind (upload_image env image_id_str image_data) (\<lambda>_. Inr image_id_str)))))))"

definition char_of_byte :: "8 word \<Rightarrow> char" where "char_of_byte b = char_of (unat b)"

definition upload_order_input :: "Risc0Backend \<Rightarrow> ProofRequest \<Rightarrow> BackendFailure + string" where
  "upload_order_input b req =
     (let env = rb_env b; input = request_input req in
      case inputType input of
        Inline \<Rightarrow> res_bind (ok_or Operation (guest_env_stdin env (inputData input))) (upload_input env)
      | Url \<Rightarrow>
          (if \<not> utf8_valid (inputData input) then Inl Operation
           else let uri = map char_of_byte (inputData input) in
             res_bind (if rb_priority_check b (client_address req) then download_unlimited env uri
                       else download env uri) (\<lambda>raw.
             res_bind (ok_or Operation (guest_env_stdin env raw)) (upload_input env)))
      | RequestInputTypeInvalid \<Rightarrow> Inl Operation)"

definition start_order :: "Risc0Backend \<Rightarrow> ProcessOrder \<Rightarrow> BackendFailure + string" where
  "start_order b cmd =
     res_bind (case po_image_id cmd of Some v \<Rightarrow> Inr v | None \<Rightarrow> upload_order_image b (po_request cmd)) (\<lambda>img.
     res_bind (case po_input_id cmd of Some v \<Rightarrow> Inr v | None \<Rightarrow> upload_order_input b (po_request cmd)) (\<lambda>inp.
     prove_stark (rb_env b) img inp))"

text \<open>\<open>compress_order_proof\<close>; without a compression type the code is \<open>unreachable!\<close>, here \<open>None\<close>.\<close>

definition compress_order_proof ::
    "Risc0Backend \<Rightarrow> string \<Rightarrow> CompressionType \<Rightarrow> (BackendFailure + string) option" where
  "compress_order_proof b stark_proof_id ty =
     (case ty of
        Groth16 \<Rightarrow> Some (res_bind (compress (rb_env b) stark_proof_id) (\<lambda>p.
                     res_bind (verify_groth16_receipt (rb_env b) p) (\<lambda>_. Inr p)))
      | Blake3Groth16 \<Rightarrow> Some (res_bind (compress_blake3_groth16 (rb_env b) stark_proof_id) (\<lambda>p.
                           res_bind (verify_blake3_groth16_receipt (rb_env b) p) (\<lambda>_. Inr p)))
      | NoCompression \<Rightarrow> None)"

definition risc0_process_order :: "Risc0Backend \<Rightarrow> ProcessOrder \<Rightarrow> BackendFailure + OrderProcessProgress" where
  "risc0_process_order b cmd =
     (case po_backend_state cmd of
        None \<Rightarrow>
          res_bind (start_order b cmd) (\<lambda>pid.
            Inr (InProgress (json_encode (rb_env b)
              \<lparr>version = RISC0_ORDER_STATE_VERSION, proof_id = pid, compressed_proof_id = None\<rparr>)))
      | Some raw \<Rightarrow>
          res_bind (risc0_order_state_decode (rb_env b) raw) (\<lambda>state.
          res_bind (wait_for_stark (rb_env b) (proof_id state)) (\<lambda>_.
          let sel = normalize_selector b (req_selector (requirements (po_request cmd)));
              compression_type = compression_type_for_selector sel
          in if compression_type \<noteq> NoCompression \<and> compressed_proof_id state = None then
               (case compress_order_proof b (proof_id state) compression_type of
                  None \<Rightarrow> Inl Operation
                | Some r \<Rightarrow> res_bind r (\<lambda>compressed.
                    Inr (InProgress (json_encode (rb_env b) (state\<lparr>compressed_proof_id := Some compressed\<rparr>)))))
             else Inr (Completed
               \<lparr>pr_backend_id = rb_id b, pr_order_id = po_order_id cmd,
                pr_submission_path = submission_path_for_risc0_selector sel,
                pr_compressed = (compressed_proof_id state \<noteq> None)\<rparr>))))"

definition risc0_cancel_order :: "Risc0Backend \<Rightarrow> CancelOrder \<Rightarrow> BackendFailure + unit" where
  "risc0_cancel_order b cmd =
     (case co_backend_state cmd of
        None \<Rightarrow> Inr ()
      | Some raw \<Rightarrow>
          res_bind (risc0_order_state_decode (rb_env b) raw) (\<lambda>state.
            if co_is_proving cmd then cancel_stark (rb_env b) (proof_id state) else Inr ()))"

definition risc0_fulfillment_gas :: "Risc0Backend \<Rightarrow> ProofRequest \<Rightarrow> BackendFailure + u64" where
  "risc0_fulfillment_gas b req =
     Inr (case submission_path_for_risc0_selector (normalize_selector b (req_selector (requirements req))) of
            Direct \<Rightarrow> direct_fulfill_gas (rb_cost_model b)
          | Batched \<Rightarrow> batched_fulfill_gas (rb_cost_model b))"

definition risc0_additional_proof_cycles :: "Risc0Backend \<Rightarrow> ProofRequest \<Rightarrow> BackendFailure + u64" where
  "risc0_additional_proof_cycles b req =
     Inr (case submission_path_for_risc0_selector (normalize_selector b (req_selector (requirements req))) of
            Direct \<Rightarrow> direct_additional_proof_cycles (rb_cost_model b)
          | Batched \<Rightarrow> batched_additional_proof_cycles (rb_cost_model b))"

definition risc0_assessor_group :: "Risc0Backend \<Rightarrow> selector \<Rightarrow> BackendFailure + selector option" where
  "risc0_assessor_group b s =
     res_bind (ok_or Operation (assessor_selector_for_signed (rb_router_policy b) s)) (\<lambda>g. Inr (Some g))"

definition risc0_backend :: "Risc0Backend \<Rightarrow> Backend" where
  "risc0_backend b =
     \<lparr>bk_id = rb_id b,
      bk_supported_selectors = policy_supported_selectors (rb_router_policy b),
      bk_proof_type = (\<lambda>s. proof_type_for_selector (normalize_selector b s)),
      bk_assessor_group = risc0_assessor_group b,
      bk_fulfillment_gas = risc0_fulfillment_gas b,
      bk_additional_proof_cycles = risc0_additional_proof_cycles b,
      bk_evaluate_request = evaluate (rb_env b),
      bk_process_order = risc0_process_order b,
      bk_cancel_order = risc0_cancel_order b\<rparr>"

text \<open>\<open>with_provers\<close> with the policy of \<open>router_policy\<close>.\<close>

definition risc0_new :: "risc0_env \<Rightarrow> (address \<Rightarrow> bool) \<Rightarrow> RouterRegistry \<Rightarrow> selector \<Rightarrow> bool \<Rightarrow> Risc0Backend" where
  "risc0_new env priority_check reg set_inclusion_selector dev_mode =
     \<lparr>rb_id = ''risc0_v3'', rb_env = env, rb_priority_check = priority_check,
      rb_router_policy = risc0_router_policy reg set_inclusion_selector dev_mode,
      rb_cost_model = risc0_cost_model_default\<rparr>"

section \<open>The backend keeps its contract\<close>

lemma produced_classified:
  "produced \<in> snd ` set (risc0_producible set_sel dev) \<Longrightarrow> proof_type_for_selector produced \<noteq> None"
  by (auto simp: risc0_producible_def proof_type_for_selector_def split: if_splits)

lemma producible_selector_produced:
  assumes "p = router_policy_new reg pairs prio" "producible_selector p s = Some q"
  shows "q \<in> snd ` set pairs"
proof (cases "map_of (producible p) s")
  case None
  then obtain x where "find (in_class reg s) pairs = Some x" "q = snd x"
    using assms by (auto simp: producible_selector_def policy_new_parts(4))
  then show ?thesis by (auto simp: find_Some_iff in_set_conv_nth intro!: imageI)
next
  case (Some q')
  then have "map_of (rev (covered reg pairs)) s = Some q"
    using assms by (auto simp: producible_selector_def policy_new_parts(3))
  then show ?thesis by (force dest: map_of_SomeD simp: covered_def)
qed

lemma supported_resolves:
  assumes "p = router_policy_new reg pairs prio" "s \<in> set (policy_supported_selectors p)"
  shows "s = UNSPECIFIED_SELECTOR \<or> producible_selector p s \<noteq> None"
  using assms(2) policy_new_parts(7) [OF assms(1)]
  by (auto simp: policy_supported_selectors_def producible_selector_def split: option.split if_splits
      dest: map_of_eq_None_iff [THEN iffD1])

interpretation risc0: backend "risc0_backend (risc0_new env priority_check reg set_sel dev)"
proof
  fix s
  let ?b = "risc0_new env priority_check reg set_sel dev"
  let ?p = "router_policy_new reg (risc0_producible set_sel dev) ASSESSOR_PRIORITY"
  assume "s \<in> set (bk_supported_selectors (risc0_backend ?b))"
  then have s: "s \<in> set (policy_supported_selectors ?p)"
    by (simp add: risc0_backend_def risc0_new_def risc0_router_policy_def)
  have n: "normalize_selector ?b s = (case producible_selector ?p s of Some q \<Rightarrow> q | None \<Rightarrow> s)"
    by (simp add: normalize_selector_def risc0_new_def risc0_router_policy_def)
  have "proof_type_for_selector (normalize_selector ?b s) \<noteq> None"
  proof (cases "producible_selector ?p s")
    case None
    then have "s = UNSPECIFIED_SELECTOR" using supported_resolves [OF refl s] by simp
    then show ?thesis using n None by (simp add: proof_type_for_selector_def)
  next
    case (Some q)
    then show ?thesis using n produced_classified [OF producible_selector_produced [OF refl Some]] by simp
  qed
  then show "bk_proof_type (risc0_backend ?b) s \<noteq> None" by (simp add: risc0_backend_def)
qed

lemma policy_supported_distinct:
  assumes "wf_registry reg" "p = router_policy_new reg pairs prio"
  shows "distinct (policy_supported_selectors p)"
proof -
  note P = policy_new_parts [OF assms(2)]
  have wf: "entries reg 0 = None"
    "\<And>s e. entries reg s = Some e \<Longrightarrow> class_id e \<noteq> 0 \<and> entries reg (class_id e) = None"
    using assms(1) by (auto simp: wf_registry_def)
  have prd: "entries reg s \<noteq> None" if "s \<in> set (map fst (producible p))" for s
    using producible_keys [OF assms(2), of s] that by (simp add: map_of_eq_None_iff)
  have cls: "s \<noteq> 0 \<and> entries reg s = None" if "s \<in> set (supported_classes p)" for s
  proof -
    have "map_of (class_to_producible p) s \<noteq> None" using that P(7) by blast
    then obtain t e where te: "entries reg t = Some e" "class_id e = s" using class_keys [OF assms(2)] by blast
    show ?thesis using wf(2) [OF te(1)] te(2) by simp
  qed
  have "0 \<notin> set (map fst (producible p))" using prd [of 0] wf(1) by blast
  moreover have "set (map fst (producible p)) \<inter> set (supported_classes p) = {}" "0 \<notin> set (supported_classes p)"
    using prd cls by blast+
  ultimately show ?thesis
    using P(5,6) by (auto simp: policy_supported_selectors_def UNSPECIFIED_SELECTOR_def)
qed

text \<open>Direct submission is exactly what needs a compressed proof.\<close>

lemma direct_iff_compressed:
  "submission_path_for_risc0_selector s = Direct \<longleftrightarrow> compression_type_for_selector s \<noteq> NoCompression"
  by (simp add: submission_path_for_risc0_selector_def compression_type_for_selector_def)

text \<open>C34: on every registry the router can hold, the RISC Zero backend registers as soon as it has one
  selector to serve; each selector it advertises is then dispatched to it, is classified, and has
  one of the two assessors it knows.\<close>

theorem risc0_serves_advertised:
  assumes "wf_registry reg" "policy_supported_selectors (risc0_router_policy reg set_sel dev) \<noteq> []"
    and b_def: "b = risc0_backend (risc0_new env priority_check reg set_sel dev)"
  shows "\<exists>r. register_backend router_new (backend_entry_new b) = Inr r
     \<and> (\<forall>s\<in>set (bk_supported_selectors b).
          backend_for_selector r s = Inr b \<and> is_supported (router_supported_selectors r) s
          \<and> (\<exists>g\<in>set ASSESSOR_PRIORITY. router_assessor_group r (bk_id b) s = Inr (Some g)))"
proof -
  define p where "p = risc0_router_policy reg set_sel dev"
  have p: "p = router_policy_new reg (risc0_producible set_sel dev) ASSESSOR_PRIORITY"
    by (simp add: p_def risc0_router_policy_def)
  have sel: "bk_supported_selectors b = policy_supported_selectors p" "bk_id b = ''risc0_v3''"
    "bk_assessor_group b = (\<lambda>s. res_bind (ok_or Operation (assessor_selector_for_signed p s)) (\<lambda>g. Inr (Some g)))"
    by (simp_all add: b_def risc0_backend_def risc0_new_def p_def risc0_assessor_group_def [abs_def])
  obtain r where r: "register_backend router_new (backend_entry_new b) = Inr r"
    using risc0.registers [of env priority_check reg set_sel dev router_new] assms(2)
      policy_supported_distinct [OF assms(1) p] sel
    by (auto simp: router_new_def p_def simp flip: b_def)
  have ok: "router_ok router_new" by (simp add: router_ok_def router_new_def)
  note R = register_backend_ok [OF ok r]
  have en: "en_selectors (backend_entry_new b) = bk_supported_selectors b" "en_id (backend_entry_new b) = bk_id b"
    "en_backend (backend_entry_new b) = b"
    by (simp_all add: backend_entry_new_def)
  have "backend_for_selector r s = Inr b \<and> is_supported (router_supported_selectors r) s
          \<and> (\<exists>g\<in>set ASSESSOR_PRIORITY. router_assessor_group r (bk_id b) s = Inr (Some g))"
    if s: "s \<in> set (bk_supported_selectors b)" for s
  proof (intro conjI)
    have rt: "routes r s = Some (bk_id b)" "backends r (bk_id b) = Some (backend_entry_new b)"
      using R(3,4) s en by simp_all
    then show "backend_for_selector r s = Inr b" by (simp add: backend_for_selector_def ok_or_def en)
    have "bk_proof_type b s \<noteq> None" using risc0.classified s unfolding b_def by blast
    then show "is_supported (router_supported_selectors r) s"
      using rt by (simp add: is_supported_def router_supported_selectors_def en)
    have "assessor_selector_for_signed p s \<noteq> None" using s sel(1) supported_sealable [OF assms(1) p] by simp
    then obtain g where g: "assessor_selector_for_signed p s = Some g" by auto
    then have "g \<in> set (assessor_priority p)"
      by (auto simp: assessor_selector_for_signed_def assessor_for_verifier_class_def find_Some_iff split: option.splits)
    then have "g \<in> set ASSESSOR_PRIORITY" using policy_new_parts(2) [OF p] by simp
    then show "\<exists>g\<in>set ASSESSOR_PRIORITY. router_assessor_group r (bk_id b) s = Inr (Some g)"
      using g rt by (auto simp: router_assessor_group_def backend_for_id_def ok_or_def en sel(3))
  qed
  then show ?thesis using r by blast
qed

text \<open>An image is used for an order only if it is the one the request demands: the identifier that
  is proved is the text of the required digest, and the image was already in the prover's store
  or its downloaded bytes hash to that digest. Digests are read back from their text.\<close>

theorem upload_order_image_required:
  assumes "\<And>d. digest_from_hex (rb_env b) (digest_text (rb_env b) d) = Some d"
    and "upload_order_image b req = Inr img"
    and "predicate_try_from (predicate (requirements req)) = Inr p" "predicate_image_id p = Some d"
  shows "img = digest_text (rb_env b) d
     \<and> (has_image (rb_env b) img = Inr True
        \<or> (\<exists>elf. download (rb_env b) (imageUrl req) = Inr elf \<and> compute_image_id (rb_env b) elf = Some d
              \<and> upload_image (rb_env b) img elf = Inr ()))"
  using assms(2) unfolding upload_order_image_def
  by (auto simp: assms Let_def res_bind_Inr ok_or_def split: if_splits option.splits sum.splits)

section \<open>A prover that answers\<close>

text \<open>A codec for order states, and an environment whose prover, downloader and library all answer.\<close>

definition byte_of_char :: "char \<Rightarrow> 8 word" where "byte_of_char c = word_of_nat (of_char c)"

lemma char_byte [simp]: "char_of_byte (byte_of_char c) = c" "byte_of_char (char_of_byte b) = b"
proof -
  have "of_char c < (256 :: nat)" by (rule nat_of_char_less_256)
  then show "char_of_byte (byte_of_char c) = c" by (simp add: char_of_byte_def byte_of_char_def unat_of_nat)
  have "unat b < 256" using unat_lt [of b] by simp
  then show "byte_of_char (char_of_byte b) = b" by (simp add: char_of_byte_def byte_of_char_def)
qed

fun mark_string :: "string \<Rightarrow> bytes" where
  "mark_string [] = [0]"
| "mark_string (c # cs) = 1 # byte_of_char c # mark_string cs"

fun unmark_string :: "bytes \<Rightarrow> string \<times> bytes" where
  "unmark_string (m # r) =
     (if m = 0 then ([], r)
      else case r of [] \<Rightarrow> ([], []) | c # r' \<Rightarrow> (let (cs, rest) = unmark_string r' in (char_of_byte c # cs, rest)))"
| "unmark_string [] = ([], [])"

definition sample_encode :: "Risc0OrderState \<Rightarrow> bytes" where
  "sample_encode st = mark_string (proof_id st)
     @ (case compressed_proof_id st of None \<Rightarrow> [0] | Some c \<Rightarrow> 1 # mark_string c)
     @ u32_to_le_bytes 4 (version st)"

definition sample_decode :: "bytes \<Rightarrow> Risc0OrderState option" where
  "sample_decode raw =
     (let (p, r) = unmark_string raw;
          (c, r') = (if hd r = 0 then (None, tl r) else (let (c, r') = unmark_string (tl r) in (Some c, r')))
      in Some \<lparr>version = u32_from_le_bytes r', proof_id = p, compressed_proof_id = c\<rparr>)"

lemma unmark_mark [simp]: "unmark_string (mark_string s @ r) = (s, r)"
  by (induction s) auto

definition sample_env :: risc0_env where
  "sample_env =
     \<lparr>has_image = (\<lambda>_. Inr False), upload_image = (\<lambda>_ _. Inr ()), upload_input = (\<lambda>_. Inr ''input''),
      prove_stark = (\<lambda>_ _. Inr ''stark''), wait_for_stark = (\<lambda>_. Inr ()), cancel_stark = (\<lambda>_. Inr ()),
      compress = (\<lambda>_. Inr ''snark''), compress_blake3_groth16 = (\<lambda>_. Inr ''snark''),
      verify_groth16_receipt = (\<lambda>_. Inr ()), verify_blake3_groth16_receipt = (\<lambda>_. Inr ()),
      download = (\<lambda>_. Inr (replicate 32 1)), download_unlimited = (\<lambda>_. Inr []),
      compute_image_id = Some, digest_text = map char_of_byte, digest_from_hex = (\<lambda>s. Some (map byte_of_char s)),
      guest_env_stdin = Some, json_encode = sample_encode, json_decode = sample_decode,
      evaluate = (\<lambda>_ _. Inl UnexpectedErr)\<rparr>"

lemma sample_codec: "json_decode sample_env (json_encode sample_env st) = Some st"
  using le_word_round_aux [of 4 "version st"]
  by (cases "compressed_proof_id st") (simp_all add: sample_env_def sample_encode_def sample_decode_def take_bit_word_eq_self)

lemma sample_hex: "digest_from_hex sample_env (digest_text sample_env d) = Some d"
  by (simp add: sample_env_def comp_def)

text \<open>A registry with a class for compressed proofs, a default class for set inclusion, and the on-chain
  assessor.\<close>

definition risc0_sample_registry :: RouterRegistry where
  "risc0_sample_registry =
     \<lparr>default_class_id = 0x10,
      entries = (\<lambda>s. if s = 0x73c457ba then Some \<lparr>implementation = 1, class_id = 0x11, gas_limit = 0\<rparr>
                     else if s = 0x99 then Some \<lparr>implementation = 2, class_id = 0x10, gas_limit = 0\<rparr>
                     else if s = 0x22 then Some \<lparr>implementation = 3, class_id = 0x20, gas_limit = 0\<rparr>
                     else None),
      required_assessor = [0x10 \<mapsto> 0x20, 0x11 \<mapsto> 0x20, 0x20 \<mapsto> 0]\<rparr>"

lemma risc0_sample_registry_wf: "wf_registry risc0_sample_registry"
  by (simp add: wf_registry_def risc0_sample_registry_def)

lemma risc0_sample_policy:
  "router_policy_new risc0_sample_registry (risc0_producible 0x99 False) ASSESSOR_PRIORITY =
     \<lparr>registry = risc0_sample_registry, assessor_priority = [0x22, 0x24],
      producible = [(0x73c457ba, 0x73c457ba), (0x99, 0)],
      class_to_producible = [(0x11, 0x73c457ba), (0x10, 0)], supported_classes = [0x11, 0x10]\<rparr>"
proof -
  have "collect_producible risc0_sample_registry (risc0_producible 0x99 False) ([], []) =
      ([(0x73c457ba, 0x73c457ba), (0x99, 0)], [(0x11, 0x73c457ba), (0x10, 0)])"
    by (simp add: risc0_producible_def risc0_sample_registry_def selector_consts map_insert_def or_insert_def)
  moreover have "entries risc0_sample_registry 0x22 = Some \<lparr>implementation = 3, class_id = 0x20, gas_limit = 0\<rparr>"
    "required_assessor risc0_sample_registry 0x10 = Some 0x20" "required_assessor risc0_sample_registry 0x11 = Some 0x20"
    by (simp_all add: risc0_sample_registry_def)
  ultimately show ?thesis
    by (simp add: router_policy_new_def assessor_for_verifier_class_def required_assessor_class_def
        ASSESSOR_PRIORITY_def ONCHAIN_ASSESSOR_SELECTOR_def R0_ASSESSOR_SELECTOR_def)
qed

theorem risc0_serves_advertised_witness:
  "\<exists>b r. b = risc0_backend (risc0_new sample_env (\<lambda>_. False) risc0_sample_registry 0x99 False)
     \<and> register_backend router_new (backend_entry_new b) = Inr r \<and> backend_for_selector r 0x10 = Inr b"
proof -
  define b where "b = risc0_backend (risc0_new sample_env (\<lambda>_. False) risc0_sample_registry 0x99 False)"
  have mem: "0x10 \<in> set (policy_supported_selectors (risc0_router_policy risc0_sample_registry 0x99 False))"
    by (simp add: risc0_router_policy_def risc0_sample_policy policy_supported_selectors_def)
  then have ne: "policy_supported_selectors (risc0_router_policy risc0_sample_registry 0x99 False) \<noteq> []" by auto
  have "0x10 \<in> set (bk_supported_selectors b)" using mem by (simp add: b_def risc0_backend_def risc0_new_def)
  then show ?thesis
    using risc0_serves_advertised [OF risc0_sample_registry_wf ne b_def] b_def by blast
qed

definition image_request :: ProofRequest where
  "image_request = request (sample_order LockAndFulfill)"

theorem upload_order_image_required_witness:
  "\<exists>b img. rb_env b = sample_env \<and> upload_order_image b image_request = Inr img
     \<and> img = digest_text sample_env (replicate 32 1)"
proof -
  define b where "b = risc0_new sample_env (\<lambda>_. False) risc0_sample_registry 0x99 False"
  have env: "rb_env b = sample_env" by (simp add: b_def risc0_new_def)
  have p: "predicate_try_from (predicate (requirements image_request)) = Inr (PrefixMatch (replicate 32 1) [])"
    by (simp add: image_request_def sample_order_def order_request_new_def requirements_new_def predicate_try_from_def split_at_checked_def digest_try_from_def)
  have "upload_order_image b image_request = Inr (digest_text sample_env (replicate 32 1))"
    by (simp add: upload_order_image_def env p ok_or_def sample_env_def)
  then show ?thesis
    using upload_order_image_required [of b, unfolded env, OF sample_hex _ p] env by auto
qed

end
