(* ===== verification/BrokerDb.thy ===== *)
theory BrokerDb
  imports Backend "HOL-Library.Sublist"
begin

text \<open>
  The broker's database, \<open>db/sqlite.rs\<close>: the tables of orders and batches and the tables of
  requests seen locked or fulfilled, with one operation for each method of the trait \<open>BrokerDb\<close>
  (\<open>db/mod.rs\<close>) and the batch type of \<open>batcher/types.rs\<close>.

  A table is the list of its rows in order of insertion; the code's statements read and update rows
  by their key or by a predicate, and where one asks for a single row (\<open>LIMIT 1\<close>) it is the first.
  The key of a request in the last two tables is the request id itself instead of its hexadecimal
  text. Any statement may fail (the file is locked, the connection is lost): \<open>db_faults\<close> lists
  what happens to the statements to come, and a statement that fails changes nothing.
\<close>

section \<open>Tables\<close>

datatype DbError =
    OrderNotFound string | BatchNotFound nat | MissingElm string | SqlErr | SqlPoolTimedOut
  | SqlDatabaseLocked | SqlUniqueViolation | InvalidOrder string string | DuplicateOrderId string

datatype BatchStatus = Open | PendingCompression | ReadyToSubmit | BatchPendingSubmission | Submitted
  | BatchFailed

record Batch =
  bt_backend_id :: string
  bt_status :: BatchStatus
  bt_orders :: "string list"
  bt_backend_state :: "bytes option"
  bt_start_time :: u64
  bt_deadline :: "u64 option"
  bt_fees :: u256
  bt_error_msg :: "string option"

definition batch_new :: "string \<Rightarrow> u64 \<Rightarrow> Batch" where
  "batch_new backend_id start_time =
     \<lparr>bt_backend_id = backend_id, bt_status = Open, bt_orders = [], bt_backend_state = None,
      bt_start_time = start_time, bt_deadline = None, bt_fees = 0, bt_error_msg = None\<rparr>"

record BatchReadyOrder =
  br_order_id :: string
  br_expiration :: u64
  br_fee :: u256
  br_fulfillment_type :: FulfillmentType
  br_request_id :: u256
  br_lock_expiration :: u64
  br_selector :: selector

record broker_db =
  db_orders :: "(string \<times> Order) list"
  db_batches :: "(nat \<times> Batch) list"
  db_next_batch :: nat
  db_fulfilled :: "u256 \<rightharpoonup> u64"
  db_locked :: "u256 \<rightharpoonup> string \<times> u64"
  db_faults :: "DbError option list"

type_synonym 'a db_result = "(DbError + 'a) \<times> broker_db"

definition db_empty :: broker_db where
  "db_empty = \<lparr>db_orders = [], db_batches = [], db_next_batch = 1, db_fulfilled = Map.empty,
     db_locked = Map.empty, db_faults = []\<rparr>"

text \<open>One statement of SQL.\<close>

definition statement :: "(broker_db \<Rightarrow> 'a db_result) \<Rightarrow> broker_db \<Rightarrow> 'a db_result" where
  "statement sql db =
     (case db_faults db of
        [] \<Rightarrow> sql db
      | None # fs \<Rightarrow> sql (db\<lparr>db_faults := fs\<rparr>)
      | Some e # fs \<Rightarrow> (Inl e, db\<lparr>db_faults := fs\<rparr>))"

fun db_bind :: "('e + 'a) \<times> 's \<Rightarrow> ('a \<Rightarrow> 's \<Rightarrow> ('e + 'b) \<times> 's) \<Rightarrow> ('e + 'b) \<times> 's" where
  "db_bind (Inl e, s) f = (Inl e, s)"
| "db_bind (Inr x, s) f = f x s"

text \<open>\<open>UPDATE ... WHERE\<close>: the rows a predicate selects, changed.\<close>

definition update_where :: "('k \<Rightarrow> 'v \<Rightarrow> bool) \<Rightarrow> ('v \<Rightarrow> 'v) \<Rightarrow> ('k \<times> 'v) list \<Rightarrow> ('k \<times> 'v) list" where
  "update_where P f rows = map (\<lambda>(k, v). (k, if P k v then f v else v)) rows"

definition rows_where :: "('k \<Rightarrow> 'v \<Rightarrow> bool) \<Rightarrow> ('k \<times> 'v) list \<Rightarrow> ('k \<times> 'v) list" where
  "rows_where P rows = filter (\<lambda>(k, v). P k v) rows"

definition update_order :: "string \<Rightarrow> (Order \<Rightarrow> Order) \<Rightarrow> broker_db \<Rightarrow> unit db_result" where
  "update_order i f db =
     (if map_of (db_orders db) i = None then (Inl (OrderNotFound i), db)
      else (Inr (), db\<lparr>db_orders := update_where (\<lambda>k _. k = i) f (db_orders db)\<rparr>))"

definition update_batch_row :: "nat \<Rightarrow> (Batch \<Rightarrow> Batch) \<Rightarrow> broker_db \<Rightarrow> unit db_result" where
  "update_batch_row n f db =
     (if map_of (db_batches db) n = None then (Inl (BatchNotFound n), db)
      else (Inr (), db\<lparr>db_batches := update_where (\<lambda>k _. k = n) f (db_batches db)\<rparr>))"

text \<open>A row of the batch table is read back as a \<open>Batch\<close>, whose deadline is unsigned: a deadline
  stored as a negative number is an error of the row.\<close>

definition read_batch :: "Batch \<Rightarrow> DbError + Batch" where
  "read_batch b = (case bt_deadline b of Some d \<Rightarrow> if sint d < 0 then Inl SqlErr else Inr b | None \<Rightarrow> Inr b)"

section \<open>Orders\<close>

definition insert_accepted_order :: "id_lib \<Rightarrow> Order \<Rightarrow> broker_db \<Rightarrow> unit db_result" where
  "insert_accepted_order lib ord =
     statement (\<lambda>db. let i = db_order_id lib ord in
       if map_of (db_orders db) i = None then (Inr (), db\<lparr>db_orders := db_orders db @ [(i, ord)]\<rparr>)
       else (Inl (DuplicateOrderId i), db))"

definition insert_accepted_request ::
    "id_lib \<Rightarrow> u64 \<Rightarrow> u64 \<Rightarrow> OrderRequest \<Rightarrow> u256 \<Rightarrow> broker_db \<Rightarrow> Order db_result" where
  "insert_accepted_request lib now now' req lock_price db =
     (let ord = proving_order_from_request now now' req lock_price in
      db_bind (insert_accepted_order lib ord db) (\<lambda>_ db. (Inr ord, db)))"

definition get_order :: "string \<Rightarrow> broker_db \<Rightarrow> Order option db_result" where
  "get_order i = statement (\<lambda>db. (Inr (map_of (db_orders db) i), db))"

definition get_orders :: "string list \<Rightarrow> broker_db \<Rightarrow> Order list db_result" where
  "get_orders ids db =
     (if ids = [] then (Inr [], db)
      else statement (\<lambda>db. (Inr (map snd (rows_where (\<lambda>k _. k \<in> set ids) (db_orders db))), db)) db)"

definition get_submission_order ::
    "string \<Rightarrow> broker_db \<Rightarrow> (ProofRequest \<times> bytes \<times> string \<times> u256 \<times> FulfillmentType) db_result" where
  "get_submission_order i db =
     db_bind (get_order i db) (\<lambda>found db.
       (case found of
          None \<Rightarrow> Inl (OrderNotFound i)
        | Some ord \<Rightarrow>
            if db_status ord \<noteq> PendingSubmission then Inl (InvalidOrder i ''status'')
            else res_bind (ok_or (MissingElm ''image_id'') (db_image_id ord)) (\<lambda>img.
                 res_bind (ok_or (MissingElm ''lock_price'') (db_lock_price ord)) (\<lambda>price.
                 Inr (db_request ord, db_client_sig ord, img, price, db_fulfillment_type ord))), db))"

definition set_order_failure :: "u64 \<Rightarrow> string \<Rightarrow> string \<Rightarrow> broker_db \<Rightarrow> unit db_result" where
  "set_order_failure now i failure_str =
     statement (update_order i (\<lambda>ord. ord\<lparr>db_status := Failed, db_updated_at := now, db_error_msg := Some failure_str\<rparr>))"

definition set_order_complete :: "u64 \<Rightarrow> string \<Rightarrow> broker_db \<Rightarrow> unit db_result" where
  "set_order_complete now i = statement (update_order i (\<lambda>ord. ord\<lparr>db_status := Done, db_updated_at := now\<rparr>))"

definition committed_statuses :: "OrderStatus set" where
  "committed_statuses =
     {PendingProving, Proving, ReadyForBatch, Batching, ReadyForSubmission, PendingSubmission}"

definition get_committed_orders :: "broker_db \<Rightarrow> Order list db_result" where
  "get_committed_orders =
     statement (\<lambda>db. (Inr (map snd (rows_where (\<lambda>_ ord. db_status ord \<in> committed_statuses) (db_orders db))), db))"

definition get_expired_committed_orders :: "u64 \<Rightarrow> u32 \<Rightarrow> broker_db \<Rightarrow> Order list db_result" where
  "get_expired_committed_orders now grace_period_secs =
     statement (\<lambda>db. (Inr (map snd (rows_where (\<lambda>_ ord.
         db_status ord \<in> {PendingProving, Proving, ReadyForBatch, ReadyForSubmission, PendingSubmission}
         \<and> (case db_expire_timestamp ord of
               None \<Rightarrow> False
             | Some e \<Rightarrow> int (unat e) < int (unat now) - int (unat grace_period_secs))) (db_orders db))), db))"

definition get_proving_order :: "u64 \<Rightarrow> broker_db \<Rightarrow> Order option db_result" where
  "get_proving_order now =
     statement (\<lambda>db.
       (case rows_where (\<lambda>_ ord. db_status ord = PendingProving) (db_orders db) of
          [] \<Rightarrow> (Inr None, db)
        | (i, ord) # _ \<Rightarrow>
            (let claim = (\<lambda>ord. ord\<lparr>db_status := Proving, db_updated_at := now\<rparr>) in
             (Inr (Some (claim ord)), db\<lparr>db_orders := update_where (\<lambda>k _. k = i) claim (db_orders db)\<rparr>))))"

definition get_active_proofs :: "broker_db \<Rightarrow> Order list db_result" where
  "get_active_proofs =
     statement (\<lambda>db. (Inr (map snd (rows_where (\<lambda>_ ord. db_status ord = Proving) (db_orders db))), db))"

definition set_order_backend_state :: "u64 \<Rightarrow> string \<Rightarrow> bytes \<Rightarrow> broker_db \<Rightarrow> unit db_result" where
  "set_order_backend_state now i state =
     statement (update_order i (\<lambda>ord. ord\<lparr>db_backend_state := Some state, db_updated_at := now\<rparr>))"

definition set_order_batch_status :: "u64 \<Rightarrow> string \<Rightarrow> OrderStatus \<Rightarrow> string \<Rightarrow> broker_db \<Rightarrow> unit db_result" where
  "set_order_batch_status now i status backend_id =
     statement (update_order i (\<lambda>ord. ord\<lparr>db_status := status, db_backend_id := Some backend_id, db_updated_at := now\<rparr>))"

section \<open>Orders waiting for a batch\<close>

definition batch_ready_order :: "string \<times> Order \<Rightarrow> DbError + BatchReadyOrder" where
  "batch_ready_order row =
     (let (i, ord) = row in
      res_bind (ok_or (InvalidOrder i ''lock_price'') (db_lock_price ord)) (\<lambda>price.
        Inr \<lparr>br_order_id = i, br_expiration = expires_at (db_request ord), br_fee = price,
             br_fulfillment_type = db_fulfillment_type ord, br_request_id = request_id (db_request ord),
             br_lock_expiration = lock_expires_at (db_request ord),
             br_selector = req_selector (requirements (db_request ord))\<rparr>))"

fun batch_ready_orders :: "(string \<times> Order) list \<Rightarrow> DbError + (BatchReadyOrder \<times> OrderStatus) list" where
  "batch_ready_orders [] = Inr []"
| "batch_ready_orders (row # rows) =
     res_bind (batch_ready_order row) (\<lambda>r.
     res_bind (batch_ready_orders rows) (\<lambda>rs. Inr ((r, db_status (snd row)) # rs)))"

definition waiting_for_batch :: "string \<Rightarrow> Order \<Rightarrow> bool" where
  "waiting_for_batch backend_id ord \<longleftrightarrow>
     db_status ord \<in> {ReadyForBatch, Batching} \<and> db_backend_id ord = Some backend_id"

definition waiting_for_submission :: "string \<Rightarrow> Order \<Rightarrow> bool" where
  "waiting_for_submission backend_id ord \<longleftrightarrow>
     db_status ord = ReadyForSubmission \<and> db_backend_id ord = Some backend_id"

text \<open>The two older queries claim the rows before they project them, so a row without a price is an
  error after the claim.\<close>

definition claim_rows :: "(Order \<Rightarrow> bool) \<Rightarrow> (Order \<Rightarrow> Order) \<Rightarrow> broker_db \<Rightarrow> BatchReadyOrder list db_result" where
  "claim_rows P claim =
     statement (\<lambda>db.
       (res_bind (batch_ready_orders (map (\<lambda>(i, ord). (i, claim ord)) (rows_where (\<lambda>_. P) (db_orders db))))
          (\<lambda>rs. Inr (map fst rs)),
        db\<lparr>db_orders := update_where (\<lambda>_. P) claim (db_orders db)\<rparr>))"

definition get_pending_batch_orders :: "u64 \<Rightarrow> string \<Rightarrow> broker_db \<Rightarrow> BatchReadyOrder list db_result" where
  "get_pending_batch_orders now backend_id =
     claim_rows (waiting_for_batch backend_id) (\<lambda>ord. ord\<lparr>db_status := Batching, db_updated_at := now\<rparr>)"

definition get_pending_direct_submission_orders :: "u64 \<Rightarrow> string \<Rightarrow> broker_db \<Rightarrow> BatchReadyOrder list db_result" where
  "get_pending_direct_submission_orders now backend_id =
     claim_rows (waiting_for_submission backend_id)
       (\<lambda>ord. ord\<lparr>db_status := ReadyForSubmission, db_updated_at := now\<rparr>)"

definition peek_pending_batch_orders :: "string \<Rightarrow> broker_db \<Rightarrow> (BatchReadyOrder \<times> OrderStatus) list db_result" where
  "peek_pending_batch_orders backend_id =
     statement (\<lambda>db. (batch_ready_orders (rows_where (\<lambda>_. waiting_for_batch backend_id) (db_orders db)), db))"

definition peek_pending_direct_submission_orders ::
    "string \<Rightarrow> broker_db \<Rightarrow> (BatchReadyOrder \<times> OrderStatus) list db_result" where
  "peek_pending_direct_submission_orders backend_id =
     statement (\<lambda>db. (batch_ready_orders (rows_where (\<lambda>_. waiting_for_submission backend_id) (db_orders db)), db))"

definition claim_orders_for_batch :: "u64 \<Rightarrow> string list \<Rightarrow> string \<Rightarrow> broker_db \<Rightarrow> string list db_result" where
  "claim_orders_for_batch now ids backend_id db =
     (if ids = [] then (Inr [], db)
      else statement (\<lambda>db.
        let claimable = (\<lambda>i ord. i \<in> set ids \<and> waiting_for_batch backend_id ord) in
        (Inr (map fst (rows_where claimable (db_orders db))),
         db\<lparr>db_orders := update_where claimable
              (\<lambda>ord. ord\<lparr>db_status := Batching, db_backend_id := Some backend_id, db_updated_at := now\<rparr>)
              (db_orders db)\<rparr>)) db)"

section \<open>Batches\<close>

definition new_batch :: "u64 \<Rightarrow> string \<Rightarrow> broker_db \<Rightarrow> nat db_result" where
  "new_batch now backend_id =
     statement (\<lambda>db. (Inr (db_next_batch db),
       db\<lparr>db_batches := db_batches db @ [(db_next_batch db, batch_new backend_id now)],
          db_next_batch := Suc (db_next_batch db)\<rparr>))"

definition complete_batch :: "nat \<Rightarrow> bytes \<Rightarrow> broker_db \<Rightarrow> unit db_result" where
  "complete_batch n state =
     statement (update_batch_row n (\<lambda>b. b\<lparr>bt_status := ReadyToSubmit, bt_backend_state := Some state\<rparr>))"

definition get_complete_batch :: "broker_db \<Rightarrow> (nat \<times> Batch) option db_result" where
  "get_complete_batch =
     statement (\<lambda>db.
       (case rows_where (\<lambda>_ b. bt_status b = ReadyToSubmit) (db_batches db) of
          [] \<Rightarrow> (Inr None, db)
        | (n, b) # _ \<Rightarrow>
            (let claim = (\<lambda>b. b\<lparr>bt_status := BatchPendingSubmission\<rparr>) in
             (res_bind (read_batch (claim b)) (\<lambda>b. Inr (Some (n, b))),
              db\<lparr>db_batches := update_where (\<lambda>k _. k = n) claim (db_batches db)\<rparr>))))"

definition set_batch_submitted :: "nat \<Rightarrow> broker_db \<Rightarrow> unit db_result" where
  "set_batch_submitted n = statement (update_batch_row n (\<lambda>b. b\<lparr>bt_status := Submitted\<rparr>))"

definition set_batch_failure :: "nat \<Rightarrow> string \<Rightarrow> broker_db \<Rightarrow> unit db_result" where
  "set_batch_failure n err =
     statement (update_batch_row n (\<lambda>b. b\<lparr>bt_status := BatchFailed, bt_error_msg := Some err\<rparr>))"

definition get_current_batch :: "u64 \<Rightarrow> string \<Rightarrow> broker_db \<Rightarrow> nat db_result" where
  "get_current_batch now backend_id db =
     db_bind (statement (\<lambda>db. (Inr (length (db_batches db)), db)) db) (\<lambda>batch_count db.
       if batch_count = 0 then new_batch now backend_id db
       else db_bind (statement (\<lambda>db.
              (case rows_where (\<lambda>_ b. bt_status b \<in> {Open, PendingCompression} \<and> bt_backend_id b = backend_id)
                      (db_batches db) of
                 [] \<Rightarrow> Inr None
               | (n, b) # _ \<Rightarrow> res_bind (read_batch b) (\<lambda>_. Inr (Some n)), db)) db) (\<lambda>found db.
            case found of Some n \<Rightarrow> (Inr n, db) | None \<Rightarrow> new_batch now backend_id db))"

text \<open>\<open>update_batch\<close> runs in a transaction: the deadline as a minimum of \<open>i64\<close> values, the fees as a
  wrapping sum, then two statements for each order; an error before the commit rolls everything
  back.\<close>

definition i64_max :: u64 where "i64_max = 0x7FFFFFFFFFFFFFFF"

definition i64_min :: "u64 \<Rightarrow> u64 \<Rightarrow> u64" where
  "i64_min a b = (if sint a \<le> sint b then a else b)"

definition fold_deadline :: "u64 option \<Rightarrow> BatchReadyOrder list \<Rightarrow> u64" where
  "fold_deadline db_deadline orders =
     (case foldl (\<lambda>min r. Some (i64_min (case min of Some m \<Rightarrow> m | None \<Rightarrow> i64_max) (br_expiration r))) db_deadline orders of
        Some d \<Rightarrow> d | None \<Rightarrow> i64_max)"

definition fold_fees :: "u256 \<Rightarrow> BatchReadyOrder list \<Rightarrow> u256" where
  "fold_fees db_fees orders = foldl (\<lambda>sum r. sum + br_fee r) db_fees orders"

fun add_batch_orders :: "u64 \<Rightarrow> nat \<Rightarrow> BatchReadyOrder list \<Rightarrow> broker_db \<Rightarrow> unit db_result" where
  "add_batch_orders now n [] db = (Inr (), db)"
| "add_batch_orders now n (r # rs) db =
     db_bind (statement (update_batch_row n (\<lambda>b. b\<lparr>bt_orders := bt_orders b @ [br_order_id r]\<rparr>)) db) (\<lambda>_ db.
     db_bind (statement (update_order (br_order_id r)
                (\<lambda>ord. ord\<lparr>db_status := PendingSubmission, db_updated_at := now\<rparr>)) db) (\<lambda>_ db.
     add_batch_orders now n rs db))"

definition transaction :: "(broker_db \<Rightarrow> 'a db_result) \<Rightarrow> broker_db \<Rightarrow> 'a db_result" where
  "transaction body db =
     (case body db of
        (Inl e, db') \<Rightarrow> (Inl e, db\<lparr>db_faults := db_faults db'\<rparr>)
      | (Inr x, db') \<Rightarrow> (Inr x, db'))"

definition update_batch ::
    "u64 \<Rightarrow> nat \<Rightarrow> bytes \<Rightarrow> BatchReadyOrder list \<Rightarrow> bool \<Rightarrow> broker_db \<Rightarrow> unit db_result" where
  "update_batch now n backend_state orders finalize =
     transaction (\<lambda>db.
       db_bind (statement (\<lambda>db. (Inr (), db)) db) (\<lambda>_ db.
       db_bind (statement (\<lambda>db. (ok_or (BatchNotFound n) (map_of (db_batches db) n), db)) db) (\<lambda>b db.
       db_bind (statement (update_batch_row n (\<lambda>row. row
            \<lparr>bt_deadline := Some (fold_deadline (bt_deadline b) orders),
             bt_fees := fold_fees (bt_fees b) orders,
             bt_backend_state := Some backend_state\<rparr>)) db) (\<lambda>_ db.
       db_bind (add_batch_orders now n orders db) (\<lambda>_ db.
       db_bind (if finalize
                then statement (update_batch_row n (\<lambda>row. row\<lparr>bt_status := PendingCompression\<rparr>)) db
                else (Inr (), db)) (\<lambda>_ db.
       statement (\<lambda>db. (Inr (), db)) db))))))"

definition get_batch :: "nat \<Rightarrow> broker_db \<Rightarrow> Batch db_result" where
  "get_batch n =
     statement (\<lambda>db.
       (case map_of (db_batches db) n of Some b \<Rightarrow> read_batch b | None \<Rightarrow> Inl (BatchNotFound n), db))"

section \<open>Requests seen on chain\<close>

definition set_request_fulfilled :: "u256 \<Rightarrow> u64 \<Rightarrow> broker_db \<Rightarrow> unit db_result" where
  "set_request_fulfilled rid block_number =
     statement (\<lambda>db. if db_fulfilled db rid = None
       then (Inr (), db\<lparr>db_fulfilled := (db_fulfilled db)(rid \<mapsto> block_number)\<rparr>)
       else (Inl SqlUniqueViolation, db))"

definition is_request_fulfilled :: "u256 \<Rightarrow> broker_db \<Rightarrow> bool db_result" where
  "is_request_fulfilled rid = statement (\<lambda>db. (Inr (db_fulfilled db rid \<noteq> None), db))"

definition set_request_locked :: "u256 \<Rightarrow> string \<Rightarrow> u64 \<Rightarrow> broker_db \<Rightarrow> unit db_result" where
  "set_request_locked rid locker block_number =
     statement (\<lambda>db. if db_locked db rid = None
       then (Inr (), db\<lparr>db_locked := (db_locked db)(rid \<mapsto> (locker, block_number))\<rparr>)
       else (Inl SqlUniqueViolation, db))"

definition is_request_locked :: "u256 \<Rightarrow> broker_db \<Rightarrow> bool db_result" where
  "is_request_locked rid = statement (\<lambda>db. (Inr (db_locked db rid \<noteq> None), db))"

definition get_request_locked :: "u256 \<Rightarrow> broker_db \<Rightarrow> (string \<times> u64) option db_result" where
  "get_request_locked rid = statement (\<lambda>db. (Inr (db_locked db rid), db))"

section \<open>Statements\<close>

text \<open>What a statement does, apart from the list of faults to come.\<close>

definition tables :: "broker_db \<Rightarrow> broker_db" where
  "tables db = db\<lparr>db_faults := []\<rparr>"

lemma tables_simps [simp]:
  "db_orders (tables db) = db_orders db" "db_batches (tables db) = db_batches db"
  "db_next_batch (tables db) = db_next_batch db" "db_fulfilled (tables db) = db_fulfilled db"
  "db_locked (tables db) = db_locked db" "db_faults (tables db) = []" "tables (db\<lparr>db_faults := fs\<rparr>) = tables db"
  by (simp_all add: tables_def)

lemma tables_eqI:
  assumes "db_orders a = db_orders b" "db_batches a = db_batches b" "db_next_batch a = db_next_batch b"
    "db_fulfilled a = db_fulfilled b" "db_locked a = db_locked b"
  shows "tables a = tables b"
  using assms by (simp add: tables_def)

lemma tables_eqD:
  assumes "tables a = tables b"
  shows "db_orders a = db_orders b" "db_batches a = db_batches b" "db_next_batch a = db_next_batch b"
    "db_fulfilled a = db_fulfilled b" "db_locked a = db_locked b"
  using assms by (cases a; cases b; simp add: tables_def)+

lemma statement_cases:
  obtains (fault) e fs where "statement sql db = (Inl e, db\<lparr>db_faults := fs\<rparr>)" "db_faults db \<noteq> []"
  | (run) fs where "statement sql db = sql (db\<lparr>db_faults := fs\<rparr>)" "db_faults db = [] \<Longrightarrow> fs = []"
proof (cases "db_faults db")
  case Nil
  then have "statement sql db = sql (db\<lparr>db_faults := []\<rparr>)" by (cases db) (simp add: statement_def)
  then show ?thesis using run by blast
next
  case (Cons f fs)
  then show ?thesis
    using fault [of _ fs] run [of fs] by (cases f) (simp_all add: statement_def)
qed

lemma statement_no_fault: "db_faults db = [] \<Longrightarrow> statement sql db = sql db"
  by (simp add: statement_def)

lemma db_bind_Inr: "db_bind m f = (Inr y, s) \<longleftrightarrow> (\<exists>x s'. m = (Inr x, s') \<and> f x s' = (Inr y, s))"
  by (cases m; cases "fst m") auto

lemma update_where_simps [simp]:
  "map fst (update_where P f rows) = map fst rows" "fst ` set (update_where P f rows) = fst ` set rows"
  by (induction rows) (auto simp: update_where_def)

lemma update_where_key:
  "map_of (update_where (\<lambda>k _. k = i) f rows) j = (if j = i then map_option f (map_of rows j) else map_of rows j)"
  by (induction rows) (auto simp: update_where_def)

section \<open>Nothing accepted is lost\<close>

text \<open>What was agreed when an order was accepted: everything but its progress.\<close>

definition accepted :: "Order \<Rightarrow> Order" where
  "accepted ord = ord\<lparr>db_status := PendingProving, db_updated_at := 0, db_backend_state := None,
     db_backend_id := None, db_error_msg := None\<rparr>"

definition order_log :: "broker_db \<Rightarrow> (string \<times> Order) list" where
  "order_log db = map (\<lambda>(i, ord). (i, accepted ord)) (db_orders db)"

definition db_ok :: "id_lib \<Rightarrow> broker_db \<Rightarrow> bool" where
  "db_ok lib db \<longleftrightarrow>
     distinct (map fst (db_orders db)) \<and> (\<forall>(i, ord)\<in>set (db_orders db). i = db_order_id lib ord)
     \<and> distinct (map fst (db_batches db))
     \<and> (\<forall>(n, b)\<in>set (db_batches db). n < db_next_batch db \<and> set (bt_orders b) \<subseteq> fst ` set (db_orders db))"

definition batch_grows :: "Batch \<Rightarrow> Batch \<Rightarrow> bool" where
  "batch_grows b b' \<longleftrightarrow>
     bt_backend_id b' = bt_backend_id b \<and> bt_start_time b' = bt_start_time b \<and> prefix (bt_orders b) (bt_orders b')"

definition db_grows :: "id_lib \<Rightarrow> broker_db \<Rightarrow> broker_db \<Rightarrow> bool" where
  "db_grows lib db db' \<longleftrightarrow>
     (db_ok lib db \<longrightarrow> db_ok lib db') \<and> prefix (order_log db) (order_log db')
     \<and> (\<forall>n b. map_of (db_batches db) n = Some b \<longrightarrow> (\<exists>b'. map_of (db_batches db') n = Some b' \<and> batch_grows b b'))
     \<and> db_fulfilled db \<subseteq>\<^sub>m db_fulfilled db' \<and> db_locked db \<subseteq>\<^sub>m db_locked db'"

lemma batch_grows_refl [simp]: "batch_grows b b"
  by (simp add: batch_grows_def)

lemma db_grows_refl [simp]: "db_grows lib db db"
  by (simp add: db_grows_def)

lemma db_grows_trans:
  assumes "db_grows lib a b" "db_grows lib b c"
  shows "db_grows lib a c"
proof -
  have "\<exists>y. map_of (db_batches c) n = Some y \<and> batch_grows x y" if "map_of (db_batches a) n = Some x" for n x
  proof -
    obtain y where y: "map_of (db_batches b) n = Some y" "batch_grows x y"
      using assms(1) \<open>map_of (db_batches a) n = Some x\<close> unfolding db_grows_def by blast
    obtain z where z: "map_of (db_batches c) n = Some z" "batch_grows y z"
      using assms(2) y(1) unfolding db_grows_def by blast
    then show ?thesis using y(2) by (auto simp: batch_grows_def)
  qed
  then show ?thesis
    using assms unfolding db_grows_def by (metis map_le_trans prefix_order.trans)
qed

lemma db_ok_faults [simp]: "db_ok lib (db\<lparr>db_faults := fs\<rparr>) \<longleftrightarrow> db_ok lib db"
  by (simp add: db_ok_def)

lemma db_grows_faults [simp]:
  "db_grows lib (db\<lparr>db_faults := fs\<rparr>) db' \<longleftrightarrow> db_grows lib db db'"
  "db_grows lib db (db'\<lparr>db_faults := fs\<rparr>) \<longleftrightarrow> db_grows lib db db'"
  by (simp_all add: db_grows_def order_log_def)

lemma grows_statement:
  assumes "\<And>db. db_grows lib db (snd (sql db))"
  shows "db_grows lib db (snd (statement sql db))"
proof (cases rule: statement_cases [of sql db])
  case (run fs)
  then show ?thesis using assms [of "db\<lparr>db_faults := fs\<rparr>"] by simp
qed simp

lemma grows_bind:
  assumes "db_grows lib db (snd m)" "\<And>x s. db_grows lib s (snd (f x s))"
  shows "db_grows lib db (snd (db_bind m f))"
  using assms db_grows_trans [of lib db "snd m"] by (cases m; cases "fst m") auto

lemma db_order_id_accepted: "accepted a = accepted b \<Longrightarrow> db_order_id lib a = db_order_id lib b"
  by (cases a; cases b) (simp add: accepted_def db_order_id_def)

lemma order_log_update_where:
  assumes "\<And>ord. accepted (f ord) = accepted ord"
  shows "order_log (db\<lparr>db_orders := update_where P f (db_orders db)\<rparr>) = order_log db"
  by (auto simp: order_log_def update_where_def assms)

lemma order_log_ids:
  "(\<forall>(i, ord)\<in>set (db_orders db). i = db_order_id lib ord) \<longleftrightarrow>
     (\<forall>(i, ord)\<in>set (order_log db). i = db_order_id lib ord)"
proof -
  have "db_order_id lib (accepted ord) = db_order_id lib ord" for ord
    by (rule db_order_id_accepted) (simp add: accepted_def)
  then show ?thesis by (auto simp: order_log_def)
qed

lemma order_log_fst: "map fst (order_log db) = map fst (db_orders db)"
  by (auto simp: order_log_def)

lemma grows_update_where:
  assumes "\<And>ord. accepted (f ord) = accepted ord"
  shows "db_grows lib db (db\<lparr>db_orders := update_where P f (db_orders db)\<rparr>)" (is "db_grows lib db ?db")
proof -
  note log = order_log_update_where [of f, OF assms, where db = db and P = P]
  have "db_ok lib ?db" if "db_ok lib db"
    using that log order_log_ids [of ?db lib] order_log_ids [of db lib] unfolding db_ok_def by simp
  then show ?thesis using log by (simp add: db_grows_def)
qed

lemma grows_update_order:
  assumes "\<And>ord. accepted (f ord) = accepted ord"
  shows "db_grows lib db (snd (update_order i f db))"
  using grows_update_where [of f, OF assms] by (simp add: update_order_def)

lemma grows_update_batch_where:
  assumes "\<And>b. batch_grows b (f b) \<and> bt_orders (f b) = bt_orders b"
  shows "db_grows lib db (db\<lparr>db_batches := update_where (\<lambda>k _. k = n) f (db_batches db)\<rparr>)"
proof -
  have "\<exists>b0. (k, b0) \<in> set (db_batches db) \<and> bt_orders b = bt_orders b0"
    if "(k, b) \<in> set (update_where (\<lambda>k _. k = n) f (db_batches db))" for k b
    using that assms by (auto simp: update_where_def split: if_splits)
  then have "db_ok lib (db\<lparr>db_batches := update_where (\<lambda>k _. k = n) f (db_batches db)\<rparr>)" if "db_ok lib db"
    using that unfolding db_ok_def by fastforce
  then show ?thesis using assms by (auto simp: db_grows_def order_log_def update_where_key)
qed

lemma grows_update_batch_row:
  assumes "\<And>b. batch_grows b (f b) \<and> bt_orders (f b) = bt_orders b"
  shows "db_grows lib db (snd (update_batch_row n f db))"
  using grows_update_batch_where [of f, OF assms] by (simp add: update_batch_row_def)

section \<open>Adding orders to a batch\<close>

definition batched :: "u64 \<Rightarrow> Order \<Rightarrow> Order" where
  "batched now ord = ord\<lparr>db_status := PendingSubmission, db_updated_at := now\<rparr>"

lemma update_where_keys_twice:
  assumes "\<And>v. f (f v) = f v"
  shows "update_where (\<lambda>k _. Q k) f (update_where (\<lambda>k _. P k) f rows) = update_where (\<lambda>k _. P k \<or> Q k) f rows"
  by (auto simp: update_where_def assms)

lemma update_where_key_twice:
  "update_where (\<lambda>k _. k = n) g (update_where (\<lambda>k _. k = n) f rows) = update_where (\<lambda>k _. k = n) (\<lambda>v. g (f v)) rows"
  by (auto simp: update_where_def)

lemma map_of_update_where_None: "map_of (update_where P f rows) i = None \<longleftrightarrow> map_of rows i = None"
  by (simp add: map_of_eq_None_iff)

lemma statement_Inr:
  assumes "statement sql db = (Inr x, db')"
  obtains fs where "sql (db\<lparr>db_faults := fs\<rparr>) = (Inr x, db')" "db_faults db = [] \<Longrightarrow> fs = []"
  using assms by (cases rule: statement_cases [of sql db]) auto

lemma update_order_Inr:
  "update_order i f db = (Inr x, db') \<longleftrightarrow>
     map_of (db_orders db) i \<noteq> None \<and> db' = db\<lparr>db_orders := update_where (\<lambda>k _. k = i) f (db_orders db)\<rparr>"
  by (auto simp: update_order_def)

lemma update_batch_row_Inr:
  "update_batch_row n f db = (Inr x, db') \<longleftrightarrow>
     map_of (db_batches db) n \<noteq> None \<and> db' = db\<lparr>db_batches := update_where (\<lambda>k _. k = n) f (db_batches db)\<rparr>"
  by (auto simp: update_batch_row_def)

lemma update_where_nothing: "update_where (\<lambda>_ _. False) f rows = rows" "update_where P (\<lambda>v. v) rows = rows"
  by (induction rows) (auto simp: update_where_def)

lemma add_batch_orders_Inr:
  assumes "add_batch_orders now n rs db = (Inr x, db')"
  shows "set (map br_order_id rs) \<subseteq> fst ` set (db_orders db)
     \<and> tables db' = tables (db
         \<lparr>db_orders := update_where (\<lambda>k _. k \<in> set (map br_order_id rs)) (batched now) (db_orders db),
          db_batches := update_where (\<lambda>k _. k = n) (\<lambda>b. b\<lparr>bt_orders := bt_orders b @ map br_order_id rs\<rparr>) (db_batches db)\<rparr>)"
  using assms
proof (induction rs arbitrary: db)
  case Nil
  then show ?case by (auto simp: update_where_nothing intro!: tables_eqI)
next
  case (Cons r rs)
  obtain db1 db2 where
    s1: "statement (update_batch_row n (\<lambda>b. b\<lparr>bt_orders := bt_orders b @ [br_order_id r]\<rparr>)) db = (Inr (), db1)"
    and s2: "statement (update_order (br_order_id r) (\<lambda>ord. ord\<lparr>db_status := PendingSubmission, db_updated_at := now\<rparr>)) db1 = (Inr (), db2)"
    and s3: "add_batch_orders now n rs db2 = (Inr x, db')"
    using Cons.prems by (auto simp: db_bind_Inr)
  from s1 obtain fs1 where d1: "db1 = db\<lparr>db_faults := fs1, db_batches := update_where (\<lambda>k _. k = n) (\<lambda>b. b\<lparr>bt_orders := bt_orders b @ [br_order_id r]\<rparr>) (db_batches db)\<rparr>"
    by (elim statement_Inr) (simp add: update_batch_row_Inr)
  from s2 obtain fs2 where d2: "map_of (db_orders db1) (br_order_id r) \<noteq> None"
    "db2 = db1\<lparr>db_faults := fs2, db_orders := update_where (\<lambda>k _. k = br_order_id r) (batched now) (db_orders db1)\<rparr>"
    by (elim statement_Inr) (auto simp: update_order_Inr batched_def [abs_def])
  have idem: "batched now (batched now ord) = batched now ord" for ord by (simp add: batched_def)
  have ids: "br_order_id r \<in> fst ` set (db_orders db)" using d2(1) by (simp add: d1 map_of_eq_None_iff)
  note IH = Cons.IH [OF s3]
  have "set (map br_order_id (r # rs)) \<subseteq> fst ` set (db_orders db)" using IH ids by (simp add: d1 d2)
  moreover have "update_where (\<lambda>k _. k \<in> set (map br_order_id rs)) (batched now) (update_where (\<lambda>k _. k = br_order_id r) (batched now) (db_orders db))
      = update_where (\<lambda>k _. k \<in> set (map br_order_id (r # rs))) (batched now) (db_orders db)"
    using update_where_keys_twice [of "batched now", OF idem] by simp
  moreover have "update_where (\<lambda>k _. k = n) (\<lambda>b. b\<lparr>bt_orders := bt_orders b @ map br_order_id rs\<rparr>)
        (update_where (\<lambda>k _. k = n) (\<lambda>b. b\<lparr>bt_orders := bt_orders b @ [br_order_id r]\<rparr>) (db_batches db))
      = update_where (\<lambda>k _. k = n) (\<lambda>b. b\<lparr>bt_orders := bt_orders b @ map br_order_id (r # rs)\<rparr>) (db_batches db)"
    unfolding update_where_key_twice by simp
  ultimately show ?case using IH by (auto simp: d1 d2 tables_def)
qed

lemma add_batch_orders_runs:
  assumes "db_faults db = []" "set (map br_order_id rs) \<subseteq> fst ` set (db_orders db)" "map_of (db_batches db) n \<noteq> None"
  shows "\<exists>db'. add_batch_orders now n rs db = (Inr (), db') \<and> db_faults db' = []"
  using assms
proof (induction rs arbitrary: db)
  case (Cons r rs)
  define db2 where "db2 = db
    \<lparr>db_batches := update_where (\<lambda>k _. k = n) (\<lambda>b. b\<lparr>bt_orders := bt_orders b @ [br_order_id r]\<rparr>) (db_batches db),
     db_orders := update_where (\<lambda>k _. k = br_order_id r) (\<lambda>ord. ord\<lparr>db_status := PendingSubmission, db_updated_at := now\<rparr>) (db_orders db)\<rparr>"
  have "map_of (db_orders db) (br_order_id r) \<noteq> None" using Cons.prems(2) by (auto simp: map_of_eq_None_iff)
  then have "add_batch_orders now n (r # rs) db = add_batch_orders now n rs db2"
    using Cons.prems(1,3) by (simp add: statement_no_fault update_order_def update_batch_row_def db2_def del: not_None_eq)
  moreover have "\<exists>db'. add_batch_orders now n rs db2 = (Inr (), db') \<and> db_faults db' = []"
    using Cons.prems by (intro Cons.IH) (simp_all add: db2_def map_of_update_where_None)
  ultimately show ?case by simp
qed simp

definition batch_added ::
    "u64 \<Rightarrow> nat \<Rightarrow> Batch \<Rightarrow> bytes \<Rightarrow> BatchReadyOrder list \<Rightarrow> bool \<Rightarrow> broker_db \<Rightarrow> broker_db" where
  "batch_added now n b state rs finalize db = db
     \<lparr>db_orders := update_where (\<lambda>k _. k \<in> set (map br_order_id rs)) (batched now) (db_orders db),
      db_batches := update_where (\<lambda>k _. k = n) (\<lambda>row. row
        \<lparr>bt_deadline := Some (fold_deadline (bt_deadline b) rs), bt_fees := fold_fees (bt_fees b) rs,
         bt_backend_state := Some state, bt_orders := bt_orders row @ map br_order_id rs,
         bt_status := (if finalize then PendingCompression else bt_status row)\<rparr>) (db_batches db)\<rparr>"

lemma transaction_Inr: "transaction body db = (Inr x, db') \<longleftrightarrow> body db = (Inr x, db')"
  by (auto simp: transaction_def split: prod.splits sum.splits)

lemma update_batch_Inl:
  "update_batch now n state rs finalize db = (Inl e, db') \<Longrightarrow> tables db' = tables db"
  by (auto simp: update_batch_def transaction_def split: prod.splits sum.splits)

lemma update_batch_Inr:
  assumes "update_batch now n state rs finalize db = (Inr x, db')"
  obtains b where "map_of (db_batches db) n = Some b" "set (map br_order_id rs) \<subseteq> fst ` set (db_orders db)"
    "tables db' = tables (batch_added now n b state rs finalize db)"
proof -
  obtain u0 b u2 u3 u4 db0 db1 db2 db3 db4 where
    s0: "statement (\<lambda>db. (Inr (), db)) db = (Inr u0, db0)"
    and s1: "statement (\<lambda>db. (ok_or (BatchNotFound n) (map_of (db_batches db) n), db)) db0 = (Inr b, db1)"
    and s2: "statement (update_batch_row n (\<lambda>row. row
            \<lparr>bt_deadline := Some (fold_deadline (bt_deadline b) rs), bt_fees := fold_fees (bt_fees b) rs,
             bt_backend_state := Some state\<rparr>)) db1 = (Inr u2, db2)"
    and s3: "add_batch_orders now n rs db2 = (Inr u3, db3)"
    and s4: "(if finalize then statement (update_batch_row n (\<lambda>row. row\<lparr>bt_status := PendingCompression\<rparr>)) db3
              else (Inr (), db3)) = (Inr u4, db4)"
    and s5: "statement (\<lambda>db. (Inr (), db)) db4 = (Inr x, db')"
    using assms unfolding update_batch_def transaction_Inr db_bind_Inr by blast
  from s0 have d0: "tables db0 = tables db" by (elim statement_Inr) auto
  from s1 obtain fs1 where "db1 = db0\<lparr>db_faults := fs1\<rparr>" "map_of (db_batches db0) n = Some b"
    by (elim statement_Inr) (auto simp: ok_or_Inr)
  then have d1: "tables db1 = tables db" "map_of (db_batches db) n = Some b"
    using d0 tables_eqD(2) [OF d0] by simp_all
  from s2 have d2: "tables db2 = tables (db1\<lparr>db_batches := update_where (\<lambda>k _. k = n) (\<lambda>row. row
            \<lparr>bt_deadline := Some (fold_deadline (bt_deadline b) rs), bt_fees := fold_fees (bt_fees b) rs,
             bt_backend_state := Some state\<rparr>) (db_batches db1)\<rparr>)"
    by (elim statement_Inr) (auto simp: update_batch_row_Inr tables_def)
  note d3 = add_batch_orders_Inr [OF s3]
  from s4 have d4: "tables db4 = tables (db3\<lparr>db_batches := update_where (\<lambda>k _. k = n)
      (\<lambda>row. row\<lparr>bt_status := (if finalize then PendingCompression else bt_status row)\<rparr>) (db_batches db3)\<rparr>)"
    by (cases finalize) (auto simp: update_batch_row_Inr update_where_nothing tables_def elim!: statement_Inr)
  from s5 have d5: "tables db' = tables db4" by (elim statement_Inr) auto
  note t = tables_eqD
  have "tables db' = tables (batch_added now n b state rs finalize db)"
    unfolding d5 d4
    by (rule tables_eqI) (simp_all add: t [OF conjunct2 [OF d3]] t [OF d2] t [OF d1(1)] batch_added_def update_where_key_twice cong: if_cong)
  moreover have "set (map br_order_id rs) \<subseteq> fst ` set (db_orders db)"
    using conjunct1 [OF d3] by (simp add: t [OF d2] t [OF d1(1)])
  ultimately show ?thesis using that d1(2) by blast
qed

text \<open>C8: a batch is extended in one piece: on any failure no table changes; on success exactly the given
  orders are appended to the batch and marked as pending submission, the fees grow by their sum
  and the deadline is the earliest of theirs; and without a failing statement it succeeds.\<close>

theorem update_batch_atomic:
  assumes "map_of (db_batches db) n = Some b"
  shows "(case update_batch now n state rs finalize db of
       (Inl e, db') \<Rightarrow> tables db' = tables db
     | (Inr _, db') \<Rightarrow> set (map br_order_id rs) \<subseteq> fst ` set (db_orders db)
           \<and> tables db' = tables (batch_added now n b state rs finalize db))
     \<and> (db_faults db = [] \<and> set (map br_order_id rs) \<subseteq> fst ` set (db_orders db) \<longrightarrow>
          (\<exists>db'. update_batch now n state rs finalize db = (Inr (), db')))"
proof (intro conjI impI)
  show "case update_batch now n state rs finalize db of
       (Inl e, db') \<Rightarrow> tables db' = tables db
     | (Inr _, db') \<Rightarrow> set (map br_order_id rs) \<subseteq> fst ` set (db_orders db)
           \<and> tables db' = tables (batch_added now n b state rs finalize db)"
  proof (cases "update_batch now n state rs finalize db")
    case (Pair r db')
    show ?thesis
    proof (cases r)
      case (Inl e)
      then show ?thesis using Pair update_batch_Inl by (simp add: update_batch_Inl)
    next
      case (Inr u)
      then obtain b' where "map_of (db_batches db) n = Some b'" "set (map br_order_id rs) \<subseteq> fst ` set (db_orders db)"
        "tables db' = tables (batch_added now n b' state rs finalize db)"
        using update_batch_Inr Pair by blast
      then show ?thesis using Pair Inr assms by simp
    qed
  qed
next
  assume h: "db_faults db = [] \<and> set (map br_order_id rs) \<subseteq> fst ` set (db_orders db)"
  define db2 where "db2 = db\<lparr>db_batches := update_where (\<lambda>k _. k = n) (\<lambda>row. row
            \<lparr>bt_deadline := Some (fold_deadline (bt_deadline b) rs), bt_fees := fold_fees (bt_fees b) rs,
             bt_backend_state := Some state\<rparr>) (db_batches db)\<rparr>"
  obtain db3 where d3: "add_batch_orders now n rs db2 = (Inr (), db3)" "db_faults db3 = []"
    using add_batch_orders_runs [of db2 rs n now] h assms by (auto simp: db2_def update_where_key)
  have "db_batches db3 = update_where (\<lambda>k _. k = n) (\<lambda>b. b\<lparr>bt_orders := bt_orders b @ map br_order_id rs\<rparr>) (db_batches db2)"
    using tables_eqD(2) [OF conjunct2 [OF add_batch_orders_Inr [OF d3(1)]]] by simp
  then have "map_of (db_batches db3) n \<noteq> None" using assms by (simp add: db2_def update_where_key)
  then show "\<exists>db'. update_batch now n state rs finalize db = (Inr (), db')"
    using h assms d3
    by (auto simp: update_batch_def transaction_def statement_no_fault ok_or_def update_batch_row_def simp flip: db2_def)
qed

section \<open>Steps\<close>

text \<open>The database moves by the operations of its trait, in any order: the services run concurrently
  and share it.\<close>

inductive db_step :: "id_lib \<Rightarrow> broker_db \<Rightarrow> broker_db \<Rightarrow> bool" for lib :: id_lib where
  Insert: "db_step lib db (snd (insert_accepted_request lib now now' req price db))"
| Get: "db_step lib db (snd (get_order i db))"
| GetMany: "db_step lib db (snd (get_orders ids db))"
| Submission: "db_step lib db (snd (get_submission_order i db))"
| Failure: "db_step lib db (snd (set_order_failure now i msg db))"
| Complete: "db_step lib db (snd (set_order_complete now i db))"
| Committed: "db_step lib db (snd (get_committed_orders db))"
| Expired: "db_step lib db (snd (get_expired_committed_orders now grace db))"
| ProvingOrder: "db_step lib db (snd (get_proving_order now db))"
| ActiveProofs: "db_step lib db (snd (get_active_proofs db))"
| BackendState: "db_step lib db (snd (set_order_backend_state now i state db))"
| SetBatchStatus: "db_step lib db (snd (set_order_batch_status now i status bid db))"
| PendingBatch: "db_step lib db (snd (get_pending_batch_orders now bid db))"
| PendingDirect: "db_step lib db (snd (get_pending_direct_submission_orders now bid db))"
| PeekBatch: "db_step lib db (snd (peek_pending_batch_orders bid db))"
| PeekDirect: "db_step lib db (snd (peek_pending_direct_submission_orders bid db))"
| Claim: "db_step lib db (snd (claim_orders_for_batch now ids bid db))"
| CompleteBatch: "db_step lib db (snd (complete_batch n state db))"
| GetComplete: "db_step lib db (snd (get_complete_batch db))"
| BatchSubmitted: "db_step lib db (snd (set_batch_submitted n db))"
| BatchFailure: "db_step lib db (snd (set_batch_failure n msg db))"
| CurrentBatch: "db_step lib db (snd (get_current_batch now bid db))"
| UpdateBatch: "db_step lib db (snd (update_batch now n state rs finalize db))"
| GetBatch: "db_step lib db (snd (get_batch n db))"
| RequestFulfilled: "db_step lib db (snd (set_request_fulfilled rid block db))"
| IsFulfilled: "db_step lib db (snd (is_request_fulfilled rid db))"
| RequestLocked: "db_step lib db (snd (set_request_locked rid locker block db))"
| IsLocked: "db_step lib db (snd (is_request_locked rid db))"
| GetLocked: "db_step lib db (snd (get_request_locked rid db))"

lemma accepted_progress [simp]:
  "accepted (ord\<lparr>db_status := st\<rparr>) = accepted ord" "accepted (ord\<lparr>db_updated_at := t\<rparr>) = accepted ord"
  "accepted (ord\<lparr>db_error_msg := m\<rparr>) = accepted ord" "accepted (ord\<lparr>db_backend_state := s\<rparr>) = accepted ord"
  "accepted (ord\<lparr>db_backend_id := i\<rparr>) = accepted ord"
  by (simp_all add: accepted_def)

lemma grows_insert: "db_grows lib db (snd (insert_accepted_order lib ord db))"
proof -
  have "db_grows lib db (db\<lparr>db_orders := db_orders db @ [(db_order_id lib ord, ord)]\<rparr>)"
    if "map_of (db_orders db) (db_order_id lib ord) = None" for db :: broker_db
    using that by (auto simp: db_grows_def db_ok_def order_log_def map_of_eq_None_iff)
  then show ?thesis
    unfolding insert_accepted_order_def by (intro grows_statement) (simp add: Let_def)
qed

lemma grows_new_batch: "db_grows lib db (snd (new_batch now bid db))"
proof -
  have "db_grows lib db (db\<lparr>db_batches := db_batches db @ [(db_next_batch db, batch_new bid now)],
          db_next_batch := Suc (db_next_batch db)\<rparr>)" for db :: broker_db
    by (fastforce simp: db_grows_def db_ok_def order_log_def batch_new_def map_add_Some_iff)
  then show ?thesis
    unfolding new_batch_def by (intro grows_statement) simp
qed

lemma grows_append_orders:
  assumes "set ids \<subseteq> fst ` set (db_orders db)"
    and f: "\<And>b. bt_backend_id (f b) = bt_backend_id b \<and> bt_start_time (f b) = bt_start_time b \<and> bt_orders (f b) = bt_orders b @ ids"
  shows "db_grows lib db (db\<lparr>db_batches := update_where (\<lambda>k _. k = n) f (db_batches db)\<rparr>)"
proof -
  have row: "\<exists>b0. (k, b0) \<in> set (db_batches db) \<and> set (bt_orders b) \<subseteq> set (bt_orders b0) \<union> set ids"
    if "(k, b) \<in> set (update_where (\<lambda>k _. k = n) f (db_batches db))" for k b
    using that f by (auto simp: update_where_def split: if_splits)
  have "db_ok lib (db\<lparr>db_batches := update_where (\<lambda>k _. k = n) f (db_batches db)\<rparr>)" if ok: "db_ok lib db"
  proof -
    have "k < db_next_batch db \<and> set (bt_orders b) \<subseteq> fst ` set (db_orders db)"
      if kb: "(k, b) \<in> set (update_where (\<lambda>k _. k = n) f (db_batches db))" for k b
    proof -
      obtain b0 where b0: "(k, b0) \<in> set (db_batches db)" "set (bt_orders b) \<subseteq> set (bt_orders b0) \<union> set ids"
        using row [OF kb] by blast
      then show ?thesis using ok assms(1) unfolding db_ok_def by blast
    qed
    then show ?thesis using ok by (auto simp: db_ok_def simp del: subset_iff)
  qed
  then show ?thesis using f by (auto simp: db_grows_def order_log_def update_where_key batch_grows_def)
qed

lemma grows_update_batch: "db_grows lib db (snd (update_batch now n state rs finalize db))"
proof (cases "update_batch now n state rs finalize db")
  case (Pair r db')
  have grows_tables: "db_grows lib db db'" if "tables db' = tables x" "db_grows lib db x" for x
    using that tables_eqD [OF that(1)] by (simp add: db_grows_def db_ok_def order_log_def)
  show ?thesis
  proof (cases r)
    case (Inl e)
    then show ?thesis using Pair grows_tables [of db] update_batch_Inl by simp
  next
    case (Inr u)
    then obtain b where b: "map_of (db_batches db) n = Some b" "set (map br_order_id rs) \<subseteq> fst ` set (db_orders db)"
      and t: "tables db' = tables (batch_added now n b state rs finalize db)"
      using update_batch_Inr Pair by blast
    define db1 where "db1 = db\<lparr>db_orders := update_where (\<lambda>k _. k \<in> set (map br_order_id rs)) (batched now) (db_orders db)\<rparr>"
    have "db_grows lib db db1" unfolding db1_def by (rule grows_update_where) (simp add: batched_def)
    moreover have "db_grows lib db1 (batch_added now n b state rs finalize db)"
    proof -
      have "batch_added now n b state rs finalize db = db1\<lparr>db_batches := update_where (\<lambda>k _. k = n) (\<lambda>row. row
        \<lparr>bt_deadline := Some (fold_deadline (bt_deadline b) rs), bt_fees := fold_fees (bt_fees b) rs,
         bt_backend_state := Some state, bt_orders := bt_orders row @ map br_order_id rs,
         bt_status := (if finalize then PendingCompression else bt_status row)\<rparr>) (db_batches db1)\<rparr>"
        by (simp add: batch_added_def db1_def)
      then show ?thesis
        using b(2) by (simp only:) (rule grows_append_orders [of "map br_order_id rs"], simp_all add: db1_def)
    qed
    ultimately have "db_grows lib db (batch_added now n b state rs finalize db)" by (rule db_grows_trans)
    then show ?thesis using grows_tables [OF t] Pair by simp
  qed
qed

lemma grows_claim_rows:
  assumes "\<And>ord. accepted (f ord) = accepted ord"
  shows "db_grows lib db (snd (claim_rows P f db))"
  unfolding claim_rows_def using grows_update_where [of f, OF assms] by (intro grows_statement) simp

lemma grows_read: "(\<And>db. snd (sql db) = db) \<Longrightarrow> db_grows lib db (snd (statement sql db))"
  by (rule grows_statement) simp

lemma grows_get_proving: "db_grows lib db (snd (get_proving_order now db))"
  unfolding get_proving_order_def
  by (rule grows_statement) (auto simp: Let_def split: list.split intro!: grows_update_where)

lemma grows_get_complete: "db_grows lib db (snd (get_complete_batch db))"
  unfolding get_complete_batch_def
  by (rule grows_statement) (auto simp: Let_def batch_grows_def split: list.split intro!: grows_update_batch_where)

lemma grows_get_current: "db_grows lib db (snd (get_current_batch now bid db))"
  unfolding get_current_batch_def
  by (intro grows_bind grows_read) (auto intro!: grows_bind grows_read grows_new_batch split: option.split)

lemma grows_claim: "db_grows lib db (snd (claim_orders_for_batch now ids bid db))"
proof -
  have "db_grows lib db (snd (statement (\<lambda>db.
        (Inr (map fst (rows_where P (db_orders db))),
         db\<lparr>db_orders := update_where P
              (\<lambda>ord. ord\<lparr>db_status := Batching, db_backend_id := Some bid, db_updated_at := now\<rparr>)
              (db_orders db)\<rparr>)) db))" for P
    by (rule grows_statement) (simp add: grows_update_where)
  then show ?thesis by (simp add: claim_orders_for_batch_def Let_def)
qed

lemma grows_fulfilled: "db_grows lib db (snd (set_request_fulfilled rid block db))"
  unfolding set_request_fulfilled_def
  by (rule grows_statement) (auto simp: db_grows_def db_ok_def order_log_def map_le_def)

lemma grows_locked: "db_grows lib db (snd (set_request_locked rid locker block db))"
  unfolding set_request_locked_def
  by (rule grows_statement) (auto simp: db_grows_def db_ok_def order_log_def map_le_def)

lemma grows_submission: "db_grows lib db (snd (get_submission_order i db))"
  unfolding get_submission_order_def get_order_def by (intro grows_bind grows_read) simp_all

lemma grows_insert_request: "db_grows lib db (snd (insert_accepted_request lib now now' req price db))"
  unfolding insert_accepted_request_def Let_def by (intro grows_bind grows_insert) simp

lemma db_step_grows: "db_step lib db db' \<Longrightarrow> db_grows lib db db'"
proof (induction rule: db_step.induct)
  case (GetMany db ids)
  then show ?case by (simp add: get_orders_def grows_read)
qed (simp_all add: grows_insert_request grows_submission grows_get_proving grows_get_complete grows_get_current
    grows_claim grows_fulfilled grows_locked grows_update_batch get_order_def set_order_failure_def
    set_order_complete_def get_committed_orders_def get_expired_committed_orders_def get_active_proofs_def
    set_order_backend_state_def set_order_batch_status_def get_pending_batch_orders_def
    get_pending_direct_submission_orders_def peek_pending_batch_orders_def peek_pending_direct_submission_orders_def
    complete_batch_def set_batch_submitted_def set_batch_failure_def get_batch_def is_request_fulfilled_def
    is_request_locked_def get_request_locked_def grows_read grows_claim_rows grows_statement grows_update_order
    grows_update_batch_row batch_grows_def)

text \<open>C9: whatever the services do, in whatever order and whichever statements fail: an accepted order
  is never lost, duplicated or renamed, and what was agreed for it never changes (the accepted
  orders only grow as a list); a batch keeps its backend and only gains orders, all of which
  exist; and a request seen locked or fulfilled is never forgotten.\<close>

theorem accepted_orders_permanent:
  assumes "(db_step lib)\<^sup>*\<^sup>* db db'" "db_ok lib db"
  shows "db_ok lib db' \<and> prefix (order_log db) (order_log db')
     \<and> (\<forall>n b. map_of (db_batches db) n = Some b \<longrightarrow> (\<exists>b'. map_of (db_batches db') n = Some b' \<and> batch_grows b b'))
     \<and> db_fulfilled db \<subseteq>\<^sub>m db_fulfilled db' \<and> db_locked db \<subseteq>\<^sub>m db_locked db'"
proof -
  have "db_grows lib db db'"
    using assms(1) by (induction rule: rtranclp_induct) (auto dest: db_step_grows intro: db_grows_trans)
  then show ?thesis using assms(2) unfolding db_grows_def by blast
qed

section \<open>Updates of one order\<close>

text \<open>The contract the services rely on: an operation that updates one order by its key touches no other
  row, and without a failing statement it succeeds on an order that exists.\<close>

locale order_update =
  fixes op :: "string \<Rightarrow> broker_db \<Rightarrow> unit db_result" and f :: "Order \<Rightarrow> Order"
  assumes op_def: "op i db = statement (update_order i f) db" and keeps: "accepted (f ord) = accepted ord"
begin

lemma result:
  obtains "map_of (db_orders (snd (op i db))) = map_of (db_orders db)"
  | ord where "map_of (db_orders db) i = Some ord" "fst (op i db) = Inr ()"
      "map_of (db_orders (snd (op i db))) = (map_of (db_orders db))(i \<mapsto> f ord)"
proof (cases rule: statement_cases [of "update_order i f" db])
  case (fault e fs)
  then show ?thesis using that(1) by (simp add: op_def)
next
  case (run fs)
  show ?thesis
  proof (cases "map_of (db_orders db) i")
    case None
    then show ?thesis using that(1) run by (simp add: op_def update_order_def)
  next
    case (Some ord)
    then show ?thesis using that(2) [of ord] run by (auto simp: op_def update_order_def update_where_key fun_eq_iff)
  qed
qed

lemma others: "j \<noteq> i \<Longrightarrow> map_of (db_orders (snd (op i db))) j = map_of (db_orders db) j"
  by (cases rule: result [of i db]) simp_all

lemma batches: "db_batches (snd (op i db)) = db_batches db"
  by (cases rule: statement_cases [of "update_order i f" db]) (simp_all add: op_def update_order_def)

lemma fulfilled: "db_fulfilled (snd (op i db)) = db_fulfilled db"
  by (cases rule: statement_cases [of "update_order i f" db]) (simp_all add: op_def update_order_def)

lemma runs:
  assumes "db_faults db = []" "map_of (db_orders db) i = Some ord"
  shows "fst (op i db) = Inr ()" "map_of (db_orders (snd (op i db))) = (map_of (db_orders db))(i \<mapsto> f ord)"
    "db_faults (snd (op i db)) = []"
  using assms by (auto simp: op_def statement_no_fault update_order_def update_where_key fun_eq_iff)

lemma missing:
  assumes "db_faults db = []" "map_of (db_orders db) i = None"
  shows "op i db = (Inl (OrderNotFound i), db)"
  using assms by (simp add: op_def statement_no_fault update_order_def)

lemma no_faults: "db_faults db = [] \<Longrightarrow> db_faults (snd (op i db)) = []"
  by (simp add: op_def statement_no_fault update_order_def)

lemma grows: "db_grows lib db (snd (op i db))"
  unfolding op_def using keeps by (intro grows_statement grows_update_order)

end

interpretation fail_op: order_update "\<lambda>i. set_order_failure now i msg"
    "\<lambda>ord. ord\<lparr>db_status := Failed, db_updated_at := now, db_error_msg := Some msg\<rparr>" for now msg
  by unfold_locales (simp_all add: set_order_failure_def)

interpretation complete_op: order_update "set_order_complete now" "\<lambda>ord. ord\<lparr>db_status := Done, db_updated_at := now\<rparr>" for now
  by unfold_locales (simp_all add: set_order_complete_def)

interpretation state_op: order_update "\<lambda>i. set_order_backend_state now i state"
    "\<lambda>ord. ord\<lparr>db_backend_state := Some state, db_updated_at := now\<rparr>" for now state
  by unfold_locales (simp_all add: set_order_backend_state_def)

interpretation status_op: order_update "\<lambda>i. set_order_batch_status now i status bid"
    "\<lambda>ord. ord\<lparr>db_status := status, db_backend_id := Some bid, db_updated_at := now\<rparr>" for now status bid
  by unfold_locales (simp_all add: set_order_batch_status_def)

section \<open>The guard of a claim\<close>

lemma map_of_update_where:
  "map_of (update_where P f rows) i = map_option (\<lambda>v. if P i v then f v else v) (map_of rows i)"
  by (induction rows) (auto simp: update_where_def)

lemma claim_Inr:
  assumes "claim_orders_for_batch now ids bid db = (Inr claimed, db')"
  shows "claimed = map fst (rows_where (\<lambda>i ord. i \<in> set ids \<and> waiting_for_batch bid ord) (db_orders db))"
    "db_orders db' = update_where (\<lambda>i ord. i \<in> set ids \<and> waiting_for_batch bid ord)
        (\<lambda>ord. ord\<lparr>db_status := Batching, db_backend_id := Some bid, db_updated_at := now\<rparr>) (db_orders db)"
    "db_batches db' = db_batches db"
  using assms
  by (auto simp: claim_orders_for_batch_def Let_def rows_where_def update_where_nothing split: if_splits elim!: statement_Inr)

text \<open>A claim for a batch takes exactly the requested orders that are still waiting for one with this
  backend; every other order, in particular one that failed since it was looked at, keeps its
  row.\<close>

theorem claim_takes_waiting_only:
  assumes "claim_orders_for_batch now ids bid db = (Inr claimed, db')" "distinct (map fst (db_orders db))"
  shows "(i \<in> set claimed \<longleftrightarrow>
       i \<in> set ids \<and> (\<exists>ord. map_of (db_orders db) i = Some ord \<and> waiting_for_batch bid ord))
     \<and> map_of (db_orders db') i =
       (if i \<in> set claimed
        then map_option (\<lambda>ord. ord\<lparr>db_status := Batching, db_backend_id := Some bid, db_updated_at := now\<rparr>) (map_of (db_orders db) i)
        else map_of (db_orders db) i)"
proof -
  note C = claim_Inr [OF assms(1)]
  have mem: "i \<in> set claimed \<longleftrightarrow>
       i \<in> set ids \<and> (\<exists>ord. map_of (db_orders db) i = Some ord \<and> waiting_for_batch bid ord)"
    using assms(2) by (force simp: C rows_where_def map_of_eq_Some_iff)
  then show ?thesis
    by (cases "map_of (db_orders db) i") (auto simp: C map_of_update_where)
qed

text \<open>Adding an order to a batch has no such guard: an order that failed since it was looked at is
  submitted nevertheless.\<close>

lemma update_batch_revives_failed:
  assumes "update_batch now n state rs finalize db = (Inr (), db')"
    and "map_of (db_orders db) i = Some ord" "db_status ord = Failed" "i \<in> set (map br_order_id rs)"
  shows "\<exists>ord'. map_of (db_orders db') i = Some ord' \<and> db_status ord' = PendingSubmission"
proof -
  obtain b where "tables db' = tables (batch_added now n b state rs finalize db)"
    using update_batch_Inr [OF assms(1)] by blast
  then show ?thesis
    using assms(2,4) by (auto dest!: tables_eqD(1) simp: batch_added_def map_of_update_where batched_def)
qed

section \<open>A database with one order\<close>

definition sample_lib :: id_lib where
  "sample_lib = \<lparr>lib_eip712_hash = (\<lambda>r d. request_id r), lib_hex = unary_text, lib_hash_text = unary_text\<rparr>"

definition ready_row :: Order where
  "ready_row = (proving_order_from_request 1000 1000 (sample_order LockAndFulfill) 50)
     \<lparr>db_status := ReadyForBatch, db_backend_id := Some ''risc0_v3''\<rparr>"

definition sample_db :: broker_db where
  "sample_db = db_empty\<lparr>db_orders := [(''order'', ready_row)], db_batches := [(1, batch_new ''risc0_v3'' 900)], db_next_batch := 2\<rparr>"

lemma sample_db_simps:
  "db_orders sample_db = [(''order'', ready_row)]" "db_batches sample_db = [(1, batch_new ''risc0_v3'' 900)]"
  "db_faults sample_db = []"
  by (simp_all add: sample_db_def db_empty_def)

theorem accepted_orders_permanent_witness:
  "\<exists>db'. (db_step sample_lib)\<^sup>*\<^sup>* db_empty db' \<and> db_ok sample_lib db' \<and> length (order_log db') = 1"
proof -
  let ?db = "snd (insert_accepted_request sample_lib 1000 1000 (sample_order LockAndFulfill) 50 db_empty)"
  have step: "(db_step sample_lib)\<^sup>*\<^sup>* db_empty ?db" by (rule r_into_rtranclp) (rule db_step.Insert)
  have "db_ok sample_lib db_empty" by (simp add: db_ok_def db_empty_def)
  from accepted_orders_permanent [OF step this] have "db_ok sample_lib ?db" by blast
  moreover have "length (order_log ?db) = 1"
    by (simp add: insert_accepted_request_def insert_accepted_order_def statement_def db_empty_def order_log_def Let_def)
  ultimately show ?thesis using step by blast
qed

theorem update_batch_atomic_witness:
  "\<exists>r db'. map fst (db_orders sample_db) = [br_order_id r]
     \<and> update_batch 1000 1 [1] [r] True sample_db = (Inr (), db')
     \<and> map_option bt_orders (map_of (db_batches db') 1) = Some [''order'']"
proof -
  define r where "r = \<lparr>br_order_id = ''order'', br_expiration = 1300, br_fee = 50, br_fulfillment_type = LockAndFulfill,
    br_request_id = 1, br_lock_expiration = 1200, br_selector = 0\<rparr>"
  have b: "map_of (db_batches sample_db) 1 = Some (batch_new ''risc0_v3'' 900)" by (simp add: sample_db_simps)
  note A = update_batch_atomic [OF b, where now = 1000 and state = "[1]" and rs = "[r]" and finalize = True]
  have "db_faults sample_db = [] \<and> set (map br_order_id [r]) \<subseteq> fst ` set (db_orders sample_db)"
    by (simp add: sample_db_simps r_def)
  then obtain db' where u: "update_batch 1000 1 [1] [r] True sample_db = (Inr (), db')" using A by blast
  then have "tables db' = tables (batch_added 1000 1 (batch_new ''risc0_v3'' 900) [1] [r] True sample_db)" using A by simp
  from tables_eqD(2) [OF this] have "map_option bt_orders (map_of (db_batches db') 1) = Some [''order'']"
    by (simp add: batch_added_def sample_db_simps update_where_def batch_new_def r_def)
  moreover have "map fst (db_orders sample_db) = [br_order_id r]" by (simp add: sample_db_simps r_def)
  ultimately show ?thesis using u by (intro exI [of _ r] exI [of _ db'] conjI)
qed

theorem claim_takes_waiting_only_witness:
  "\<exists>claimed db'. claim_orders_for_batch 1000 [''order'', ''gone''] ''risc0_v3'' sample_db = (Inr claimed, db')
     \<and> ''order'' \<in> set claimed \<and> ''gone'' \<notin> set claimed"
proof -
  obtain claimed db' where c: "claim_orders_for_batch 1000 [''order'', ''gone''] ''risc0_v3'' sample_db = (Inr claimed, db')"
    by (simp add: claim_orders_for_batch_def statement_no_fault sample_db_simps Let_def)
  have w: "waiting_for_batch ''risc0_v3'' ready_row" by (simp add: waiting_for_batch_def ready_row_def)
  have "distinct (map fst (db_orders sample_db))" by (simp add: sample_db_simps)
  from claim_takes_waiting_only [OF c this, of "''order''"] claim_takes_waiting_only [OF c this, of "''gone''"]
  have "''order'' \<in> set claimed" "''gone'' \<notin> set claimed" using w by (simp_all add: sample_db_simps)
  then show ?thesis using c by blast
qed

end
