(* ===== verification/Pipeline.thy ===== *)
theory Pipeline
  imports BrokerDb
begin

text \<open>
  What the services behind the locker share: the channel on which they tell the committer that a
  capacity slot is free (\<open>order_committer/types.rs\<close>), the handling of a failed order
  (\<open>shared/errors.rs\<close>), retries (\<open>boundless-backend/src/futures_retry.rs\<close>), and the reaper
  (\<open>utils/reaper.rs\<close>).

  The state of the pipeline is the database, the messages sent on the channel with the room left
  in it, and the backends. A backend may answer the same call differently at another time:
  \<open>pl_backend\<close> is the router as it answers the n-th call, \<open>pl_calls\<close> the number of calls made.
  Telemetry is left out, and the error texts written to the database are abbreviated.
\<close>

section \<open>State\<close>

datatype CommitmentOutcome = CommitmentSkipped | ProvingCompleted | ProvingFailed

record CommitmentComplete =
  cc_order_id :: string
  cc_chain_id :: u64
  cc_outcome :: CommitmentOutcome

record pipeline =
  pl_db :: broker_db
  pl_sent :: "CommitmentComplete list"
  pl_room :: nat
  pl_backend :: "nat \<Rightarrow> BackendRouter"
  pl_calls :: nat

text \<open>\<open>try_send\<close> on the bounded channel: without room the message is dropped.\<close>

definition try_send :: "CommitmentComplete \<Rightarrow> pipeline \<Rightarrow> pipeline" where
  "try_send c p = (case pl_room p of 0 \<Rightarrow> p | Suc n \<Rightarrow> p\<lparr>pl_sent := pl_sent p @ [c], pl_room := n\<rparr>)"

text \<open>An operation of the database, and a call of a backend, as part of the pipeline.\<close>

definition in_db :: "(broker_db \<Rightarrow> 'a db_result) \<Rightarrow> pipeline \<Rightarrow> (DbError + 'a) \<times> pipeline" where
  "in_db op p = (let (r, db) = op (pl_db p) in (r, p\<lparr>pl_db := db\<rparr>))"

definition call_backend :: "(BackendRouter \<Rightarrow> 'a) \<Rightarrow> pipeline \<Rightarrow> 'a \<times> pipeline" where
  "call_backend f p = (f (pl_backend p (pl_calls p)), p\<lparr>pl_calls := Suc (pl_calls p)\<rparr>)"

section \<open>Failed orders\<close>

record BrokerFailure =
  bf_code :: string
  bf_reason :: string

definition failure_text :: "BrokerFailure \<Rightarrow> string" where
  "failure_text failure = bf_code failure @ '' '' @ bf_reason failure"

definition handle_order_failure :: "u64 \<Rightarrow> string \<Rightarrow> BrokerFailure \<Rightarrow> u64 \<Rightarrow> pipeline \<Rightarrow> pipeline" where
  "handle_order_failure now i failure chain p =
     try_send \<lparr>cc_order_id = i, cc_chain_id = chain, cc_outcome = ProvingFailed\<rparr>
       (snd (in_db (set_order_failure now i (failure_text failure)) p))"

section \<open>Retries\<close>

text \<open>The loop over the attempts: the last error is returned, and one that must not be retried at
  once.\<close>

fun retry_attempts :: "('e \<Rightarrow> bool) \<Rightarrow> ('s \<Rightarrow> ('e + 'a) \<times> 's) \<Rightarrow> nat \<Rightarrow> 's \<Rightarrow> ('e + 'a) \<times> 's" where
  "retry_attempts should_retry operation 0 s = operation s"
| "retry_attempts should_retry operation (Suc n) s =
     (case operation s of
        (Inr x, s') \<Rightarrow> (Inr x, s')
      | (Inl e, s') \<Rightarrow> if should_retry e then retry_attempts should_retry operation n s' else (Inl e, s'))"

definition retry_impl :: "u64 \<Rightarrow> ('e \<Rightarrow> bool) option \<Rightarrow> ('s \<Rightarrow> ('e + 'a) \<times> 's) \<Rightarrow> 's \<Rightarrow> ('e + 'a) \<times> 's" where
  "retry_impl retry_count should_retry operation s =
     (if retry_count = 0 then operation s
      else retry_attempts (case should_retry of Some P \<Rightarrow> P | None \<Rightarrow> (\<lambda>_. True)) operation (unat retry_count) s)"

definition retry_with_context :: "u64 \<Rightarrow> ('s \<Rightarrow> ('e + 'a) \<times> 's) \<Rightarrow> 's \<Rightarrow> ('e + 'a) \<times> 's" where
  "retry_with_context retry_count operation = retry_impl retry_count None operation"

definition retry_only_with_context :: "u64 \<Rightarrow> ('e \<Rightarrow> bool) \<Rightarrow> ('s \<Rightarrow> ('e + 'a) \<times> 's) \<Rightarrow> 's \<Rightarrow> ('e + 'a) \<times> 's" where
  "retry_only_with_context retry_count should_retry operation = retry_impl retry_count (Some should_retry) operation"

section \<open>The reaper\<close>

definition reaper_failure :: BrokerFailure where
  "reaper_failure = \<lparr>bf_code = ''[B-REAP-003]'', bf_reason = ''Order expired in reaper''\<rparr>"

definition reap_order :: "id_lib \<Rightarrow> u64 \<Rightarrow> u64 \<Rightarrow> bool \<Rightarrow> Order \<Rightarrow> pipeline \<Rightarrow> pipeline" where
  "reap_order lib now chain should_cancel ord p =
     (let i = db_order_id lib ord;
          p = handle_order_failure now i reaper_failure chain p
      in if should_cancel
         then snd (call_backend (\<lambda>r. router_cancel_order r
                \<lparr>co_order_id = i, co_selector = req_selector (requirements (db_request ord)),
                 co_backend_state = db_backend_state ord, co_is_proving = (db_status ord = Proving)\<rparr>) p)
         else p)"

definition check_expired_orders ::
    "id_lib \<Rightarrow> u64 \<Rightarrow> u64 \<Rightarrow> u32 \<Rightarrow> bool \<Rightarrow> pipeline \<Rightarrow> (DbError + unit) \<times> pipeline" where
  "check_expired_orders lib now chain grace_period should_cancel p =
     db_bind (in_db (get_expired_committed_orders now grace_period) p) (\<lambda>expired p.
       (Inr (), fold (reap_order lib now chain should_cancel) expired p))"

section \<open>Lemmas\<close>

lemma in_db_simps [simp]:
  "snd (in_db op p) = p\<lparr>pl_db := snd (op (pl_db p))\<rparr>" "fst (in_db op p) = fst (op (pl_db p))"
  by (simp_all add: in_db_def split: prod.split)

lemma try_send_simps [simp]:
  "pl_db (try_send c p) = pl_db p" "pl_backend (try_send c p) = pl_backend p" "pl_calls (try_send c p) = pl_calls p"
  by (simp_all add: try_send_def split: nat.split)

lemma try_send_room: "pl_room p > 0 \<Longrightarrow> pl_sent (try_send c p) = pl_sent p @ [c] \<and> pl_room (try_send c p) = pl_room p - 1"
  by (auto simp: try_send_def split: nat.split)

lemma call_backend_simps [simp]:
  "snd (call_backend f p) = p\<lparr>pl_calls := Suc (pl_calls p)\<rparr>" "fst (call_backend f p) = f (pl_backend p (pl_calls p))"
  by (simp_all add: call_backend_def)

lemma handle_order_failure_simps [simp]:
  "pl_db (handle_order_failure now i failure chain p) = snd (set_order_failure now i (failure_text failure) (pl_db p))"
  "pl_backend (handle_order_failure now i failure chain p) = pl_backend p"
  "pl_calls (handle_order_failure now i failure chain p) = pl_calls p"
  by (simp_all add: handle_order_failure_def)

lemma handle_order_failure_sent:
  assumes "pl_room p > 0"
  shows "pl_sent (handle_order_failure now i failure chain p) =
      pl_sent p @ [\<lparr>cc_order_id = i, cc_chain_id = chain, cc_outcome = ProvingFailed\<rparr>]"
    "pl_room (handle_order_failure now i failure chain p) = pl_room p - 1"
  using try_send_room [of "snd (in_db (set_order_failure now i (failure_text failure)) p)"] assms
  by (simp_all add: handle_order_failure_def)

text \<open>A retried operation answers like one of its attempts, made from a state that earlier attempts
  lead to.\<close>

lemma retry_attempts_last:
  assumes "retry_attempts should operation n s = (r, s')"
    and "\<And>s. I s \<Longrightarrow> I (snd (operation s))" "I s"
  shows "\<exists>t. I t \<and> operation t = (r, s')"
  using assms
proof (induction n arbitrary: s)
  case (Suc n)
  obtain q u where o: "operation s = (q, u)" by fastforce
  have Iu: "I u" using Suc.prems(2) [OF Suc.prems(3)] o by simp
  show ?case
  proof (cases "\<exists>e. q = Inl e \<and> should e")
    case True
    then have "retry_attempts should operation n u = (r, s')" using Suc.prems(1) o by auto
    then show ?thesis using Suc.IH Suc.prems(2) Iu by blast
  next
    case False
    then have "(q, u) = (r, s')" using Suc.prems(1) o by (cases q) auto
    then show ?thesis using Suc.prems(3) o by blast
  qed
qed auto

lemma retry_impl_last:
  assumes "retry_impl n should operation s = (r, s')" "\<And>s. I s \<Longrightarrow> I (snd (operation s))" "I s"
  shows "\<exists>t. I t \<and> operation t = (r, s')"
  using assms retry_attempts_last [of _ operation "unat n" s r s' I] by (auto simp: retry_impl_def split: if_splits)

text \<open>An operation that succeeds at once is not retried.\<close>

lemma retry_impl_success: "operation s = (Inr x, s') \<Longrightarrow> retry_impl n should operation s = (Inr x, s')"
  by (cases "unat n") (auto simp: retry_impl_def)

section \<open>What the reaper does\<close>

definition expired_committed :: "u64 \<Rightarrow> u32 \<Rightarrow> Order \<Rightarrow> bool" where
  "expired_committed now grace ord \<longleftrightarrow>
     db_status ord \<in> {PendingProving, Proving, ReadyForBatch, ReadyForSubmission, PendingSubmission}
     \<and> (\<exists>e. db_expire_timestamp ord = Some e \<and> int (unat e) < int (unat now) - int (unat grace))"

definition failed_message :: "u64 \<Rightarrow> string \<Rightarrow> CommitmentComplete" where
  "failed_message chain i = \<lparr>cc_order_id = i, cc_chain_id = chain, cc_outcome = ProvingFailed\<rparr>"

definition marked_failed :: "u64 \<Rightarrow> string \<Rightarrow> Order \<Rightarrow> Order" where
  "marked_failed now msg ord = ord\<lparr>db_status := Failed, db_updated_at := now, db_error_msg := Some msg\<rparr>"

lemma reap_orders:
  assumes "db_faults (pl_db p) = []" "length ords \<le> pl_room p"
    and "\<And>ord. ord \<in> set ords \<Longrightarrow> map_of (db_orders (pl_db p)) (db_order_id lib ord) \<noteq> None"
  shows "map_of (db_orders (pl_db (fold (reap_order lib now chain cancel) ords p))) i =
       (if i \<in> set (map (db_order_id lib) ords)
        then map_option (marked_failed now (failure_text reaper_failure)) (map_of (db_orders (pl_db p)) i)
        else map_of (db_orders (pl_db p)) i)
     \<and> pl_sent (fold (reap_order lib now chain cancel) ords p) =
       pl_sent p @ map (\<lambda>ord. failed_message chain (db_order_id lib ord)) ords
     \<and> db_batches (pl_db (fold (reap_order lib now chain cancel) ords p)) = db_batches (pl_db p)"
  using assms
proof (induction ords arbitrary: p)
  case (Cons ord ords)
  let ?i = "db_order_id lib ord" and ?p = "reap_order lib now chain cancel ord p"
  let ?f = "marked_failed now (failure_text reaper_failure)"
  obtain row where row: "map_of (db_orders (pl_db p)) ?i = Some row" using Cons.prems(3) [of ord] by auto
  have db: "pl_db ?p = snd (set_order_failure now ?i (failure_text reaper_failure) (pl_db p))"
    by (simp add: reap_order_def Let_def)
  have room: "pl_room p > 0" using Cons.prems(2) by simp
  have "pl_sent ?p = pl_sent p @ [failed_message chain ?i]" "pl_room ?p = pl_room p - 1"
    using handle_order_failure_sent [OF room] by (simp_all add: reap_order_def Let_def failed_message_def)
  moreover have rows: "map_of (db_orders (pl_db ?p)) = (map_of (db_orders (pl_db p)))(?i \<mapsto> ?f row)"
    and "db_faults (pl_db ?p) = []" "db_batches (pl_db ?p) = db_batches (pl_db p)"
    unfolding db using fail_op.runs [OF Cons.prems(1) row] fail_op.batches by (simp_all add: marked_failed_def)
  moreover have "map_of (db_orders (pl_db ?p)) (db_order_id lib o') \<noteq> None" if "o' \<in> set ords" for o'
    using Cons.prems(3) [of o'] that unfolding rows by simp
  ultimately have IH: "map_of (db_orders (pl_db (fold (reap_order lib now chain cancel) ords ?p))) i =
       (if i \<in> set (map (db_order_id lib) ords)
        then map_option ?f (map_of (db_orders (pl_db ?p)) i) else map_of (db_orders (pl_db ?p)) i)
     \<and> pl_sent (fold (reap_order lib now chain cancel) ords ?p) =
       pl_sent ?p @ map (\<lambda>ord. failed_message chain (db_order_id lib ord)) ords
     \<and> db_batches (pl_db (fold (reap_order lib now chain cancel) ords ?p)) = db_batches (pl_db ?p)"
    using Cons.prems(2) by (intro Cons.IH) simp_all
  have "?f (?f row) = ?f row" by (simp add: marked_failed_def)
  then show ?case
    using IH row \<open>pl_sent ?p = _\<close> \<open>db_batches (pl_db ?p) = _\<close> unfolding rows by (auto split: if_splits)
qed simp

lemma expired_rows:
  assumes "db_faults db = []"
  shows "get_expired_committed_orders now grace db =
    (Inr (map snd (rows_where (\<lambda>_. expired_committed now grace) (db_orders db))), db)"
proof -
  have "expired_committed now grace = (\<lambda>ord. db_status ord \<in> {PendingProving, Proving, ReadyForBatch, ReadyForSubmission, PendingSubmission}
         \<and> (case db_expire_timestamp ord of None \<Rightarrow> False | Some e \<Rightarrow> int (unat e) < int (unat now) - int (unat grace)))"
    by (auto simp: expired_committed_def fun_eq_iff split: option.split)
  then show ?thesis using assms by (simp add: get_expired_committed_orders_def statement_no_fault)
qed

text \<open>C28: a pass of the reaper marks as failed exactly the orders committed to that expired longer ago than
  the grace period, leaves every other order and every batch alone, and frees one capacity slot
  for each. The database works and is well formed, and the completion channel has room for a message per stored
  order.\<close>

theorem reaper_fails_expired:
  assumes "db_ok lib (pl_db p)" "db_faults (pl_db p) = []" "length (db_orders (pl_db p)) \<le> pl_room p"
    and "check_expired_orders lib now chain grace cancel p = (r, p')"
  shows "r = Inr ()
     \<and> map_of (db_orders (pl_db p')) i =
         map_option (\<lambda>ord. if expired_committed now grace ord
                     then marked_failed now (failure_text reaper_failure) ord else ord) (map_of (db_orders (pl_db p)) i)
     \<and> pl_sent p' = pl_sent p @ map (failed_message chain) (map fst (rows_where (\<lambda>_. expired_committed now grace) (db_orders (pl_db p))))
     \<and> db_batches (pl_db p') = db_batches (pl_db p)"
proof -
  let ?rows = "rows_where (\<lambda>_. expired_committed now grace) (db_orders (pl_db p))"
  have r: "r = Inr ()" and p': "p' = fold (reap_order lib now chain cancel) (map snd ?rows) p"
    using assms(4) expired_rows [OF assms(2)] by (auto simp: check_expired_orders_def in_db_def)
  have keys: "k = db_order_id lib ord" "map_of (db_orders (pl_db p)) k = Some ord" if "(k, ord) \<in> set (db_orders (pl_db p))" for k ord
    using assms(1) that unfolding db_ok_def by (auto simp: map_of_eq_Some_iff)
  have ids: "map (db_order_id lib) (map snd ?rows) = map fst ?rows"
    using keys(1) by (auto simp: rows_where_def)
  have "length (map snd ?rows) \<le> pl_room p"
    using assms(3) le_trans [OF length_filter_le assms(3)] by (simp add: rows_where_def)
  moreover have "map_of (db_orders (pl_db p)) (db_order_id lib ord) \<noteq> None" if "ord \<in> set (map snd ?rows)" for ord
    using that keys by (auto simp: rows_where_def)
  ultimately have R: "map_of (db_orders (pl_db p')) i =
       (if i \<in> set (map fst ?rows)
        then map_option (marked_failed now (failure_text reaper_failure)) (map_of (db_orders (pl_db p)) i)
        else map_of (db_orders (pl_db p)) i)
     \<and> pl_sent p' = pl_sent p @ map (failed_message chain) (map fst ?rows)
     \<and> db_batches (pl_db p') = db_batches (pl_db p)"
    using reap_orders [OF assms(2), of "map snd ?rows" lib now chain cancel i] unfolding p' ids [symmetric]
    by (simp add: comp_def)
  have "i \<in> set (map fst ?rows) \<longleftrightarrow> (\<exists>ord. map_of (db_orders (pl_db p)) i = Some ord \<and> expired_committed now grace ord)"
    using keys(2) by (force simp: rows_where_def dest: map_of_SomeD)
  then show ?thesis using R r by (cases "map_of (db_orders (pl_db p)) i") auto
qed

definition expired_row :: Order where
  "expired_row = ready_row\<lparr>db_expire_timestamp := Some 1200\<rparr>"

definition reaped_db :: broker_db where
  "reaped_db = db_empty\<lparr>db_orders := [(db_order_id sample_lib expired_row, expired_row)]\<rparr>"

definition sample_pipeline :: "broker_db \<Rightarrow> BackendRouter \<Rightarrow> pipeline" where
  "sample_pipeline db router = \<lparr>pl_db = db, pl_sent = [], pl_room = 10, pl_backend = (\<lambda>_. router), pl_calls = 0\<rparr>"

theorem reaper_fails_expired_witness:
  "\<exists>r p'. check_expired_orders sample_lib 5000 1 100 False (sample_pipeline reaped_db router_new) = (r, p')
     \<and> map_option db_status (map_of (db_orders (pl_db p')) (db_order_id sample_lib expired_row)) = Some Failed"
proof -
  let ?p = "sample_pipeline reaped_db router_new"
  obtain r p' where c: "check_expired_orders sample_lib 5000 1 100 False ?p = (r, p')" by fastforce
  have ok: "db_ok sample_lib (pl_db ?p)" "db_faults (pl_db ?p) = []" "length (db_orders (pl_db ?p)) \<le> pl_room ?p"
    by (simp_all add: sample_pipeline_def reaped_db_def db_empty_def db_ok_def)
  have "expired_committed 5000 100 expired_row"
    by (simp add: expired_committed_def expired_row_def ready_row_def)
  then have "map_of (db_orders (pl_db p')) (db_order_id sample_lib expired_row)
      = Some (marked_failed 5000 (failure_text reaper_failure) expired_row)"
    using reaper_fails_expired [OF ok c, of "db_order_id sample_lib expired_row"]
    by (simp add: sample_pipeline_def reaped_db_def db_empty_def)
  then show ?thesis using c by (simp add: marked_failed_def)
qed

end
