(* ===== verification/OrderProcessor.thy ===== *)
theory OrderProcessor
  imports Pipeline Risc0Backend
begin

text \<open>
  The order processor, \<open>order_processor/service.rs\<close>: it takes an order that is ready to be proved,
  drives the backend until the proof is done, and hands the order on to the batcher, or marks it
  as failed and frees its capacity slot.

  While a proof is monitored the code waits for the first of several things; the order in which
  they happen is a list of \<open>MonitorEvent\<close>: one iteration of the monitoring task, the expiry of
  the request, or a message about a state change on the chain. A list that ends before the task
  does leaves it running (\<open>MonitorPending\<close>). The reading of the clock is an argument.
\<close>

section \<open>Commands and errors\<close>

definition process_order_cmd :: "id_lib \<Rightarrow> Order \<Rightarrow> ProcessOrder" where
  "process_order_cmd lib ord =
     \<lparr>po_order_id = db_order_id lib ord, po_request = db_request ord, po_image_id = db_image_id ord,
      po_input_id = db_input_id ord, po_backend_state = db_backend_state ord\<rparr>"

definition cancel_order_cmd :: "id_lib \<Rightarrow> Order \<Rightarrow> CancelOrder" where
  "cancel_order_cmd lib ord =
     \<lparr>co_order_id = db_order_id lib ord, co_selector = req_selector (requirements (db_request ord)),
      co_backend_state = db_backend_state ord, co_is_proving = (db_status ord = Proving)\<rparr>"

datatype ProvingErr =
    ProvingFailedErr | CancelFulfilledByAnother | CancelExpired | CompletedFulfilledByAnother
  | CompletedExpired | UnexpectedError
  | MonitorPending | ProvingPanic \<comment> \<open>not errors of the code: the task still runs, or panicked\<close>

fun proving_err_code :: "ProvingErr \<Rightarrow> string" where
  "proving_err_code ProvingFailedErr = ''[B-PRO-501]''"
| "proving_err_code CancelFulfilledByAnother = ''[B-PRO-502]''"
| "proving_err_code CancelExpired = ''[B-PRO-503]''"
| "proving_err_code CompletedFulfilledByAnother = ''[B-PRO-505]''"
| "proving_err_code CompletedExpired = ''[B-PRO-506]''"
| "proving_err_code _ = ''[B-PRO-500]''"

fun proving_err_text :: "ProvingErr \<Rightarrow> string" where
  "proving_err_text ProvingFailedErr = ''Proving failed after retries''"
| "proving_err_text CancelFulfilledByAnother =
     ''Cancelled: secondary fulfillment order was fulfilled by another prover''"
| "proving_err_text CancelExpired = ''Cancelled: order expired during proving''"
| "proving_err_text CompletedFulfilledByAnother =
     ''Proof completed but secondary fulfillment order was fulfilled by another prover''"
| "proving_err_text CompletedExpired = ''Proof completed but order expired''"
| "proving_err_text _ = ''Unexpected error''"

definition proving_failure :: "ProvingErr \<Rightarrow> BrokerFailure" where
  "proving_failure e =
     \<lparr>bf_code = proving_err_code e, bf_reason = proving_err_code e @ '' '' @ proving_err_text e\<rparr>"

section \<open>Monitoring a proof\<close>

text \<open>One iteration of the loop: the order with its new state, or the finished proof.\<close>

definition monitor_step ::
    "id_lib \<Rightarrow> u64 \<Rightarrow> Order \<Rightarrow> pipeline \<Rightarrow> (unit + (Order + ProcessedOrder)) \<times> pipeline" where
  "monitor_step lib now ord p =
     (case call_backend (\<lambda>r. router_process_order r (process_order_cmd lib ord)) p of
        (Inl _, p) \<Rightarrow> (Inl (), p)
      | (Inr (InProgress state), p) \<Rightarrow>
          (case in_db (set_order_backend_state now (db_order_id lib ord) state) p of
             (Inl _, p) \<Rightarrow> (Inl (), p)
           | (Inr _, p) \<Rightarrow> (Inr (Inl (ord\<lparr>db_backend_state := Some state\<rparr>)), p))
      | (Inr (Completed processed), p) \<Rightarrow> (Inr (Inr processed), p))"

partial_function (option) monitor_proof_internal ::
    "id_lib \<Rightarrow> u64 \<Rightarrow> Order \<Rightarrow> pipeline \<Rightarrow> ((unit + ProcessedOrder) \<times> pipeline) option" where
  "monitor_proof_internal lib now ord p =
     (case monitor_step lib now ord p of
        (Inl e, p') \<Rightarrow> Some (Inl e, p')
      | (Inr r, p') \<Rightarrow>
          (case r of
             Inl ord' \<Rightarrow> monitor_proof_internal lib now ord' p'
           | Inr processed \<Rightarrow> Some (Inr processed, p')))"

datatype MonitorEvent = Progress u64 | Timeout | Notified OrderStateChange u64 | ChannelError

type_synonym monitored = "pipeline \<times> MonitorEvent list"

fun fulfilled_makes_not_actionable :: "Order \<Rightarrow> u64 \<Rightarrow> bool" where
  "fulfilled_makes_not_actionable ord now =
     (case db_fulfillment_type ord of
        FulfillAfterLockExpire \<Rightarrow> True
      | LockAndFulfill \<Rightarrow> now \<ge> lock_expires_at (db_request ord)
      | FulfillWithoutLocking \<Rightarrow> True)"

fun monitor_select ::
    "id_lib \<Rightarrow> u64 \<Rightarrow> bool \<Rightarrow> Order \<Rightarrow> ProvingErr option \<Rightarrow> pipeline \<Rightarrow> MonitorEvent list
      \<Rightarrow> (ProvingErr + ProcessedOrder) \<times> monitored" where
  "monitor_select lib chain cancel ord variant p [] = (Inl MonitorPending, p, [])"
| "monitor_select lib chain cancel ord variant p (Progress now # es) =
     (case monitor_step lib now ord p of
        (Inl _, p') \<Rightarrow> (Inl ProvingFailedErr, p', es)
      | (Inr (Inl ord'), p') \<Rightarrow> monitor_select lib chain cancel ord' variant p' es
      | (Inr (Inr processed), p') \<Rightarrow>
          (case variant of Some v \<Rightarrow> (Inl v, p', es) | None \<Rightarrow> (Inr processed, p', es)))"
| "monitor_select lib chain cancel ord variant p (Timeout # es) =
     (if cancel then (Inl CancelExpired, p, es)
      else monitor_select lib chain cancel ord (Some CompletedExpired) p es)"
| "monitor_select lib chain cancel ord variant p (Notified change now # es) =
     (if state_change_chain_id change \<noteq> chain then monitor_select lib chain cancel ord variant p es
      else case change of
        Fulfilled rid _ \<Rightarrow>
          (if rid = request_id (db_request ord) \<and> fulfilled_makes_not_actionable ord now then
             (if cancel then (Inl CancelFulfilledByAnother, p, es)
              else monitor_select lib chain cancel ord (Some CompletedFulfilledByAnother) p es)
           else monitor_select lib chain cancel ord variant p es)
      | Locked _ _ _ \<Rightarrow> monitor_select lib chain cancel ord variant p es)"
| "monitor_select lib chain cancel ord variant p (ChannelError # es) =
     monitor_select lib chain cancel ord variant p es"

definition monitor_proof_with_timeout ::
    "id_lib \<Rightarrow> u64 \<Rightarrow> bool \<Rightarrow> u64 \<Rightarrow> Order \<Rightarrow> monitored \<Rightarrow> (ProvingErr + ProcessedOrder) \<times> monitored" where
  "monitor_proof_with_timeout lib chain cancel now ord m =
     (let (p, es) = m in
      if db_backend_state ord = None then (Inl UnexpectedError, p, es)
      else if db_fulfillment_type ord \<noteq> FulfillAfterLockExpire \<and> db_expire_timestamp ord = None
      then (Inl ProvingPanic, p, es)
      else if db_fulfillment_type ord = FulfillAfterLockExpire \<or> the (db_expire_timestamp ord) < now then
        (let (r, p) = in_db (is_request_fulfilled (request_id (db_request ord))) p in
         if r = Inr True then
           (if cancel then (Inl CancelFulfilledByAnother, p, es)
            else monitor_select lib chain cancel ord (Some CompletedFulfilledByAnother) p es)
         else monitor_select lib chain cancel ord None p es)
      else monitor_select lib chain cancel ord None p es)"

section \<open>Proving an order\<close>

definition start_proof :: "id_lib \<Rightarrow> Order \<Rightarrow> pipeline \<Rightarrow> (unit + bytes) \<times> pipeline" where
  "start_proof lib ord p =
     (case call_backend (\<lambda>r. router_process_order r (process_order_cmd lib ord)) p of
        (Inr (InProgress state), p) \<Rightarrow> (Inr state, p)
      | (_, p) \<Rightarrow> (Inl (), p))"

datatype task_end = TaskDone | TaskRunning | TaskPanicked

definition after_proof ::
    "id_lib \<Rightarrow> u64 \<Rightarrow> u64 \<Rightarrow> bool option \<Rightarrow> Order \<Rightarrow> ProcessedOrder \<Rightarrow> pipeline \<Rightarrow> pipeline" where
  "after_proof lib chain now market_fulfilled ord processed p =
     (let i = db_order_id lib ord in
      if db_fulfillment_type ord = FulfillAfterLockExpire \<and> market_fulfilled = Some True
      then handle_order_failure now i (proving_failure CancelFulfilledByAnother) chain p
      else
        (let next_status = (case pr_submission_path processed of
               Batched \<Rightarrow> ReadyForBatch | Direct \<Rightarrow> ReadyForSubmission)
         in snd (in_db (set_order_batch_status now i next_status (pr_backend_id processed)) p)))"

definition after_monitor ::
    "id_lib \<Rightarrow> u64 \<Rightarrow> u64 \<Rightarrow> bool option \<Rightarrow> Order \<Rightarrow> ProvingErr + ProcessedOrder \<Rightarrow> pipeline \<Rightarrow> task_end \<times> pipeline" where
  "after_monitor lib chain now market_fulfilled ord res p =
     (let i = db_order_id lib ord in
      case res of
        Inr processed \<Rightarrow> (TaskDone, after_proof lib chain now market_fulfilled ord processed p)
      | Inl MonitorPending \<Rightarrow> (TaskRunning, p)
      | Inl ProvingPanic \<Rightarrow> (TaskPanicked, p)
      | Inl err \<Rightarrow>
          (TaskDone,
           handle_order_failure now i (proving_failure err) chain
             (if err \<in> {CancelFulfilledByAnother, CancelExpired}
              then snd (call_backend (\<lambda>r. router_cancel_order r (cancel_order_cmd lib ord)) p) else p)))"

text \<open>\<open>prove_and_update_db\<close>; \<open>market_fulfilled\<close> is the answer of the market contract, if it gives
  one. Every error of the monitoring is retried, those that say the order is no longer worth
  proving included.\<close>

definition is_proving_error :: "ProvingErr \<Rightarrow> bool" where
  "is_proving_error e \<longleftrightarrow> e \<noteq> MonitorPending \<and> e \<noteq> ProvingPanic"

definition monitor_and_finish ::
    "id_lib \<Rightarrow> u64 \<Rightarrow> u64 \<Rightarrow> bool \<Rightarrow> u64 \<Rightarrow> bool option \<Rightarrow> Order \<Rightarrow> monitored \<Rightarrow> task_end \<times> pipeline" where
  "monitor_and_finish lib chain retry_count cancel now market_fulfilled ord m =
     (let (res, p, es) = retry_only_with_context retry_count is_proving_error
            (monitor_proof_with_timeout lib chain cancel now ord) m
      in after_monitor lib chain now market_fulfilled ord res p)"

definition prove_and_update_db ::
    "id_lib \<Rightarrow> u64 \<Rightarrow> u64 \<Rightarrow> bool \<Rightarrow> u64 \<Rightarrow> bool option \<Rightarrow> Order \<Rightarrow> monitored \<Rightarrow> task_end \<times> pipeline" where
  "prove_and_update_db lib chain retry_count cancel now market_fulfilled ord m =
     (let (p, es) = m; i = db_order_id lib ord in
      case db_backend_state ord of
        Some _ \<Rightarrow> monitor_and_finish lib chain retry_count cancel now market_fulfilled ord (p, es)
      | None \<Rightarrow>
          (case retry_with_context retry_count (start_proof lib ord) p of
             (Inl _, p) \<Rightarrow>
               (TaskDone, handle_order_failure now i
                  \<lparr>bf_code = proving_err_code ProvingFailedErr, bf_reason = ''Proving session create failed''\<rparr> chain p)
           | (Inr state, p) \<Rightarrow>
               monitor_and_finish lib chain retry_count cancel now market_fulfilled (ord\<lparr>db_backend_state := Some state\<rparr>)
                 (snd (in_db (set_order_backend_state now i state) p), es)))"

text \<open>\<open>find_and_monitor_proofs\<close> at start-up, up to the tasks it spawns: the orders to monitor, after
  those without a backend state were marked as failed.\<close>

definition processor_set_order_failure :: "u64 \<Rightarrow> string \<Rightarrow> string \<Rightarrow> u64 \<Rightarrow> pipeline \<Rightarrow> pipeline" where
  "processor_set_order_failure now i reason chain p =
     try_send \<lparr>cc_order_id = i, cc_chain_id = chain, cc_outcome = ProvingFailed\<rparr>
       (snd (in_db (set_order_failure now i reason) p))"

fun monitor_found :: "id_lib \<Rightarrow> u64 \<Rightarrow> u64 \<Rightarrow> Order list \<Rightarrow> pipeline \<Rightarrow> Order list \<times> pipeline" where
  "monitor_found lib chain now [] p = ([], p)"
| "monitor_found lib chain now (ord # ords) p =
     (if db_backend_state ord = None
      then monitor_found lib chain now ords
             (processor_set_order_failure now (db_order_id lib ord) ''Proving status missing backend state'' chain p)
      else (let (spawned, p') = monitor_found lib chain now ords p in (ord # spawned, p')))"

definition find_and_monitor_proofs ::
    "id_lib \<Rightarrow> u64 \<Rightarrow> u64 \<Rightarrow> pipeline \<Rightarrow> (DbError + Order list) \<times> pipeline" where
  "find_and_monitor_proofs lib chain now p =
     db_bind (in_db get_active_proofs p) (\<lambda>proofs p.
       (let (spawned, p') = monitor_found lib chain now proofs p in (Inr spawned, p')))"

text \<open>One turn of the service's loop: the next order to prove, which is now marked as being proved.\<close>

definition next_proving_order :: "u64 \<Rightarrow> pipeline \<Rightarrow> (DbError + Order option) \<times> pipeline" where
  "next_proving_order now p = in_db (get_proving_order now) p"

section \<open>Frame of the monitoring\<close>

text \<open>Starting and monitoring a proof changes nothing but the stored backend state of the order.\<close>

definition state_only :: "string \<Rightarrow> pipeline \<Rightarrow> pipeline \<Rightarrow> bool" where
  "state_only i p p' \<longleftrightarrow>
     pl_sent p' = pl_sent p \<and> pl_room p' = pl_room p \<and> pl_backend p' = pl_backend p
     \<and> db_batches (pl_db p') = db_batches (pl_db p)
     \<and> (\<forall>j. j \<noteq> i \<longrightarrow> map_of (db_orders (pl_db p')) j = map_of (db_orders (pl_db p)) j)
     \<and> map_option db_status (map_of (db_orders (pl_db p')) i) = map_option db_status (map_of (db_orders (pl_db p)) i)
     \<and> (db_faults (pl_db p) = [] \<longrightarrow> db_faults (pl_db p') = [])"

lemma state_only_refl [simp]: "state_only i p p"
  by (simp add: state_only_def)

lemma state_only_trans: "state_only i a b \<Longrightarrow> state_only i b c \<Longrightarrow> state_only i a c"
  by (simp add: state_only_def)

lemma order_id_state [simp]: "db_order_id lib (ord\<lparr>db_backend_state := st\<rparr>) = db_order_id lib ord"
  by (simp add: db_order_id_def)

lemma state_only_call: "state_only i p (p\<lparr>pl_calls := n\<rparr>)"
  by (simp add: state_only_def)

lemma state_only_set: "state_only i p (p\<lparr>pl_db := snd (set_order_backend_state now i st (pl_db p))\<rparr>)"
proof -
  have "map_option db_status (map_of (db_orders (snd (set_order_backend_state now i st (pl_db p)))) i)
      = map_option db_status (map_of (db_orders (pl_db p)) i)"
    by (cases rule: state_op.result [where now = now and state = st and i = i and db = "pl_db p"]) simp_all
  then show ?thesis
    by (simp add: state_only_def state_op.others state_op.batches state_op.no_faults)
qed

lemma state_only_read: "state_only i p (p\<lparr>pl_db := snd (is_request_fulfilled rid (pl_db p))\<rparr>)"
  unfolding is_request_fulfilled_def
  by (cases rule: statement_cases [of "\<lambda>db. (Inr (db_fulfilled db rid \<noteq> None), db)" "pl_db p"])
    (auto simp: state_only_def)

lemma monitor_step_frame: "state_only (db_order_id lib ord) p (snd (monitor_step lib now ord p))"
proof -
  let ?p = "p\<lparr>pl_calls := Suc (pl_calls p)\<rparr>" and ?i = "db_order_id lib ord"
  have "state_only ?i p (?p\<lparr>pl_db := d\<rparr>)" if "set_order_backend_state now ?i st (pl_db p) = (r, d)" for st r d
    using state_only_trans [OF state_only_call [of ?i p "Suc (pl_calls p)"] state_only_set [of ?i ?p now st]] that by simp
  then show ?thesis
    by (auto simp: monitor_step_def call_backend_def in_db_def state_only_call
        split: prod.split sum.split OrderProcessProgress.split)
qed

lemma monitor_step_order:
  "monitor_step lib now ord p = (Inr (Inl ord'), p') \<Longrightarrow> \<exists>st. ord' = ord\<lparr>db_backend_state := Some st\<rparr>"
  by (auto simp: monitor_step_def split: prod.splits sum.splits OrderProcessProgress.splits)

lemma monitor_select_frame:
  "state_only (db_order_id lib ord) p (fst (snd (monitor_select lib chain cancel ord variant p es)))"
proof (induction es arbitrary: ord variant p cancel)
  case (Cons e es)
  show ?case
  proof (cases e)
    case (Progress now)
    obtain r p' where s: "monitor_step lib now ord p = (r, p')" by fastforce
    have f: "state_only (db_order_id lib ord) p p'" using monitor_step_frame [of lib ord p now] s by simp
    show ?thesis
    proof (cases "\<exists>ord'. r = Inr (Inl ord')")
      case True
      then obtain ord' where o: "r = Inr (Inl ord')" by blast
      then obtain st where "ord' = ord\<lparr>db_backend_state := Some st\<rparr>" using monitor_step_order s by blast
      then have "state_only (db_order_id lib ord) p' (fst (snd (monitor_select lib chain cancel ord' variant p' es)))"
        using Cons.IH [of ord' p' cancel variant] by simp
      then show ?thesis using Progress s o state_only_trans [OF f] by simp
    next
      case False
      then show ?thesis
        using Progress s f by (auto split: sum.split option.split)
    qed
  qed (simp_all add: Cons.IH split: OrderStateChange.split)
qed simp

lemma monitor_frame:
  "state_only (db_order_id lib ord) (fst m) (fst (snd (monitor_proof_with_timeout lib chain cancel now ord m)))"
proof -
  obtain p es where m: "m = (p, es)" by fastforce
  let ?i = "db_order_id lib ord"
  define p' where "p' = p\<lparr>pl_db := snd (is_request_fulfilled (request_id (db_request ord)) (pl_db p))\<rparr>"
  have p': "state_only ?i p p'" unfolding p'_def by (rule state_only_read)
  have sel: "state_only ?i p (fst (snd (monitor_select lib chain c ord variant p es)))"
    "state_only ?i p (fst (snd (monitor_select lib chain c ord variant p' es)))" for c variant
    using monitor_select_frame state_only_trans [OF p'] by blast+
  have "in_db (is_request_fulfilled (request_id (db_request ord))) p
      = (fst (is_request_fulfilled (request_id (db_request ord)) (pl_db p)), p')"
    by (simp add: prod_eq_iff p'_def)
  then show ?thesis by (simp add: m monitor_proof_with_timeout_def sel p')
qed

lemma retry_monitor_frame:
  assumes "retry_only_with_context n P (monitor_proof_with_timeout lib chain cancel now ord) m = (res, m')"
  shows "state_only (db_order_id lib ord) (fst m) (fst m')"
proof -
  let ?I = "\<lambda>q. state_only (db_order_id lib ord) (fst m) (fst q)"
  have step: "?I q \<Longrightarrow> ?I (snd (monitor_proof_with_timeout lib chain cancel now ord q))" for q
    using state_only_trans monitor_frame [of lib ord q chain cancel now] by blast
  obtain q where "?I q" "monitor_proof_with_timeout lib chain cancel now ord q = (res, m')"
    using retry_impl_last [OF assms [unfolded retry_only_with_context_def], of ?I] step by auto
  then show ?thesis using step [of q] by simp
qed

lemma retry_start_frame:
  assumes "retry_with_context n (start_proof lib ord) p = (res, p')"
  shows "state_only (db_order_id lib ord) p p'"
proof -
  let ?I = "\<lambda>q. state_only (db_order_id lib ord) p q"
  have start: "snd (start_proof lib ord q) = q\<lparr>pl_calls := Suc (pl_calls q)\<rparr>" for q
    by (auto simp: start_proof_def call_backend_def split: sum.split OrderProcessProgress.split)
  then have step: "?I q \<Longrightarrow> ?I (snd (start_proof lib ord q))" for q
    using state_only_trans state_only_call by metis
  obtain q where "?I q" "start_proof lib ord q = (res, p')"
    using retry_impl_last [OF assms [unfolded retry_with_context_def], of ?I] step by auto
  then show ?thesis using step [of q] by simp
qed

section \<open>Passed on or freed\<close>

text \<open>How a task leaves its order: passed on to the batcher with no message, or failed with one message,
  or untouched because the database did not take the last write. In the last case the order keeps its
  status, and a message was sent only if the write was that of a failure.\<close>

definition passed_on :: "string \<Rightarrow> pipeline \<Rightarrow> pipeline \<Rightarrow> bool" where
  "passed_on i p p' \<longleftrightarrow> pl_sent p' = pl_sent p
     \<and> (\<exists>ord. map_of (db_orders (pl_db p')) i = Some ord \<and> db_status ord \<in> {ReadyForBatch, ReadyForSubmission})"

definition freed :: "u64 \<Rightarrow> string \<Rightarrow> pipeline \<Rightarrow> pipeline \<Rightarrow> bool" where
  "freed chain i p p' \<longleftrightarrow> pl_sent p' = pl_sent p @ [failed_message chain i]
     \<and> (\<exists>ord. map_of (db_orders (pl_db p')) i = Some ord \<and> db_status ord = Failed)"

definition write_failed :: "u64 \<Rightarrow> string \<Rightarrow> pipeline \<Rightarrow> pipeline \<Rightarrow> bool" where
  "write_failed chain i p p' \<longleftrightarrow>
     (db_faults (pl_db p) \<noteq> [] \<or> map_of (db_orders (pl_db p)) i = None)
     \<and> map_option db_status (map_of (db_orders (pl_db p')) i) = map_option db_status (map_of (db_orders (pl_db p)) i)
     \<and> (pl_sent p' = pl_sent p \<or> pl_sent p' = pl_sent p @ [failed_message chain i])"

lemma handle_order_failure_frees:
  assumes "state_only i p q" "pl_room p > 0" and r_def: "r = handle_order_failure now i failure chain q"
  shows "freed chain i p r \<or> write_failed chain i p r"
    "j \<noteq> i \<Longrightarrow> map_of (db_orders (pl_db r)) j = map_of (db_orders (pl_db p)) j"
    "db_batches (pl_db r) = db_batches (pl_db p)"
proof -
  let ?d = "snd (set_order_failure now i (failure_text failure) (pl_db q))"
  have q: "pl_room q > 0" "pl_sent q = pl_sent p" "db_batches (pl_db q) = db_batches (pl_db p)"
    "\<And>j. j \<noteq> i \<Longrightarrow> map_of (db_orders (pl_db q)) j = map_of (db_orders (pl_db p)) j"
    "map_option db_status (map_of (db_orders (pl_db q)) i) = map_option db_status (map_of (db_orders (pl_db p)) i)"
    "db_faults (pl_db p) = [] \<Longrightarrow> db_faults (pl_db q) = []"
    using assms by (auto simp: state_only_def)
  have sent: "pl_sent r = pl_sent p @ [failed_message chain i]" and db: "pl_db r = ?d"
    using handle_order_failure_sent(1) [OF q(1)] q(2) by (simp_all add: r_def failed_message_def)
  show "freed chain i p r \<or> write_failed chain i p r"
  proof (cases "db_faults (pl_db p) = [] \<and> map_of (db_orders (pl_db p)) i \<noteq> None")
    case True
    then obtain row where "map_of (db_orders (pl_db q)) i = Some row" using q(5) by auto
    then show ?thesis using fail_op.runs(2) [OF q(6)] True sent db by (simp add: freed_def)
  next
    case False
    then show ?thesis
      using sent db q(5)
      by (cases rule: fail_op.result [of now i "failure_text failure" "pl_db q"])
        (auto simp: freed_def write_failed_def)
  qed
  show "j \<noteq> i \<Longrightarrow> map_of (db_orders (pl_db r)) j = map_of (db_orders (pl_db p)) j"
    "db_batches (pl_db r) = db_batches (pl_db p)"
    using q(3,4) fail_op.others fail_op.batches db by simp_all
qed

lemma set_batch_status_passes:
  assumes "state_only i p q" "st \<in> {ReadyForBatch, ReadyForSubmission}"
    and r_def: "r = q\<lparr>pl_db := snd (set_order_batch_status now i st bid (pl_db q))\<rparr>"
  shows "passed_on i p r \<or> write_failed chain i p r"
    "j \<noteq> i \<Longrightarrow> map_of (db_orders (pl_db r)) j = map_of (db_orders (pl_db p)) j"
    "db_batches (pl_db r) = db_batches (pl_db p)"
proof -
  have q: "pl_sent q = pl_sent p" "db_batches (pl_db q) = db_batches (pl_db p)"
    "\<And>j. j \<noteq> i \<Longrightarrow> map_of (db_orders (pl_db q)) j = map_of (db_orders (pl_db p)) j"
    "map_option db_status (map_of (db_orders (pl_db q)) i) = map_option db_status (map_of (db_orders (pl_db p)) i)"
    "db_faults (pl_db p) = [] \<Longrightarrow> db_faults (pl_db q) = []"
    using assms by (auto simp: state_only_def)
  show "passed_on i p r \<or> write_failed chain i p r"
  proof (cases "db_faults (pl_db p) = [] \<and> map_of (db_orders (pl_db p)) i \<noteq> None")
    case True
    then obtain row where "map_of (db_orders (pl_db q)) i = Some row" using q(4) by auto
    then show ?thesis
      using status_op.runs(2) [OF q(5)] True q(1) assms(2) by (auto simp: passed_on_def r_def)
  next
    case False
    then show ?thesis
      using q(1,4) assms(2) unfolding r_def
      by (cases rule: status_op.result [of now i st bid "pl_db q"]) (auto simp: passed_on_def write_failed_def)
  qed
  show "j \<noteq> i \<Longrightarrow> map_of (db_orders (pl_db r)) j = map_of (db_orders (pl_db p)) j"
    "db_batches (pl_db r) = db_batches (pl_db p)"
    using q(2,3) status_op.others status_op.batches by (simp_all add: r_def)
qed

definition settled :: "u64 \<Rightarrow> string \<Rightarrow> pipeline \<Rightarrow> pipeline \<Rightarrow> bool" where
  "settled chain i p p' \<longleftrightarrow> (passed_on i p p' \<or> freed chain i p p' \<or> write_failed chain i p p')
     \<and> (\<forall>j. j \<noteq> i \<longrightarrow> map_of (db_orders (pl_db p')) j = map_of (db_orders (pl_db p)) j)
     \<and> db_batches (pl_db p') = db_batches (pl_db p)"

lemma after_monitor_settled:
  assumes "state_only (db_order_id lib ord) p q" "pl_room p > 0"
    and "after_monitor lib chain now market ord res q = (TaskDone, p')"
  shows "settled chain (db_order_id lib ord) p p'"
proof -
  let ?i = "db_order_id lib ord"
  have fail: "settled chain ?i p (handle_order_failure now ?i failure chain r)" if "state_only ?i p r" for failure r
    using handle_order_failure_frees [OF that assms(2) refl] by (auto simp: settled_def)
  have "settled chain ?i p (q\<lparr>pl_db := snd (set_order_batch_status now ?i st bid (pl_db q))\<rparr>)"
    if "st \<in> {ReadyForBatch, ReadyForSubmission}" for st bid
    using set_batch_status_passes(1) [OF assms(1) that refl, where chain = chain]
      set_batch_status_passes(2,3) [OF assms(1) that refl] by (auto simp: settled_def)
  then have fin: "settled chain ?i p (after_proof lib chain now market ord processed q)" for processed
    using fail [OF assms(1)] by (simp add: after_proof_def Let_def split: SubmissionPath.split)
  have "state_only ?i p (q\<lparr>pl_calls := n\<rparr>)" for n
    using state_only_trans [OF assms(1) state_only_call] .
  then show ?thesis
    using assms(1,3) fail fin
    by (auto simp: after_monitor_def Let_def split: sum.splits ProvingErr.splits)
qed

lemma prove_and_update_settled:
  assumes "prove_and_update_db lib chain retries cancel now market ord (p, es) = (TaskDone, p')" "pl_room p > 0"
  shows "settled chain (db_order_id lib ord) p p'"
proof -
  let ?i = "db_order_id lib ord"
  have mon: "settled chain ?i p p'"
    if "state_only ?i p q" "db_order_id lib o' = ?i"
      "monitor_and_finish lib chain retries cancel now market o' (q, es) = (TaskDone, p')" for o' q
  proof -
    obtain res q' es' where r: "retry_only_with_context retries is_proving_error
        (monitor_proof_with_timeout lib chain cancel now o') (q, es) = (res, q', es')" by (metis surj_pair)
    have "state_only ?i p q'" using state_only_trans [OF that(1)] retry_monitor_frame [OF r] that(2) by simp
    then show ?thesis
      using after_monitor_settled [of lib o' p q'] that(2,3) assms(2) r by (simp add: monitor_and_finish_def)
  qed
  show ?thesis
  proof (cases "db_backend_state ord")
    case (Some st)
    then show ?thesis using assms(1) mon [of p ord] by (simp add: prove_and_update_db_def)
  next
    case None
    obtain r q where q: "retry_with_context retries (start_proof lib ord) p = (r, q)" by fastforce
    note f = retry_start_frame [OF q]
    show ?thesis
    proof (cases r)
      case (Inl e)
      then show ?thesis
        using assms q None handle_order_failure_frees [OF f assms(2) refl] by (auto simp: prove_and_update_db_def settled_def)
    next
      case (Inr st)
      have "state_only ?i p (q\<lparr>pl_db := snd (set_order_backend_state now ?i st (pl_db q))\<rparr>)"
        using state_only_trans [OF f state_only_set] .
      then show ?thesis
        using mon [of _ "ord\<lparr>db_backend_state := Some st\<rparr>"] assms(1) q None Inr by (simp add: prove_and_update_db_def)
    qed
  qed
qed

text \<open>C10: when proving an order ends, however the proof went and whichever notifications arrived, its row
  says that it is ready for the batcher or for submission and no message was sent, or its row says that it failed
  and exactly one message was sent, the one that frees its capacity slot. The exception is a database
  that fails, or has no row for the order: then the order may keep its status, with no message or
  the one message sent. No other order and no batch was touched. The completion channel has room.\<close>

theorem proving_passes_on_or_frees:
  assumes "prove_and_update_db lib chain retries cancel now market ord (p, es) = (TaskDone, p')" "pl_room p > 0"
  shows "settled chain (db_order_id lib ord) p p'"
  using assms by (rule prove_and_update_settled)

text \<open>The exception is real: when the statement that passes a proved order on fails, the error is only logged.
  The task ends, the order stays as it was, and no message frees the slot.\<close>

lemma failed_status_write_holds_slot:
  assumes "db_faults (pl_db p) = Some e # fs" "db_fulfillment_type ord = LockAndFulfill"
  shows "after_monitor lib chain now market ord (Inr processed) p
     = (TaskDone, p\<lparr>pl_db := (pl_db p)\<lparr>db_faults := fs\<rparr>\<rparr>)"
  using assms by (simp add: after_monitor_def after_proof_def in_db_def set_order_batch_status_def statement_def Let_def)

text \<open>The retries do not tell a failed attempt from an order that is no longer worth proving: after the
  request expired and the proof was to be cancelled, the proof is monitored once more, and a proof
  that then completes is passed on.\<close>

lemma expired_order_monitored_again:
  assumes "db_backend_state ord \<noteq> None" "db_fulfillment_type ord = LockAndFulfill"
    and "db_expire_timestamp ord = Some e" "\<not> e < now" "monitor_step lib t ord p = (Inr (Inr x), p')"
  shows "retry_only_with_context 1 is_proving_error (monitor_proof_with_timeout lib chain True now ord)
      (p, [Timeout, Progress t]) = (Inr x, p', [])"
  using assms
  by (simp add: retry_only_with_context_def retry_impl_def monitor_proof_with_timeout_def is_proving_error_def)

section \<open>A healthy prover finishes\<close>

text \<open>A prover whose calls succeed, and a state codec that reads back what it wrote.\<close>

definition healthy_prover :: "risc0_env \<Rightarrow> bool" where
  "healthy_prover env \<longleftrightarrow>
     (\<forall>x. wait_for_stark env x = Inr () \<and> verify_groth16_receipt env x = Inr ()
        \<and> verify_blake3_groth16_receipt env x = Inr ()
        \<and> (\<exists>y. compress env x = Inr y) \<and> (\<exists>y. compress_blake3_groth16 env x = Inr y))
     \<and> (\<forall>st. json_decode env (json_encode env st) = Some st)"

lemma healthy_process:
  fixes b cmd
  defines "sel \<equiv> normalize_selector b (req_selector (requirements (po_request cmd)))"
  assumes "healthy_prover (rb_env b)" "po_backend_state cmd = Some (json_encode (rb_env b) st)"
    and "version st \<le> RISC0_ORDER_STATE_VERSION"
  shows "compression_type_for_selector sel \<noteq> NoCompression \<Longrightarrow> compressed_proof_id st = None \<Longrightarrow>
      \<exists>c. risc0_process_order b cmd = Inr (InProgress (json_encode (rb_env b) (st\<lparr>compressed_proof_id := Some c\<rparr>)))"
    and "compression_type_for_selector sel = NoCompression \<or> compressed_proof_id st \<noteq> None \<Longrightarrow>
      risc0_process_order b cmd = Inr (Completed
        \<lparr>pr_backend_id = rb_id b, pr_order_id = po_order_id cmd,
         pr_submission_path = submission_path_for_risc0_selector sel,
         pr_compressed = (compressed_proof_id st \<noteq> None)\<rparr>)"
proof -
  have dec: "risc0_order_state_decode (rb_env b) (json_encode (rb_env b) st) = Inr st"
    using assms(2,4) by (simp add: risc0_order_state_decode_def healthy_prover_def ok_or_def)
  have wait: "wait_for_stark (rb_env b) (proof_id st) = Inr ()" using assms(2) by (simp add: healthy_prover_def)
  have "\<exists>c. compress_order_proof b (proof_id st) ty = Some (Inr c)" if "ty \<noteq> NoCompression" for ty
  proof -
    obtain x y where "compress (rb_env b) (proof_id st) = Inr x" "compress_blake3_groth16 (rb_env b) (proof_id st) = Inr y"
      using assms(2) unfolding healthy_prover_def by blast
    then show ?thesis
      using assms(2) that by (cases ty) (simp_all add: compress_order_proof_def healthy_prover_def)
  qed
  then show "compression_type_for_selector sel \<noteq> NoCompression \<Longrightarrow> compressed_proof_id st = None \<Longrightarrow>
      \<exists>c. risc0_process_order b cmd = Inr (InProgress (json_encode (rb_env b) (st\<lparr>compressed_proof_id := Some c\<rparr>)))"
    using assms(3) dec wait by (fastforce simp: risc0_process_order_def sel_def Let_def)
  show "compression_type_for_selector sel = NoCompression \<or> compressed_proof_id st \<noteq> None \<Longrightarrow>
      risc0_process_order b cmd = Inr (Completed
        \<lparr>pr_backend_id = rb_id b, pr_order_id = po_order_id cmd,
         pr_submission_path = submission_path_for_risc0_selector sel,
         pr_compressed = (compressed_proof_id st \<noteq> None)\<rparr>)"
    using assms(3) dec wait by (auto simp: risc0_process_order_def sel_def Let_def)
qed

text \<open>The router sends the order to the backend at every call.\<close>

definition served_by :: "Risc0Backend \<Rightarrow> Order \<Rightarrow> pipeline \<Rightarrow> bool" where
  "served_by b ord p \<longleftrightarrow>
     (\<forall>n. backend_for_selector (pl_backend p n) (req_selector (requirements (db_request ord))) = Inr (risc0_backend b))
     \<and> db_faults (pl_db p) = []"

lemma served_call:
  assumes "served_by b ord p"
  shows "call_backend (\<lambda>r. router_process_order r (process_order_cmd lib (ord\<lparr>db_backend_state := st\<rparr>))) p =
    (risc0_process_order b (process_order_cmd lib (ord\<lparr>db_backend_state := st\<rparr>)), p\<lparr>pl_calls := Suc (pl_calls p)\<rparr>)"
  using assms
  by (simp add: call_backend_def router_process_order_def served_by_def process_order_cmd_def risc0_backend_def)

lemma served_state:
  assumes "served_by b ord p" "map_of (db_orders (pl_db p)) (db_order_id lib ord) = Some row"
  obtains p' where "in_db (set_order_backend_state now (db_order_id lib ord) st) (p\<lparr>pl_calls := n\<rparr>) = (Inr (), p')"
    "served_by b ord p'" "pl_sent p' = pl_sent p" "db_fulfilled (pl_db p') = db_fulfilled (pl_db p)"
    "\<exists>row'. map_of (db_orders (pl_db p')) (db_order_id lib ord) = Some row'"
proof -
  let ?i = "db_order_id lib ord"
  have nf: "db_faults (pl_db p) = []" using assms(1) by (simp add: served_by_def)
  note R = state_op.runs [OF nf assms(2)]
  show ?thesis
  proof (rule that)
    show "in_db (set_order_backend_state now ?i st) (p\<lparr>pl_calls := n\<rparr>)
        = (Inr (), p\<lparr>pl_calls := n, pl_db := snd (set_order_backend_state now ?i st (pl_db p))\<rparr>)"
      using R(1) by (simp add: prod_eq_iff)
  qed (use assms(1) R state_op.fulfilled in \<open>simp_all add: served_by_def\<close>)
qed

definition started :: "string \<Rightarrow> Risc0OrderState" where
  "started pid = \<lparr>version = RISC0_ORDER_STATE_VERSION, proof_id = pid, compressed_proof_id = None\<rparr>"

text \<open>One or two iterations: compress if the selector asks for it, then finish.\<close>

definition proof_done :: "id_lib \<Rightarrow> Risc0Backend \<Rightarrow> Order \<Rightarrow> pipeline \<Rightarrow> ProcessedOrder \<Rightarrow> pipeline \<Rightarrow> bool" where
  "proof_done lib b ord p x p' \<longleftrightarrow>
     pr_submission_path x = submission_path_for_risc0_selector (normalize_selector b (req_selector (requirements (db_request ord))))
     \<and> (pr_compressed x \<longleftrightarrow> pr_submission_path x = Direct) \<and> pr_backend_id x = rb_id b
     \<and> served_by b ord p' \<and> pl_sent p' = pl_sent p
     \<and> (\<exists>row. map_of (db_orders (pl_db p')) (db_order_id lib ord) = Some row)"

lemma healthy_steps:
  assumes "healthy_prover (rb_env b)" "served_by b ord p"
    and "map_of (db_orders (pl_db p)) (db_order_id lib ord) = Some row"
    and "db_backend_state ord = Some (json_encode (rb_env b) (started pid))"
  shows "(\<exists>x p'. monitor_step lib t ord p = (Inr (Inr x), p') \<and> proof_done lib b ord p x p')
     \<or> (\<exists>ord1 p1 x p'. monitor_step lib t ord p = (Inr (Inl ord1), p1)
          \<and> monitor_step lib t' ord1 p1 = (Inr (Inr x), p') \<and> proof_done lib b ord p x p')"
proof -
  let ?env = "rb_env b" and ?cmd = "process_order_cmd lib ord"
  let ?sel = "normalize_selector b (req_selector (requirements (db_request ord)))"
  have req: "req_selector (requirements (po_request ?cmd)) = req_selector (requirements (db_request ord))"
    and st: "po_backend_state ?cmd = Some (json_encode ?env (started pid))"
    using assms(4) by (simp_all add: process_order_cmd_def)
  have v: "version (started pid) \<le> RISC0_ORDER_STATE_VERSION" "compressed_proof_id (started pid) = None"
    by (simp_all add: started_def)
  note H = healthy_process [OF assms(1) st v(1), unfolded req]
  have same: "ord\<lparr>db_backend_state := db_backend_state ord\<rparr> = ord" by simp
  note call = served_call [OF assms(2), of lib "db_backend_state ord", unfolded same]
  have calls: "served_by b ord (q\<lparr>pl_calls := n\<rparr>)" if "served_by b ord q" for q n using that by (simp add: served_by_def)
  show ?thesis
  proof (cases "compression_type_for_selector ?sel = NoCompression")
    case True
    let ?x = "\<lparr>pr_backend_id = rb_id b, pr_order_id = po_order_id ?cmd,
      pr_submission_path = submission_path_for_risc0_selector ?sel, pr_compressed = False\<rparr>"
    let ?p = "p\<lparr>pl_calls := Suc (pl_calls p)\<rparr>"
    have "monitor_step lib t ord p = (Inr (Inr ?x), ?p)" using H(2) True v(2) call by (simp add: monitor_step_def)
    moreover have "proof_done lib b ord p ?x ?p"
      using True calls [OF assms(2)] assms(3) direct_iff_compressed [of ?sel] by (simp add: proof_done_def)
    ultimately show ?thesis by blast
  next
    case False
    obtain c where c: "risc0_process_order b ?cmd = Inr (InProgress (json_encode ?env ((started pid)\<lparr>compressed_proof_id := Some c\<rparr>)))"
      using H(1) False v(2) by blast
    let ?st = "json_encode ?env ((started pid)\<lparr>compressed_proof_id := Some c\<rparr>)"
    let ?ord = "ord\<lparr>db_backend_state := Some ?st\<rparr>"
    obtain p1 where p1: "in_db (set_order_backend_state t (db_order_id lib ord) ?st) (p\<lparr>pl_calls := Suc (pl_calls p)\<rparr>) = (Inr (), p1)"
      "served_by b ord p1" "pl_sent p1 = pl_sent p" "\<exists>row'. map_of (db_orders (pl_db p1)) (db_order_id lib ord) = Some row'"
      using served_state [OF assms(2,3)] by metis
    have s1: "monitor_step lib t ord p = (Inr (Inl ?ord), p1)" using call c p1(1) by (simp add: monitor_step_def)
    let ?x = "\<lparr>pr_backend_id = rb_id b, pr_order_id = db_order_id lib ord,
      pr_submission_path = submission_path_for_risc0_selector ?sel, pr_compressed = True\<rparr>"
    let ?p = "p1\<lparr>pl_calls := Suc (pl_calls p1)\<rparr>"
    have "risc0_process_order b (process_order_cmd lib ?ord) = Inr (Completed ?x)"
      using healthy_process(2) [OF assms(1), of "process_order_cmd lib ?ord" "(started pid)\<lparr>compressed_proof_id := Some c\<rparr>"] v
      by (simp add: process_order_cmd_def started_def)
    then have "monitor_step lib t' ?ord p1 = (Inr (Inr ?x), ?p)"
      using served_call [OF p1(2), of lib "Some ?st"] by (simp add: monitor_step_def)
    moreover have "proof_done lib b ord p ?x ?p"
      using False calls [OF p1(2)] p1(3,4) direct_iff_compressed [of ?sel] by (simp add: proof_done_def)
    ultimately show ?thesis using s1 by blast
  qed
qed

text \<open>C12: with a healthy prover the monitoring loop ends, and its result is compressed exactly when it is
  to be submitted directly.\<close>

theorem monitoring_terminates:
  assumes "healthy_prover (rb_env b)" "served_by b ord p"
    and "map_of (db_orders (pl_db p)) (db_order_id lib ord) = Some row"
    and "db_backend_state ord = Some (json_encode (rb_env b) (started pid))"
  shows "\<exists>x p'. monitor_proof_internal lib now ord p = Some (Inr x, p')
     \<and> (pr_compressed x \<longleftrightarrow> pr_submission_path x = Direct)
     \<and> pr_submission_path x =
         submission_path_for_risc0_selector (normalize_selector b (req_selector (requirements (db_request ord))))"
proof -
  consider x p' where "monitor_step lib now ord p = (Inr (Inr x), p')" "proof_done lib b ord p x p'"
    | ord1 p1 x p' where "monitor_step lib now ord p = (Inr (Inl ord1), p1)"
        "monitor_step lib now ord1 p1 = (Inr (Inr x), p')" "proof_done lib b ord p x p'"
    using healthy_steps [OF assms, of now now] by blast
  then show ?thesis
    by cases (auto simp: proof_done_def monitor_proof_internal.simps [of lib now ord p] monitor_proof_internal.simps)
qed

text \<open>C11: an accepted order whose proof can be started reaches the batcher when the prover is healthy and
  nothing else happens to it: two iterations of the monitoring suffice, the order is ready for
  direct submission exactly when its selector asks for it and ready for a batch otherwise, and
  its capacity slot stays taken.\<close>

theorem healthy_order_reaches_batcher:
  assumes "healthy_prover (rb_env b)" "served_by b ord p" "map_of (db_orders (pl_db p)) (db_order_id lib ord) = Some row"
    and "db_backend_state ord = None" "start_order b (process_order_cmd lib ord) = Inr pid"
    and "db_expire_timestamp ord \<noteq> None" "db_fulfilled (pl_db p) (request_id (db_request ord)) = None" "market \<noteq> Some True"
  shows "\<exists>p' row'. prove_and_update_db lib chain retries cancel now market ord (p, Progress t # Progress t' # es) = (TaskDone, p')
     \<and> map_of (db_orders (pl_db p')) (db_order_id lib ord) = Some row' \<and> db_backend_id row' = Some (rb_id b)
     \<and> db_status row' =
         (case submission_path_for_risc0_selector (normalize_selector b (req_selector (requirements (db_request ord)))) of
            Direct \<Rightarrow> ReadyForSubmission | Batched \<Rightarrow> ReadyForBatch)
     \<and> pl_sent p' = pl_sent p"
proof -
  let ?i = "db_order_id lib ord" and ?env = "rb_env b"
  define st where "st = json_encode ?env (started pid)"
  define ord0 where "ord0 = ord\<lparr>db_backend_state := Some st\<rparr>"
  have i: "db_order_id lib ord0 = ?i" by (simp add: ord0_def)
  have "ord\<lparr>db_backend_state := None\<rparr> = ord" using assms(4) by simp
  then have "start_proof lib ord p = (Inr st, p\<lparr>pl_calls := Suc (pl_calls p)\<rparr>)"
    using served_call [OF assms(2), of lib None] assms(4,5)
    by (simp add: start_proof_def risc0_process_order_def process_order_cmd_def st_def started_def)
  then have start: "retry_with_context retries (start_proof lib ord) p = (Inr st, p\<lparr>pl_calls := Suc (pl_calls p)\<rparr>)"
    unfolding retry_with_context_def by (rule retry_impl_success)
  obtain p1 row1 where p1: "in_db (set_order_backend_state now ?i st) (p\<lparr>pl_calls := Suc (pl_calls p)\<rparr>) = (Inr (), p1)"
    "served_by b ord p1" "pl_sent p1 = pl_sent p" "db_fulfilled (pl_db p1) = db_fulfilled (pl_db p)"
    and row1: "map_of (db_orders (pl_db p1)) ?i = Some row1"
    using served_state [OF assms(2,3)] by metis
  have served: "served_by b ord0 p1" and row0: "map_of (db_orders (pl_db p1)) (db_order_id lib ord0) = Some row1"
    using p1(2) row1 by (simp_all add: served_by_def ord0_def)
  have "db_backend_state ord0 = Some (json_encode ?env (started pid))" by (simp add: ord0_def st_def)
  note steps = healthy_steps [OF assms(1) served row0 this, of t t']
  obtain x p2 es2 where sel: "monitor_select lib chain cancel ord0 None p1 (Progress t # Progress t' # es) = (Inr x, p2, es2)"
    and fin: "proof_done lib b ord0 p1 x p2"
    using steps by (elim disjE exE conjE) (simp_all add: that)
  have nf: "db_faults (pl_db p1) = []" using p1(2) by (simp add: served_by_def)
  have "in_db (is_request_fulfilled (request_id (db_request ord0))) p1 = (Inr False, p1)"
    using p1(4) assms(7) nf by (simp add: in_db_def is_request_fulfilled_def statement_no_fault ord0_def)
  then have "monitor_proof_with_timeout lib chain cancel now ord0 (p1, Progress t # Progress t' # es) = (Inr x, p2, es2)"
    using sel assms(6) by (simp add: monitor_proof_with_timeout_def ord0_def)
  then have mon: "retry_only_with_context retries is_proving_error (monitor_proof_with_timeout lib chain cancel now ord0)
      (p1, Progress t # Progress t' # es) = (Inr x, p2, es2)"
    unfolding retry_only_with_context_def by (rule retry_impl_success)
  define nxt where "nxt = (case pr_submission_path x of Batched \<Rightarrow> ReadyForBatch | Direct \<Rightarrow> ReadyForSubmission)"
  let ?p = "p2\<lparr>pl_db := snd (set_order_batch_status now ?i nxt (pr_backend_id x) (pl_db p2))\<rparr>"
  have "prove_and_update_db lib chain retries cancel now market ord (p, Progress t # Progress t' # es) = (TaskDone, ?p)"
  proof -
    have "snd (in_db (set_order_backend_state now ?i st) (p\<lparr>pl_calls := Suc (pl_calls p)\<rparr>)) = p1"
      unfolding p1(1) by simp
    moreover have "monitor_and_finish lib chain retries cancel now market ord0 (p1, Progress t # Progress t' # es) = (TaskDone, ?p)"
      using assms(8) mon i by (simp add: monitor_and_finish_def after_monitor_def after_proof_def nxt_def)
    ultimately show ?thesis
      using assms(4) start by (simp add: prove_and_update_db_def Let_def ord0_def)
  qed
  moreover obtain row2 where "map_of (db_orders (pl_db p2)) ?i = Some row2" using fin i by (auto simp: proof_done_def)
  moreover have "db_faults (pl_db p2) = []" using fin by (simp add: proof_done_def served_by_def)
  moreover have "pl_sent p2 = pl_sent p" using fin p1(3) by (simp add: proof_done_def)
  ultimately show ?thesis
    using status_op.runs(2) [of "pl_db p2" ?i row2 now nxt "pr_backend_id x"] fin
    by (auto simp: proof_done_def nxt_def ord0_def split: SubmissionPath.split)
qed

section \<open>A sample order\<close>

definition proving_row :: Order where
  "proving_row = ready_row\<lparr>db_status := Proving, db_backend_id := None, db_image_id := Some ''image'',
     db_input_id := Some ''input'', db_expire_timestamp := Some 1200\<rparr>"

definition proving_db :: broker_db where
  "proving_db = db_empty\<lparr>db_orders := [(db_order_id sample_lib proving_row, proving_row)]\<rparr>"

definition sample_risc0 :: Risc0Backend where
  "sample_risc0 = risc0_new sample_env (\<lambda>_. False) risc0_sample_registry 0x99 False"

definition sample_router :: BackendRouter where
  "sample_router = \<lparr>backends = [''risc0_v3'' \<mapsto> backend_entry_new (risc0_backend sample_risc0)], routes = (\<lambda>_. Some ''risc0_v3'')\<rparr>"

lemma sample_env_healthy: "healthy_prover (rb_env sample_risc0)"
proof -
  have "rb_env sample_risc0 = sample_env" by (simp add: sample_risc0_def risc0_new_def)
  then show ?thesis using sample_codec by (simp add: healthy_prover_def) (simp add: sample_env_def)
qed

lemma sample_served: "served_by sample_risc0 ord (sample_pipeline proving_db sample_router)"
  by (simp add: served_by_def sample_pipeline_def backend_for_selector_def sample_router_def ok_or_def
      backend_entry_new_def proving_db_def db_empty_def)

lemma sample_proving_rows:
  "db_orders (pl_db (sample_pipeline proving_db r)) = [(db_order_id sample_lib proving_row, proving_row)]"
  "db_fulfilled (pl_db (sample_pipeline proving_db r)) = Map.empty"
  by (simp_all add: sample_pipeline_def proving_db_def db_empty_def)

lemma sample_proving_done:
  "\<exists>p'. prove_and_update_db sample_lib 1 1 False 1000 None proving_row (sample_pipeline proving_db router_new, []) = (TaskDone, p')"
proof -
  have st: "db_backend_state proving_row = None"
    by (simp add: proving_row_def ready_row_def proving_order_from_request_def order_from_request_def)
  have "start_proof sample_lib proving_row q = (Inl (), q\<lparr>pl_calls := Suc (pl_calls q)\<rparr>)"
    if "pl_backend q = (\<lambda>_. router_new)" for q
    using that by (simp add: start_proof_def call_backend_def router_process_order_def backend_for_selector_def router_new_def ok_or_def)
  then have "\<exists>q. retry_with_context 1 (start_proof sample_lib proving_row) (sample_pipeline proving_db router_new) = (Inl (), q)"
    by (simp add: retry_with_context_def retry_impl_def sample_pipeline_def)
  then show ?thesis using st by (auto simp: prove_and_update_db_def)
qed

theorem proving_passes_on_or_frees_witness:
  "\<exists>p'. prove_and_update_db sample_lib 1 1 False 1000 None proving_row (sample_pipeline proving_db router_new, []) = (TaskDone, p')
     \<and> settled 1 (db_order_id sample_lib proving_row) (sample_pipeline proving_db router_new) p'"
proof -
  obtain p' where p': "prove_and_update_db sample_lib 1 1 False 1000 None proving_row (sample_pipeline proving_db router_new, []) = (TaskDone, p')"
    using sample_proving_done by blast
  have "pl_room (sample_pipeline proving_db router_new) > 0" by (simp add: sample_pipeline_def)
  then show ?thesis using proving_passes_on_or_frees [OF p'] p' by blast
qed

theorem monitoring_terminates_witness:
  "\<exists>x p'. monitor_proof_internal sample_lib 1000
       (proving_row\<lparr>db_backend_state := Some (json_encode (rb_env sample_risc0) (started ''stark''))\<rparr>)
       (sample_pipeline proving_db sample_router) = Some (Inr x, p')"
proof -
  let ?ord = "proving_row\<lparr>db_backend_state := Some (json_encode (rb_env sample_risc0) (started ''stark''))\<rparr>"
  have "map_of (db_orders (pl_db (sample_pipeline proving_db sample_router))) (db_order_id sample_lib ?ord) = Some proving_row"
    by (simp add: sample_proving_rows)
  moreover have "db_backend_state ?ord = Some (json_encode (rb_env sample_risc0) (started ''stark''))" by simp
  ultimately show ?thesis
    using monitoring_terminates [OF sample_env_healthy sample_served] by blast
qed

theorem healthy_order_reaches_batcher_witness:
  "\<exists>p' row'. prove_and_update_db sample_lib 1 0 True 1000 None proving_row
         (sample_pipeline proving_db sample_router, [Progress 1001, Progress 1002]) = (TaskDone, p')
     \<and> map_of (db_orders (pl_db p')) (db_order_id sample_lib proving_row) = Some row' \<and> db_status row' = ReadyForBatch"
proof -
  have sel: "req_selector (requirements (db_request proving_row)) = 0"
    by (simp add: proving_row_def ready_row_def proving_order_from_request_def order_from_request_def sample_order_def
        order_request_new_def requirements_new_def UNSPECIFIED_SELECTOR_def)
  have row: "map_of (db_orders (pl_db (sample_pipeline proving_db sample_router))) (db_order_id sample_lib proving_row) = Some proving_row"
    by (simp add: sample_proving_rows)
  have ord: "db_backend_state proving_row = None" "db_expire_timestamp proving_row \<noteq> None"
    "db_image_id proving_row = Some ''image''" "db_input_id proving_row = Some ''input''"
    by (simp_all add: proving_row_def ready_row_def proving_order_from_request_def order_from_request_def)
  have start: "start_order sample_risc0 (process_order_cmd sample_lib proving_row) = Inr ''stark''"
    using ord by (simp add: start_order_def process_order_cmd_def sample_risc0_def risc0_new_def sample_env_def)
  have "rb_router_policy sample_risc0 = router_policy_new risc0_sample_registry (risc0_producible 0x99 False) ASSESSOR_PRIORITY"
    by (simp add: sample_risc0_def risc0_new_def risc0_router_policy_def)
  then have "normalize_selector sample_risc0 0 = 0"
    by (simp add: normalize_selector_def producible_selector_def risc0_sample_policy)
  then have path: "submission_path_for_risc0_selector (normalize_selector sample_risc0 (req_selector (requirements (db_request proving_row)))) = Batched"
    by (simp add: sel submission_path_for_risc0_selector_def selector_consts)
  show ?thesis
    using healthy_order_reaches_batcher [OF sample_env_healthy sample_served row ord(1) start ord(2), of None 1 0 True 1000 1001 1002 "[]"] path
    by (auto simp: sample_proving_rows)
qed

end
