(* ===== verification/Fulfillment.thy ===== *)
theory Fulfillment
  imports Backend "HOL-Library.Sublist"
begin

text \<open>
  The batch half of the interface of a backend, \<open>boundless-backend/src/types.rs\<close>: what the batcher
  hands it to aggregate orders and what the submitter hands it to build fulfillments, and the
  dispatch of these calls by \<open>boundless-backend/src/router.rs\<close>. The state a backend keeps for a
  batch travels encoded, as the broker stores it; durations reported for telemetry are left out.
\<close>

section \<open>Batches\<close>

record OrderProvingData =
  pd_order_id :: string
  pd_request :: ProofRequest
  pd_client_sig :: bytes
  pd_image_id :: "string option"
  pd_backend_state :: "bytes option"

record BatchSizeEstimateRequest =
  se_state :: "bytes option"
  se_existing_orders :: "OrderProvingData list"
  se_pending_orders :: "OrderProvingData list"

record BatchOrder =
  bo_proving :: OrderProvingData
  bo_expiration :: u64
  bo_fee :: u256
  bo_fulfillment_type :: FulfillmentType
  bo_request_id :: u256
  bo_lock_expiration :: u64

record UpdateBatch =
  ub_batch_id :: nat
  ub_existing_orders :: "OrderProvingData list"
  ub_state :: "bytes option"
  ub_new_orders :: "BatchOrder list"
  ub_finalize :: bool

record BatchUpdate =
  bu_state :: bytes
  bu_finalize :: bool

record CloseBatch =
  cb_batch_id :: nat
  cb_order_ids :: "string list"
  cb_state :: "bytes option"

record BatchProcessor =
  bp_estimate_batch_size :: "BatchSizeEstimateRequest \<Rightarrow> BackendFailure + nat"
  bp_update_batch :: "UpdateBatch \<Rightarrow> BackendFailure + BatchUpdate"
  bp_close_batch :: "CloseBatch \<Rightarrow> BackendFailure + bytes"

section \<open>Fulfillments\<close>

record FulfillmentOrder =
  fo_order_id :: string
  fo_request :: ProofRequest
  fo_program_id :: bytes
  fo_backend_state :: "bytes option"

record FulfillmentBatch =
  fb_backend_id :: string
  fb_state :: "bytes option"
  fb_eip712_domain :: EIP712DomainSaltless
  fb_orders :: "FulfillmentOrder list"

datatype VerifierUpdate = SubmitMerkleRoot address digest bytes

datatype VerifierUpdateError = UpdateTxnConfirmation | UpdateOther

record MarketFulfillment =
  mf_claim_digest :: digest
  mf_fulfillment_data_type :: FulfillmentDataType
  mf_fulfillment_data :: bytes
  mf_seal :: bytes

record OrderFulfillmentArtifact =
  oa_order_id :: string
  oa_request :: ProofRequest
  oa_fulfillment :: MarketFulfillment

text \<open>The errors of the orders that failed are only logged; the callbacks and selectors of the
  assessor artifact are not used by the broker.\<close>

record SubmissionPlan =
  sp_verifier_updates :: "VerifierUpdate list"
  sp_failed_orders :: "string list"
  sp_orders :: "OrderFulfillmentArtifact list"
  sp_assessor_seal :: bytes

section \<open>Dispatch\<close>

text \<open>\<open>batching\<close> is the batch half of the backend registered under an id.\<close>

record BatchBackend =
  bb_batch_processor :: "BatchProcessor option"
  bb_build_fulfillments :: "FulfillmentBatch \<Rightarrow> BackendFailure + SubmissionPlan"
  bb_verifier_update_applied :: "VerifierUpdate \<Rightarrow> BackendFailure + bool"
  bb_apply_verifier_update :: "VerifierUpdate \<Rightarrow> VerifierUpdateError + unit"

definition batch_processor_for_id ::
    "BackendRouter \<Rightarrow> (string \<Rightarrow> BatchBackend) \<Rightarrow> string \<Rightarrow> BackendFailure + BatchProcessor" where
  "batch_processor_for_id r batching bid =
     res_bind (backend_for_id r bid) (\<lambda>_. ok_or Operation (bb_batch_processor (batching bid)))"

definition router_estimate_batch_size ::
    "BackendRouter \<Rightarrow> (string \<Rightarrow> BatchBackend) \<Rightarrow> string \<Rightarrow> BatchSizeEstimateRequest \<Rightarrow> BackendFailure + nat" where
  "router_estimate_batch_size r batching bid cmd =
     res_bind (batch_processor_for_id r batching bid) (\<lambda>p. bp_estimate_batch_size p cmd)"

definition router_update_batch ::
    "BackendRouter \<Rightarrow> (string \<Rightarrow> BatchBackend) \<Rightarrow> string \<Rightarrow> UpdateBatch \<Rightarrow> BackendFailure + BatchUpdate" where
  "router_update_batch r batching bid cmd =
     res_bind (batch_processor_for_id r batching bid) (\<lambda>p. bp_update_batch p cmd)"

definition router_close_batch ::
    "BackendRouter \<Rightarrow> (string \<Rightarrow> BatchBackend) \<Rightarrow> string \<Rightarrow> CloseBatch \<Rightarrow> BackendFailure + bytes" where
  "router_close_batch r batching bid cmd =
     res_bind (batch_processor_for_id r batching bid) (\<lambda>p. bp_close_batch p cmd)"

definition router_build_fulfillments ::
    "BackendRouter \<Rightarrow> (string \<Rightarrow> BatchBackend) \<Rightarrow> FulfillmentBatch \<Rightarrow> BackendFailure + SubmissionPlan" where
  "router_build_fulfillments r batching cmd =
     res_bind (backend_for_id r (fb_backend_id cmd)) (\<lambda>_. bb_build_fulfillments (batching (fb_backend_id cmd)) cmd)"

definition router_verifier_update_applied ::
    "BackendRouter \<Rightarrow> (string \<Rightarrow> BatchBackend) \<Rightarrow> string \<Rightarrow> VerifierUpdate \<Rightarrow> BackendFailure + bool" where
  "router_verifier_update_applied r batching bid u =
     res_bind (backend_for_id r bid) (\<lambda>_. bb_verifier_update_applied (batching bid) u)"

definition router_apply_verifier_update ::
    "BackendRouter \<Rightarrow> (string \<Rightarrow> BatchBackend) \<Rightarrow> string \<Rightarrow> VerifierUpdate \<Rightarrow> VerifierUpdateError + unit" where
  "router_apply_verifier_update r batching bid u =
     (case backend_for_id r bid of Inl _ \<Rightarrow> Inl UpdateOther | Inr _ \<Rightarrow> bb_apply_verifier_update (batching bid) u)"

section \<open>What the submitter relies on\<close>

text \<open>Every order handed over is in the plan, as failed or with a fulfillment of its own request, and
  the fulfillments keep the order of the batch.\<close>

lemma subseq_subset: "subseq xs ys \<Longrightarrow> set xs \<subseteq> set ys"
  by (auto elim: list_emb_set)

lemma subseq_distinct: "subseq xs ys \<Longrightarrow> distinct ys \<Longrightarrow> distinct xs"
  by (induction rule: list_emb.induct) (auto dest: list_emb_set)

locale fulfillment_builder =
  fixes build :: "FulfillmentBatch \<Rightarrow> BackendFailure + SubmissionPlan"
  assumes artifacts: "build cmd = Inr plan \<Longrightarrow>
      subseq (map (\<lambda>a. (oa_order_id a, oa_request a)) (sp_orders plan))
             (map (\<lambda>fo. (fo_order_id fo, fo_request fo)) (fb_orders cmd))"
    and complete: "build cmd = Inr plan \<Longrightarrow>
      set (sp_failed_orders plan) \<union> set (map oa_order_id (sp_orders plan)) = set (map fo_order_id (fb_orders cmd))"
begin

lemma request_ids_distinct:
  assumes "build cmd = Inr plan" "distinct (map (\<lambda>fo. request_id (fo_request fo)) (fb_orders cmd))"
  shows "distinct (map (\<lambda>a. request_id (oa_request a)) (sp_orders plan))"
proof -
  have "subseq (map (\<lambda>a. request_id (oa_request a)) (sp_orders plan)) (map (\<lambda>fo. request_id (fo_request fo)) (fb_orders cmd))"
    using subseq_map [OF artifacts [OF assms(1)], of "\<lambda>x. request_id (snd x)"] by (simp add: comp_def)
  then show ?thesis using assms(2) by (rule subseq_distinct)
qed

end

text \<open>Dispatch by the router keeps the contract.\<close>

lemma router_fulfillment_builder:
  assumes "\<And>bid. fulfillment_builder (bb_build_fulfillments (batching bid))"
  shows "fulfillment_builder (router_build_fulfillments r batching)"
proof
  fix cmd plan assume b: "router_build_fulfillments r batching cmd = Inr plan"
  then have "bb_build_fulfillments (batching (fb_backend_id cmd)) cmd = Inr plan"
    by (simp add: router_build_fulfillments_def res_simps)
  then show "subseq (map (\<lambda>a. (oa_order_id a, oa_request a)) (sp_orders plan))
             (map (\<lambda>fo. (fo_order_id fo, fo_request fo)) (fb_orders cmd))"
    and "set (sp_failed_orders plan) \<union> set (map oa_order_id (sp_orders plan)) = set (map fo_order_id (fb_orders cmd))"
    using fulfillment_builder.artifacts [OF assms] fulfillment_builder.complete [OF assms] by blast+
qed

end
