(* ===== verification/Submitter.thy ===== *)
theory Submitter
  imports Pipeline Fulfillment
begin

text \<open>
  The submitter, \<open>submitter/service.rs\<close>: it takes a batch that is ready, lets the backend build the
  fulfillments, submits them to the market contract and settles every order of the batch.

  The backend, the market contract and the configuration are the fields of \<open>submit_env\<close>; each
  attempt has its own, since their answers change over time. The log and the rewards formatted for
  it are left out, and the failure text of a batch is the code of its error.
\<close>

section \<open>Types\<close>

datatype FulfillError = TxnConfirmation | PaymentRequirementsFailed
  | PaymentRequirementsFailedUnknownError | OtherMarketError

datatype SubmitterErr =
    BatchSubmissionFailed "SubmitterErr list" | BatchSubmissionFailedTimeouts "SubmitterErr list"
  | TxnConfirmationError FulfillError | AllRequestsExpiredBeforeSubmission "string list"
  | SomeRequestsExpiredBeforeSubmission "string list" | SubMarketError FulfillError | SubmitUnexpectedErr

fun submitter_err_code :: "SubmitterErr \<Rightarrow> string" where
  "submitter_err_code SubmitUnexpectedErr = ''[B-SUB-500]''"
| "submitter_err_code (AllRequestsExpiredBeforeSubmission _) = ''[B-SUB-001]''"
| "submitter_err_code (SomeRequestsExpiredBeforeSubmission _) = ''[B-SUB-005]''"
| "submitter_err_code (SubMarketError _) = ''[B-SUB-002]''"
| "submitter_err_code (BatchSubmissionFailed _) = ''[B-SUB-004]''"
| "submitter_err_code (BatchSubmissionFailedTimeouts _) = ''[B-SUB-003]''"
| "submitter_err_code (TxnConfirmationError _) = ''[B-SUB-006]''"

record FulfillmentTx =
  tx_requests :: "ProofRequest list"
  tx_fulfillments :: "MarketFulfillment list"
  tx_assessor_seal :: bytes
  tx_prover :: address
  tx_withdraw :: bool
  tx_unlocked_requests :: "(ProofRequest \<times> bytes) list"
  tx_submit_roots :: "VerifierUpdate list"

record submit_env =
  sv_now :: u64
  sv_hex_decode :: "string \<Rightarrow> bytes option"
  sv_eip712_domain :: "FulfillError + EIP712DomainSaltless"
  sv_build_fulfillments :: "FulfillmentBatch \<Rightarrow> BackendFailure + SubmissionPlan"
  sv_config :: "unit + bool \<times> bool" \<comment> \<open>\<open>single_txn_fulfill\<close>, \<open>withdraw\<close>\<close>
  sv_prover_address :: address
  sv_verifier_update_applied :: "string \<Rightarrow> VerifierUpdate \<Rightarrow> BackendFailure + bool"
  sv_apply_verifier_update :: "string \<Rightarrow> VerifierUpdate \<Rightarrow> VerifierUpdateError + unit"
  sv_fulfill :: "FulfillmentTx \<Rightarrow> FulfillError + unit"
  sv_collateral_token_decimals :: "u256 \<Rightarrow> FulfillError + u8"

section \<open>One attempt\<close>

definition submit_failure :: "SubmitterErr \<Rightarrow> string \<Rightarrow> BrokerFailure" where
  "submit_failure e reason = \<lparr>bf_code = submitter_err_code e, bf_reason = reason\<rparr>"

definition handle_expired_requests_error ::
    "id_lib \<Rightarrow> u64 \<Rightarrow> u64 \<Rightarrow> Order list \<Rightarrow> pipeline \<Rightarrow> (SubmitterErr + unit) \<times> pipeline" where
  "handle_expired_requests_error lib chain now orders p =
     (Inl (AllRequestsExpiredBeforeSubmission (map (db_order_id lib) orders)),
      fold (\<lambda>ord. handle_order_failure now (db_order_id lib ord)
        (submit_failure (AllRequestsExpiredBeforeSubmission []) ''Expired before submission'') chain) orders p)"

definition classify_fulfillment_error :: "FulfillError \<Rightarrow> SubmitterErr" where
  "classify_fulfillment_error e = (if e = TxnConfirmation then TxnConfirmationError e else SubMarketError e)"

definition prepare_order ::
    "submit_env \<Rightarrow> (string \<rightharpoonup> Order) \<Rightarrow> string \<Rightarrow> pipeline
      \<Rightarrow> (unit + FulfillmentOrder \<times> (ProofRequest \<times> bytes) option) \<times> pipeline" where
  "prepare_order env orders_by_id i p =
     (case in_db (get_submission_order i) p of
        (Inl _, p) \<Rightarrow> (Inl (), p)
      | (Inr (req, sig, img, lock_price, ft), p) \<Rightarrow>
          (case sv_hex_decode env img of
             None \<Rightarrow> (Inl (), p)
           | Some program_id \<Rightarrow>
               (if length program_id \<noteq> 32 then (Inl (), p)
                else (Inr (\<lparr>fo_order_id = i, fo_request = req, fo_program_id = program_id,
                            fo_backend_state = Option.bind (orders_by_id i) db_backend_state\<rparr>,
                           if ft = FulfillAfterLockExpire then Some (req, sig) else None), p))))"

fun prepare_orders ::
    "submit_env \<Rightarrow> u64 \<Rightarrow> (string \<rightharpoonup> Order) \<Rightarrow> string list \<Rightarrow> pipeline
      \<Rightarrow> (FulfillmentOrder list \<times> (ProofRequest \<times> bytes) list \<times> string list) \<times> pipeline" where
  "prepare_orders env chain orders_by_id [] p = (([], [], []), p)"
| "prepare_orders env chain orders_by_id (i # is) p =
     (if map_option db_status (orders_by_id i) = Some Done then
        (let ((fos, unlocked, skipped), p') = prepare_orders env chain orders_by_id is p
         in ((fos, unlocked, i # skipped), p'))
      else if map_option db_status (orders_by_id i) = Some Failed then prepare_orders env chain orders_by_id is p
      else
        (case prepare_order env orders_by_id i p of
           (Inl _, p1) \<Rightarrow>
             prepare_orders env chain orders_by_id is
               (handle_order_failure (sv_now env) i (submit_failure SubmitUnexpectedErr ''Failed to submit'') chain p1)
         | (Inr (fo, un), p1) \<Rightarrow>
             (let ((fos, unlocked, skipped), p') = prepare_orders env chain orders_by_id is p1
              in ((fo # fos, (case un of Some u \<Rightarrow> u # unlocked | None \<Rightarrow> unlocked), skipped), p'))))"

fun apply_verifier_updates :: "submit_env \<Rightarrow> string \<Rightarrow> bool \<Rightarrow> VerifierUpdate list \<Rightarrow> SubmitterErr + unit" where
  "apply_verifier_updates env bid single_txn [] = Inr ()"
| "apply_verifier_updates env bid single_txn (u # us) =
     (if single_txn \<or> sv_verifier_update_applied env bid u = Inr True
      then apply_verifier_updates env bid single_txn us
      else case sv_apply_verifier_update env bid u of
             Inl UpdateTxnConfirmation \<Rightarrow> Inl (classify_fulfillment_error TxnConfirmation)
           | Inl UpdateOther \<Rightarrow> Inl (classify_fulfillment_error OtherMarketError)
           | Inr _ \<Rightarrow> apply_verifier_updates env bid single_txn us)"

definition send_fulfillments ::
    "submit_env \<Rightarrow> string \<Rightarrow> (ProofRequest \<times> bytes) list \<Rightarrow> SubmissionPlan \<Rightarrow> SubmitterErr + unit" where
  "send_fulfillments env bid unlocked plan =
     (if sp_orders plan = [] then Inl SubmitUnexpectedErr
      else case sv_config env of
        Inl _ \<Rightarrow> Inl SubmitUnexpectedErr
      | Inr (single_txn, withdraw) \<Rightarrow>
          res_bind (apply_verifier_updates env bid single_txn (sp_verifier_updates plan)) (\<lambda>_.
            case sv_fulfill env
              \<lparr>tx_requests = map oa_request (sp_orders plan), tx_fulfillments = map oa_fulfillment (sp_orders plan),
               tx_assessor_seal = sp_assessor_seal plan, tx_prover = sv_prover_address env, tx_withdraw = withdraw,
               tx_unlocked_requests = unlocked,
               tx_submit_roots = (if single_txn then sp_verifier_updates plan else [])\<rparr> of
              Inl e \<Rightarrow> Inl (classify_fulfillment_error e)
            | Inr _ \<Rightarrow> Inr ()))"

fun complete_orders ::
    "submit_env \<Rightarrow> u64 \<Rightarrow> (u256 \<rightharpoonup> string) \<Rightarrow> u256 list \<Rightarrow> pipeline \<Rightarrow> (SubmitterErr + unit) \<times> pipeline" where
  "complete_orders env chain order_of [] p = (Inr (), p)"
| "complete_orders env chain order_of (rid # rids) p =
     (let i = the (order_of rid) in
      case in_db (set_order_complete (sv_now env) i) p of
        (Inl _, p) \<Rightarrow> complete_orders env chain order_of rids p
      | (Inr _, p) \<Rightarrow>
          (let p = try_send \<lparr>cc_order_id = i, cc_chain_id = chain, cc_outcome = ProvingCompleted\<rparr> p in
           case sv_collateral_token_decimals env rid of
             Inl e \<Rightarrow> (Inl (SubMarketError e), p)
           | Inr _ \<Rightarrow> complete_orders env chain order_of rids p))"

text \<open>The rest of an attempt, once the orders to fulfill are known.\<close>

definition submit_prepared ::
    "submit_env \<Rightarrow> u64 \<Rightarrow> Batch \<Rightarrow> FulfillmentOrder list \<Rightarrow> (ProofRequest \<times> bytes) list \<Rightarrow> pipeline
      \<Rightarrow> (SubmitterErr + unit) \<times> pipeline" where
  "submit_prepared env chain b fos unlocked p =
     (case sv_eip712_domain env of
        Inl e \<Rightarrow> (Inl (SubMarketError e), p)
      | Inr domain \<Rightarrow>
     (case sv_build_fulfillments env
             \<lparr>fb_backend_id = bt_backend_id b, fb_state = bt_backend_state b, fb_eip712_domain = domain, fb_orders = fos\<rparr> of
        Inl _ \<Rightarrow> (Inl SubmitUnexpectedErr, p)
      | Inr plan \<Rightarrow>
     (let p = fold (\<lambda>i. handle_order_failure (sv_now env) i
                      (submit_failure SubmitUnexpectedErr ''Failed to submit'') chain) (sp_failed_orders plan) p;
          request_ids = map (\<lambda>a. request_id (oa_request a)) (sp_orders plan);
          order_of = map_of (rev (zip request_ids (map oa_order_id (sp_orders plan))))
      in case send_fulfillments env (bt_backend_id b) unlocked plan of
           Inl e \<Rightarrow> (Inl e, p)
         | Inr _ \<Rightarrow> complete_orders env chain order_of request_ids p)))"

definition submit_batch ::
    "id_lib \<Rightarrow> submit_env \<Rightarrow> u64 \<Rightarrow> Batch \<Rightarrow> pipeline \<Rightarrow> (SubmitterErr + unit) \<times> pipeline" where
  "submit_batch lib env chain b p =
     (case in_db (get_orders (bt_orders b)) p of
        (Inl _, p) \<Rightarrow> (Inl SubmitUnexpectedErr, p)
      | (Inr orders, p) \<Rightarrow>
          (if length (filter (\<lambda>ord. expires_at (db_request ord) < sv_now env) orders) = length orders
           then handle_expired_requests_error lib chain (sv_now env) orders p
           else
             (let orders_by_id = map_of (rev (map (\<lambda>ord. (db_order_id lib ord, ord)) orders));
                  ((fos, unlocked, skipped), p) = prepare_orders env chain orders_by_id (bt_orders b) p
              in if fos = [] then
                   (if length skipped = length (bt_orders b) then (Inr (), p) else (Inl SubmitUnexpectedErr, p))
                 else submit_prepared env chain b fos unlocked p)))"

section \<open>A batch\<close>

definition retry_submission :: "SubmitterErr \<Rightarrow> bool" where
  "retry_submission e \<longleftrightarrow>
     e \<noteq> SubMarketError PaymentRequirementsFailed \<and> e \<noteq> SubMarketError PaymentRequirementsFailedUnknownError"

text \<open>Each attempt uses the answers of the environment at its turn.\<close>

definition submit_attempt ::
    "id_lib \<Rightarrow> (nat \<Rightarrow> submit_env) \<Rightarrow> u64 \<Rightarrow> Batch \<Rightarrow> pipeline \<Rightarrow> (SubmitterErr + unit) \<times> pipeline" where
  "submit_attempt lib envs chain b p =
     submit_batch lib (envs (pl_calls p)) chain b (p\<lparr>pl_calls := Suc (pl_calls p)\<rparr>)"

definition fail_unless_settled :: "u64 \<Rightarrow> u64 \<Rightarrow> SubmitterErr \<Rightarrow> string \<Rightarrow> pipeline \<Rightarrow> pipeline" where
  "fail_unless_settled chain now err i p =
     (case in_db (get_order i) p of
        (Inr (Some ord), p') \<Rightarrow>
          (if db_status ord \<in> {Done, Failed} then p'
           else handle_order_failure now i (submit_failure err ''Failed to submit batch'') chain p')
      | (_, p') \<Rightarrow> handle_order_failure now i (submit_failure err ''Failed to submit batch'') chain p')"

definition process_next_batch ::
    "id_lib \<Rightarrow> (nat \<Rightarrow> submit_env) \<Rightarrow> u64 \<Rightarrow> u64 \<Rightarrow> unit + u32 \<Rightarrow> pipeline \<Rightarrow> (SubmitterErr + unit) \<times> pipeline" where
  "process_next_batch lib envs chain now config p =
     (case in_db get_complete_batch p of
        (Inl _, p) \<Rightarrow> (Inl SubmitUnexpectedErr, p)
      | (Inr None, p) \<Rightarrow> (Inr (), p)
      | (Inr (Some (n, b)), p) \<Rightarrow>
          (case config of
             Inl _ \<Rightarrow> (Inl SubmitUnexpectedErr, p)
           | Inr max_attempts \<Rightarrow>
          (case retry_only_with_context (ucast (saturating_sub max_attempts 1)) retry_submission
                  (submit_attempt lib envs chain b) p of
             (Inr _, p) \<Rightarrow>
               (case in_db (set_batch_submitted n) p of
                  (Inl _, p) \<Rightarrow> (Inl SubmitUnexpectedErr, p) | (Inr _, p) \<Rightarrow> (Inr (), p))
           | (Inl err, p) \<Rightarrow>
               (let p = fold (fail_unless_settled chain now err) (bt_orders b) p in
                case in_db (set_batch_failure n (submitter_err_code err)) p of
                  (Inl _, p) \<Rightarrow> (Inl SubmitUnexpectedErr, p)
                | (Inr _, p) \<Rightarrow>
                    (Inl (case err of TxnConfirmationError _ \<Rightarrow> BatchSubmissionFailedTimeouts [err]
                          | _ \<Rightarrow> BatchSubmissionFailed [err]), p)))))"

section \<open>Closing orders\<close>

definition status_of :: "string \<Rightarrow> pipeline \<Rightarrow> OrderStatus option" where
  "status_of i p = map_option db_status (map_of (db_orders (pl_db p)) i)"

definition closed :: "string \<Rightarrow> pipeline \<Rightarrow> bool" where
  "closed i p \<longleftrightarrow> status_of i p = Some Done \<or> status_of i p = Some Failed"

definition announced :: "string \<Rightarrow> pipeline \<Rightarrow> pipeline \<Rightarrow> bool" where
  "announced i p p' \<longleftrightarrow> (\<exists>c\<in>set (drop (length (pl_sent p)) (pl_sent p')). cc_order_id c = i)"

text \<open>Between two states nothing happened but that orders of \<open>S\<close> were marked as done or failed, each
  with a message on the channel unless it is full.\<close>

definition closes :: "id_lib \<Rightarrow> string set \<Rightarrow> pipeline \<Rightarrow> pipeline \<Rightarrow> bool" where
  "closes lib S p p' \<longleftrightarrow> db_faults (pl_db p') = [] \<and> db_grows lib (pl_db p) (pl_db p')
     \<and> db_batches (pl_db p') = db_batches (pl_db p) \<and> prefix (pl_sent p) (pl_sent p') \<and> pl_room p' \<le> pl_room p
     \<and> (\<forall>i. status_of i p' = status_of i p
            \<or> i \<in> S \<and> closed i p' \<and> (pl_room p' > 0 \<longrightarrow> announced i p p'))"

lemma closes_refl: "db_faults (pl_db p) = [] \<Longrightarrow> closes lib S p p"
  by (simp add: closes_def)

lemma closes_faults: "closes lib S p p' \<Longrightarrow> db_faults (pl_db p') = []"
  by (simp add: closes_def)

lemma announced_extends:
  assumes "prefix (pl_sent p) (pl_sent q)" "prefix (pl_sent q) (pl_sent r)"
  shows "announced i p q \<Longrightarrow> announced i p r" "announced i q r \<Longrightarrow> announced i p r"
  using assms by (auto simp: announced_def prefix_def)

lemma closes_trans:
  assumes "closes lib S p q" "closes lib S q r"
  shows "closes lib S p r"
proof -
  note pq = assms(1) [unfolded closes_def] and qr = assms(2) [unfolded closes_def]
  have "status_of i r = status_of i p \<or> i \<in> S \<and> closed i r \<and> (pl_room r > 0 \<longrightarrow> announced i p r)" for i
  proof (cases "status_of i r = status_of i q")
    case True
    then have "closed i r = closed i q" by (simp add: closed_def)
    moreover have "pl_room r > 0 \<Longrightarrow> pl_room q > 0" using qr by linarith
    ultimately show ?thesis using True pq qr announced_extends(1) [of p q r i] by metis
  next
    case False
    then show ?thesis using pq qr announced_extends(2) [of p q r i] by metis
  qed
  moreover have "prefix (pl_sent p) (pl_sent r)" "pl_room r \<le> pl_room p"
    using pq qr prefix_order.trans le_trans by blast+
  moreover have "db_grows lib (pl_db p) (pl_db r)" using pq qr db_grows_trans by blast
  ultimately show ?thesis using pq qr by (simp add: closes_def)
qed

lemma closes_closed: "closes lib S p p' \<Longrightarrow> closed i p \<Longrightarrow> closed i p'"
  unfolding closes_def closed_def by metis

lemma closes_exists: "closes lib S p p' \<Longrightarrow> status_of i p \<noteq> None \<Longrightarrow> status_of i p' \<noteq> None"
  unfolding closes_def closed_def by (metis option.distinct(1))

lemma closes_calls: "closes lib S p q \<Longrightarrow> closes lib S p (q\<lparr>pl_calls := n\<rparr>)"
  by (simp add: closes_def closed_def status_of_def announced_def)

lemma closes_send:
  assumes "db_faults (pl_db p) = []" "i \<in> S" "cc_order_id c = i"
    and "db_faults db = []" "db_grows lib (pl_db p) db" "db_batches db = db_batches (pl_db p)"
    and "\<And>j. j \<noteq> i \<Longrightarrow> map_of (db_orders db) j = map_of (db_orders (pl_db p)) j"
    and "map_of (db_orders db) i = map_of (db_orders (pl_db p)) i
         \<or> map_option db_status (map_of (db_orders db) i) \<in> {Some Done, Some Failed}"
  shows "closes lib S p (try_send c (p\<lparr>pl_db := db\<rparr>))"
proof -
  let ?q = "try_send c (p\<lparr>pl_db := db\<rparr>)"
  have "status_of j ?q = status_of j p" if "j \<noteq> i" for j using assms(7) [OF that] by (simp add: status_of_def)
  moreover have "status_of i ?q = status_of i p \<or> closed i ?q" using assms(8) by (auto simp: closed_def status_of_def)
  moreover have "announced i p ?q" if "pl_room ?q > 0"
    using that assms(3) by (auto simp: try_send_def announced_def split: nat.splits)
  moreover have "prefix (pl_sent p) (pl_sent ?q) \<and> pl_room ?q \<le> pl_room p"
    by (simp add: try_send_def split: nat.split)
  ultimately show ?thesis using assms(1-6) unfolding closes_def by (metis try_send_simps(1) pipeline.select_convs(1) pipeline.surjective pipeline.update_convs(1))
qed

lemma closes_fail:
  assumes "db_faults (pl_db p) = []" "i \<in> S"
  shows "closes lib S p (handle_order_failure now i failure chain p)"
    "status_of i p \<noteq> None \<Longrightarrow> closed i (handle_order_failure now i failure chain p)"
proof -
  let ?db = "snd (set_order_failure now i (failure_text failure) (pl_db p))"
  have "map_of (db_orders ?db) i = map_of (db_orders (pl_db p)) i
         \<or> map_option db_status (map_of (db_orders ?db) i) \<in> {Some Done, Some Failed}"
    by (cases rule: fail_op.result [of now i "failure_text failure" "pl_db p"]) simp_all
  then show "closes lib S p (handle_order_failure now i failure chain p)"
    unfolding handle_order_failure_def in_db_simps
    using assms fail_op.no_faults fail_op.grows fail_op.batches fail_op.others by (intro closes_send) simp_all
  assume "status_of i p \<noteq> None"
  then obtain ord where "map_of (db_orders (pl_db p)) i = Some ord" by (auto simp: status_of_def)
  then show "closed i (handle_order_failure now i failure chain p)"
    using fail_op.runs(2) [OF assms(1)] by (simp add: closed_def status_of_def)
qed

lemma closes_complete:
  assumes "db_faults (pl_db p) = []" "i \<in> S" "cc_order_id c = i"
  shows "closes lib S p (try_send c (p\<lparr>pl_db := snd (set_order_complete now i (pl_db p))\<rparr>))"
    "status_of i p \<noteq> None \<Longrightarrow> closed i (try_send c (p\<lparr>pl_db := snd (set_order_complete now i (pl_db p))\<rparr>))"
    "status_of i p \<noteq> None \<Longrightarrow> fst (set_order_complete now i (pl_db p)) = Inr ()"
proof -
  let ?db = "snd (set_order_complete now i (pl_db p))"
  have "map_of (db_orders ?db) i = map_of (db_orders (pl_db p)) i
         \<or> map_option db_status (map_of (db_orders ?db) i) \<in> {Some Done, Some Failed}"
    by (cases rule: complete_op.result [of now i "pl_db p"]) simp_all
  then show "closes lib S p (try_send c (p\<lparr>pl_db := ?db\<rparr>))"
    using assms complete_op.no_faults complete_op.grows complete_op.batches complete_op.others by (intro closes_send) simp_all
  assume "status_of i p \<noteq> None"
  then obtain ord where "map_of (db_orders (pl_db p)) i = Some ord" by (auto simp: status_of_def)
  then show "closed i (try_send c (p\<lparr>pl_db := ?db\<rparr>))" "fst (set_order_complete now i (pl_db p)) = Inr ()"
    using complete_op.runs [OF assms(1)] by (simp_all add: closed_def status_of_def)
qed

text \<open>A sequence of steps, each of which closes its order.\<close>

lemma closes_fold:
  assumes "\<And>x p. x \<in> set xs \<Longrightarrow> db_faults (pl_db p) = [] \<Longrightarrow> closes lib S p (f x p)" "db_faults (pl_db p) = []"
  shows "closes lib S p (fold f xs p)"
  using assms
proof (induction xs arbitrary: p)
  case (Cons x xs)
  have "closes lib S p (f x p)" using Cons.prems by simp
  moreover have "closes lib S (f x p) (fold f xs (f x p))"
    using Cons.prems closes_faults [OF calculation] by (intro Cons.IH) simp_all
  ultimately show ?case using closes_trans [of lib S p "f x p"] by simp
qed (simp add: closes_refl)

lemma fold_closed:
  assumes "\<And>x p. x \<in> set xs \<Longrightarrow> db_faults (pl_db p) = [] \<Longrightarrow> closes lib S p (f x p)"
    and "\<And>x p. x \<in> set xs \<Longrightarrow> db_faults (pl_db p) = [] \<Longrightarrow> status_of (g x) p \<noteq> None \<Longrightarrow> closed (g x) (f x p)"
    and "db_faults (pl_db p) = []" "x \<in> set xs" "status_of (g x) p \<noteq> None"
  shows "closed (g x) (fold f xs p)"
  using assms
proof (induction xs arbitrary: p)
  case (Cons y ys)
  have s: "closes lib S p (f y p)" using Cons.prems(1,3) by simp
  have t: "closes lib S (f y p) (fold f ys (f y p))"
    using Cons.prems(1) closes_faults [OF s] by (intro closes_fold) simp_all
  show ?case
  proof (cases "x = y")
    case True
    then show ?thesis using Cons.prems(2,3,5) closes_closed [OF t] by simp
  next
    case False
    then show ?thesis
      using Cons.IH [of "f y p"] Cons.prems closes_faults [OF s] closes_exists [OF s Cons.prems(5)] by simp
  qed
qed simp

section \<open>One attempt closes its orders\<close>

definition request_of :: "string \<Rightarrow> pipeline \<Rightarrow> u256 option" where
  "request_of i p = map_option (\<lambda>ord. request_id (db_request ord)) (map_of (db_orders (pl_db p)) i)"

lemma order_log_map_of: "map_of (order_log db) i = map_option accepted (map_of (db_orders db) i)"
  by (simp add: order_log_def map_of_map)

lemma accepted_request: "db_request (accepted ord) = db_request ord"
  by (simp add: accepted_def)

lemma request_of_status: "request_of i p = None \<longleftrightarrow> status_of i p = None"
  by (simp add: request_of_def status_of_def)

lemma closes_request:
  assumes "closes lib S p q" "status_of i p \<noteq> None"
  shows "request_of i q = request_of i p"
proof -
  obtain ord where ord: "map_of (db_orders (pl_db p)) i = Some ord" using assms(2) by (auto simp: status_of_def)
  have "prefix (order_log (pl_db p)) (order_log (pl_db q))" using assms(1) by (simp add: closes_def db_grows_def)
  then have "map_of (order_log (pl_db q)) i = map_of (order_log (pl_db p)) i"
    using ord by (auto simp: prefix_def map_add_def order_log_map_of [symmetric] split: option.split)
      (simp add: order_log_map_of)
  then obtain ord' where "map_of (db_orders (pl_db q)) i = Some ord'" "accepted ord' = accepted ord"
    using ord by (auto simp: order_log_map_of)
  moreover from this(2) have "db_request ord' = db_request ord"
    by (metis accepted_request)
  ultimately show ?thesis using ord by (simp add: request_of_def)
qed

lemma get_order_quiet: "db_faults (pl_db p) = [] \<Longrightarrow> in_db (get_order i) p = (Inr (map_of (db_orders (pl_db p)) i), p)"
  by (simp add: in_db_def get_order_def statement_no_fault)

lemma get_submission_order_quiet:
  assumes "db_faults db = []"
  shows "snd (get_submission_order i db) = db"
    "fst (get_submission_order i db) = Inr (req, rest) \<Longrightarrow> \<exists>ord. map_of (db_orders db) i = Some ord \<and> req = db_request ord"
  using assms
  by (auto simp: get_submission_order_def get_order_def statement_no_fault res_simps split: option.splits if_splits)

lemma prepare_order_quiet:
  assumes "db_faults (pl_db p) = []"
  shows "snd (prepare_order env by_id i p) = p"
    "fst (prepare_order env by_id i p) = Inr (fo, un) \<Longrightarrow> fo_order_id fo = i \<and> request_of i p = Some (request_id (fo_request fo))"
  using get_submission_order_quiet [OF assms, of i]
  by (auto simp: prepare_order_def in_db_def request_of_def split: option.splits if_splits prod.splits sum.splits)

lemma prepare_orders_closes:
  assumes "db_faults (pl_db p) = []" "prepare_orders env chain by_id is p = ((fos, unlocked, skipped), p')"
    and "set is \<subseteq> S" "\<forall>i\<in>set is. status_of i p \<noteq> None"
  shows "closes lib S p p' \<and> subseq (map fo_order_id fos) is
    \<and> (\<forall>fo\<in>set fos. request_of (fo_order_id fo) p = Some (request_id (fo_request fo)))
    \<and> (\<forall>i\<in>set is. map_option db_status (by_id i) \<in> {Some Done, Some Failed}
          \<or> i \<in> set (map fo_order_id fos) \<or> closed i p')"
  using assms
proof (induction "is" arbitrary: p fos unlocked skipped p')
  case Nil
  then show ?case by (simp add: closes_refl)
next
  case (Cons i "is")
  have ex: "\<forall>j\<in>set is. status_of j p \<noteq> None" "i \<in> S" "set is \<subseteq> S" using Cons.prems(3,4) by simp_all
  consider (settled) "map_option db_status (by_id i) \<in> {Some Done, Some Failed}"
    | (failed) u where "map_option db_status (by_id i) \<notin> {Some Done, Some Failed}" "prepare_order env by_id i p = (Inl u, p)"
    | (ready) fo un where "map_option db_status (by_id i) \<notin> {Some Done, Some Failed}"
        "prepare_order env by_id i p = (Inr (fo, un), p)"
    using prepare_order_quiet(1) [OF Cons.prems(1), of env by_id i]
    by (metis prod.exhaust_sel sum.exhaust)
  then show ?case
  proof cases
    case settled
    then obtain sk where "prepare_orders env chain by_id is p = ((fos, unlocked, sk), p')"
      using Cons.prems(2) by (auto split: prod.splits if_splits)
    from Cons.IH [OF Cons.prems(1) this ex(3,1)] settled show ?thesis by auto
  next
    case failed
    let ?q = "handle_order_failure (sv_now env) i (submit_failure SubmitUnexpectedErr ''Failed to submit'') chain p"
    have "status_of i p \<noteq> None" using Cons.prems(4) by simp
    then have q: "closes lib S p ?q" "closed i ?q" using closes_fail [OF Cons.prems(1) ex(2)] by blast+
    have r: "prepare_orders env chain by_id is ?q = ((fos, unlocked, skipped), p')"
      using Cons.prems(2) failed by (simp del: map_option_eq_Some)
    have "\<forall>j\<in>set is. status_of j ?q \<noteq> None" using closes_exists [OF q(1)] ex(1) by blast
    note IH = Cons.IH [OF closes_faults [OF q(1)] r ex(3) this]
    have "request_of (fo_order_id fo) p = Some (request_id (fo_request fo))" if "fo \<in> set fos" for fo
    proof -
      have "fo_order_id fo \<in> set is" using IH that subseq_subset [of "map fo_order_id fos" "is"] by auto
      then show ?thesis using IH that ex(1) closes_request [OF q(1)] by metis
    qed
    moreover have "closes lib S p p'" using closes_trans [OF q(1)] IH by blast
    moreover have "closed i p'" using closes_closed [OF _ q(2)] IH by blast
    ultimately show ?thesis using IH by auto
  next
    case ready
    then obtain fos' un' where r: "prepare_orders env chain by_id is p = ((fos', un', skipped), p')" "fos = fo # fos'"
      using Cons.prems(2) by (auto simp del: map_option_eq_Some split: prod.splits)
    have "fo_order_id fo = i" "request_of i p = Some (request_id (fo_request fo))"
      using prepare_order_quiet(2) [OF Cons.prems(1), of env by_id i fo un] ready(2) by simp_all
    with Cons.IH [OF Cons.prems(1) r(1) ex(3,1)] r(2) show ?thesis by auto
  qed
qed

lemma complete_orders_closes:
  assumes "db_faults (pl_db p) = []" "\<forall>rid\<in>set rids. the (order_of rid) \<in> S"
    and "complete_orders env chain order_of rids p = (r, p')"
  shows "closes lib S p p'
    \<and> (r = Inr () \<longrightarrow> (\<forall>rid\<in>set rids. status_of (the (order_of rid)) p \<noteq> None \<longrightarrow> closed (the (order_of rid)) p'))"
  using assms
proof (induction rids arbitrary: p)
  case Nil
  then show ?case by (simp add: closes_refl)
next
  case (Cons rid rids)
  let ?i = "the (order_of rid)"
  let ?c = "\<lparr>cc_order_id = ?i, cc_chain_id = chain, cc_outcome = ProvingCompleted\<rparr>"
  let ?p = "p\<lparr>pl_db := snd (set_order_complete (sv_now env) ?i (pl_db p))\<rparr>"
  have S: "?i \<in> S" "\<forall>rid\<in>set rids. the (order_of rid) \<in> S" using Cons.prems(2) by simp_all
  have "cc_order_id ?c = ?i" by simp
  note fin = closes_complete [OF Cons.prems(1) S(1) this]
  show ?case
  proof (cases "status_of ?i p = None")
    case True
    then have "set_order_complete (sv_now env) ?i (pl_db p) = (Inl (OrderNotFound ?i), pl_db p)"
      using complete_op.missing [OF Cons.prems(1)] by (simp add: status_of_def)
    then have "complete_orders env chain order_of rids p = (r, p')" using Cons.prems(3) by (simp add: in_db_def)
    then show ?thesis using Cons.IH [OF Cons.prems(1) S(2)] True by simp
  next
    case False
    note q = fin(1) [of lib "sv_now env"] fin(2) [OF False, of "sv_now env"]
    have u: "in_db (set_order_complete (sv_now env) ?i) p = (Inr (), ?p)"
      using fin(3) [OF False, of "sv_now env"] by (simp add: in_db_def split_def)
    show ?thesis
    proof (cases "sv_collateral_token_decimals env rid")
      case (Inl e)
      then have "r = Inl (SubMarketError e)" "p' = try_send ?c ?p" using Cons.prems(3) u by (auto simp: Let_def)
      then show ?thesis using q(1) by simp
    next
      case (Inr d)
      then have "complete_orders env chain order_of rids (try_send ?c ?p) = (r, p')" using Cons.prems(3) u by (simp add: Let_def)
      note IH = Cons.IH [OF closes_faults [OF q(1)] S(2) this]
      then have "closes lib S p p'" "closed ?i p'" using closes_trans [OF q(1)] closes_closed [OF _ q(2)] by blast+
      then show ?thesis using IH closes_exists [OF q(1)] by simp
    qed
  qed
qed

lemma order_of_artifact:
  assumes "distinct (map (\<lambda>a. request_id (oa_request a)) as)" "a \<in> set as"
  shows "map_of (rev (zip (map (\<lambda>a. request_id (oa_request a)) as) (map oa_order_id as))) (request_id (oa_request a))
    = Some (oa_order_id a)"
proof -
  let ?z = "map (\<lambda>a. (request_id (oa_request a), oa_order_id a)) as"
  have z: "zip (map (\<lambda>a. request_id (oa_request a)) as) (map oa_order_id as) = ?z"
    by (simp add: zip_map_map map_nth zip_same_conv_map)
  have d: "distinct (map fst (rev ?z))" unfolding rev_map [symmetric] distinct_rev using assms(1) by (simp add: comp_def)
  have "(request_id (oa_request a), oa_order_id a) \<in> set (rev ?z)" using assms(2) by auto
  from map_of_is_SomeI [OF d this] show ?thesis unfolding z .
qed

lemma submit_prepared_closes:
  assumes "db_faults (pl_db p) = []" "fulfillment_builder (sv_build_fulfillments env)"
    and "set (map fo_order_id fos) \<subseteq> S" "\<forall>i\<in>S. status_of i p \<noteq> None"
    and "distinct (map (\<lambda>fo. request_id (fo_request fo)) fos)"
    and "submit_prepared env chain b fos unlocked p = (r, p')"
  shows "closes lib S p p' \<and> (r = Inr () \<longrightarrow> (\<forall>i\<in>set (map fo_order_id fos). closed i p'))"
proof (cases "\<exists>domain plan. sv_eip712_domain env = Inr domain \<and> sv_build_fulfillments env
             \<lparr>fb_backend_id = bt_backend_id b, fb_state = bt_backend_state b, fb_eip712_domain = domain, fb_orders = fos\<rparr> = Inr plan")
  case False
  then show ?thesis
    using assms(1,6) closes_refl by (auto simp: submit_prepared_def split: sum.splits)
next
  case True
  then obtain domain plan where d: "sv_eip712_domain env = Inr domain" and plan: "sv_build_fulfillments env
             \<lparr>fb_backend_id = bt_backend_id b, fb_state = bt_backend_state b, fb_eip712_domain = domain, fb_orders = fos\<rparr> = Inr plan"
    by blast
  let ?fail = "\<lambda>i. handle_order_failure (sv_now env) i (submit_failure SubmitUnexpectedErr ''Failed to submit'') chain"
  let ?q = "fold ?fail (sp_failed_orders plan) p"
  let ?rids = "map (\<lambda>a. request_id (oa_request a)) (sp_orders plan)"
  let ?order_of = "map_of (rev (zip ?rids (map oa_order_id (sp_orders plan))))"
  have ids: "set (sp_failed_orders plan) \<union> set (map oa_order_id (sp_orders plan)) = set (map fo_order_id fos)"
    using fulfillment_builder.complete [OF assms(2) plan] by simp
  have dr: "distinct ?rids" using fulfillment_builder.request_ids_distinct [OF assms(2) plan] assms(5) by simp
  have of: "the (?order_of (request_id (oa_request a))) = oa_order_id a" if "a \<in> set (sp_orders plan)" for a
    by (simp only: order_of_artifact [OF dr that] option.sel)
  have step: "closes lib S p (?fail i p)" "status_of i p \<noteq> None \<Longrightarrow> closed i (?fail i p)"
    if "i \<in> set (sp_failed_orders plan)" "db_faults (pl_db p) = []" for i p
    using closes_fail [OF that(2), of i S] that(1) ids assms(3) by blast+
  have q: "closes lib S p ?q" by (intro closes_fold step assms(1))
  have qc: "closed i ?q" if "i \<in> set (sp_failed_orders plan)" for i
    using fold_closed [where g = "\<lambda>i. i" and f = ?fail, OF step(1) step(2) assms(1) that] that ids assms(3,4) by blast
  have fin: "closes lib S p p2 \<and> (r2 = Inr () \<longrightarrow> (\<forall>i\<in>set (map fo_order_id fos). closed i p2))"
    if c: "complete_orders env chain ?order_of ?rids ?q = (r2, p2)" for r2 p2
  proof -
    have "\<forall>rid\<in>set ?rids. the (?order_of rid) \<in> S" using of ids assms(3) by auto
    note co = complete_orders_closes [OF closes_faults [OF q] this c, of lib]
    moreover have "closed i p2" if r: "r2 = Inr ()" and i: "i \<in> set (map fo_order_id fos)" for i
    proof (cases "i \<in> set (sp_failed_orders plan)")
      case True
      then show ?thesis using qc closes_closed co by blast
    next
      case False
      then obtain a where "a \<in> set (sp_orders plan)" "i = oa_order_id a" using ids i by auto
      moreover have "status_of i ?q \<noteq> None" using closes_exists [OF q] assms(3,4) i by blast
      ultimately show ?thesis using co r of by fastforce
    qed
    ultimately show ?thesis using closes_trans [OF q] by blast
  qed
  show ?thesis
  proof (cases "send_fulfillments env (bt_backend_id b) unlocked plan")
    case (Inl e)
    then have "(r, p') = (Inl e, ?q)" using assms(6) d plan by (simp add: submit_prepared_def Let_def)
    then show ?thesis using q by simp
  next
    case (Inr u)
    then have "complete_orders env chain ?order_of ?rids ?q = (r, p')"
      using assms(6) d plan by (simp add: submit_prepared_def Let_def)
    then show ?thesis by (rule fin)
  qed
qed

lemma snapshot_row:
  assumes "db_ok lib db"
    and "map_of (rev (map (\<lambda>ord. (db_order_id lib ord, ord)) (map snd (rows_where P (db_orders db))))) i = Some ord"
  shows "map_of (db_orders db) i = Some ord"
proof -
  obtain k where "(k, ord) \<in> set (db_orders db)" "i = db_order_id lib ord"
    using map_of_SomeD [OF assms(2)] by (auto simp: rows_where_def)
  then show ?thesis using assms(1) by (auto simp: db_ok_def)
qed

text \<open>What an attempt needs of the database, and that it keeps it.\<close>

definition batch_ok :: "id_lib \<Rightarrow> Batch \<Rightarrow> pipeline \<Rightarrow> bool" where
  "batch_ok lib b p \<longleftrightarrow> db_faults (pl_db p) = [] \<and> db_ok lib (pl_db p)
     \<and> (\<forall>i\<in>set (bt_orders b). status_of i p \<noteq> None) \<and> distinct (map (\<lambda>i. request_of i p) (bt_orders b))"

lemma batch_ok_closes:
  assumes "batch_ok lib b p" "closes lib S p q"
  shows "batch_ok lib b q"
proof -
  have eq: "map (\<lambda>i. request_of i q) (bt_orders b) = map (\<lambda>i. request_of i p) (bt_orders b)"
    using assms closes_request by (auto simp: batch_ok_def)
  have "db_faults (pl_db q) = []" "db_ok lib (pl_db q)"
    using assms by (simp_all add: batch_ok_def closes_def db_grows_def)
  then show ?thesis
    using assms(1) closes_exists [OF assms(2)] unfolding batch_ok_def eq by blast
qed

lemma submit_batch_closes:
  assumes "batch_ok lib b p" "fulfillment_builder (sv_build_fulfillments env)"
    and "submit_batch lib env chain b p = (r, p')"
  shows "closes lib (set (bt_orders b)) p p' \<and> (r = Inr () \<longrightarrow> (\<forall>i\<in>set (bt_orders b). closed i p'))"
proof -
  let ?rows = "rows_where (\<lambda>k _. k \<in> set (bt_orders b)) (db_orders (pl_db p))"
  let ?orders = "map snd ?rows"
  let ?by_id = "map_of (rev (map (\<lambda>ord. (db_order_id lib ord, ord)) ?orders))"
  have p: "db_faults (pl_db p) = []" "db_ok lib (pl_db p)" "\<forall>i\<in>set (bt_orders b). status_of i p \<noteq> None"
    "distinct (map (\<lambda>i. request_of i p) (bt_orders b))"
    using assms(1) by (auto simp: batch_ok_def)
  have get: "in_db (get_orders (bt_orders b)) p = (Inr ?orders, p)"
    using p(1) by (simp add: in_db_def get_orders_def statement_no_fault rows_where_def)
  show ?thesis
  proof (cases "length (filter (\<lambda>ord. expires_at (db_request ord) < sv_now env) ?orders) = length ?orders")
    case True
    have "db_order_id lib ord \<in> set (bt_orders b)" if "ord \<in> set ?orders" for ord
      using that p(2) by (auto simp: rows_where_def db_ok_def)
    then have "closes lib (set (bt_orders b)) p (snd (handle_expired_requests_error lib chain (sv_now env) ?orders p))"
      unfolding handle_expired_requests_error_def snd_conv
      by (intro closes_fold closes_fail(1) p(1))
    moreover have "handle_expired_requests_error lib chain (sv_now env) ?orders p = (r, p')"
      using assms(3) get True unfolding submit_batch_def by simp
    moreover from this have "r \<noteq> Inr ()" by (auto simp: handle_expired_requests_error_def)
    ultimately show ?thesis by simp
  next
    case False
    obtain w q where w: "prepare_orders env chain ?by_id (bt_orders b) p = (w, q)" by (rule prod.exhaust)
    obtain fos unlocked skipped where "w = (fos, unlocked, skipped)" by (rule prod_cases3)
    with w have prep: "prepare_orders env chain ?by_id (bt_orders b) p = ((fos, unlocked, skipped), q)" by simp
    note pr = prepare_orders_closes [OF p(1) prep subset_refl p(3), of lib]
    have closed_q: "closed i q" if "i \<in> set (bt_orders b)" "i \<notin> set (map fo_order_id fos)" for i
    proof -
      have "closed i p" if "map_option db_status (?by_id i) \<in> {Some Done, Some Failed}"
        using that snapshot_row [OF p(2), of _ i] by (auto simp: closed_def status_of_def)
      then show ?thesis using that pr closes_closed by blast
    qed
    have r: "(r, p') = (if fos = [] then
        (if length skipped = length (bt_orders b) then (Inr (), q) else (Inl SubmitUnexpectedErr, q))
        else submit_prepared env chain b fos unlocked q)"
      using assms(3) get False prep unfolding submit_batch_def by simp
    show ?thesis
    proof (cases "fos = []")
      case True
      then show ?thesis using r pr closed_q by (auto split: if_splits)
    next
      case False
      have eq: "map Some (map (\<lambda>fo. request_id (fo_request fo)) fos) = map (\<lambda>i. request_of i p) (map fo_order_id fos)"
        using pr by simp
      have "distinct (map Some (map (\<lambda>fo. request_id (fo_request fo)) fos))"
        unfolding eq using pr p(4) subseq_distinct subseq_map by blast
      then have "distinct (map (\<lambda>fo. request_id (fo_request fo)) fos)" unfolding distinct_map by blast
      moreover have "\<forall>i\<in>set (bt_orders b). status_of i q \<noteq> None" using pr closes_exists p(3) by blast
      moreover have "submit_prepared env chain b fos unlocked q = (r, p')" using r False by simp
      ultimately have sub: "closes lib (set (bt_orders b)) q p' \<and> (r = Inr () \<longrightarrow> (\<forall>i\<in>set (map fo_order_id fos). closed i p'))"
        using submit_prepared_closes [of q env fos "set (bt_orders b)" chain b unlocked r p' lib] pr assms(2)
          closes_faults subseq_subset by blast
      then show ?thesis using pr closes_trans closed_q closes_closed by blast
    qed
  qed
qed

section \<open>A batch is settled\<close>

lemma submit_attempt_closes:
  assumes "batch_ok lib b p" "\<And>k. fulfillment_builder (sv_build_fulfillments (envs k))"
    and "submit_attempt lib envs chain b p = (r, p')"
  shows "closes lib (set (bt_orders b)) p p' \<and> (r = Inr () \<longrightarrow> (\<forall>i\<in>set (bt_orders b). closed i p'))"
proof -
  let ?p = "p\<lparr>pl_calls := Suc (pl_calls p)\<rparr>"
  have p: "closes lib (set (bt_orders b)) p ?p"
    using assms(1) by (intro closes_calls closes_refl) (simp add: batch_ok_def)
  have "batch_ok lib b ?p" using assms(1) by (simp add: batch_ok_def status_of_def request_of_def)
  from submit_batch_closes [OF this assms(2) assms(3) [unfolded submit_attempt_def]] show ?thesis
    using closes_trans [OF p] by simp
qed

lemma fail_unless_settled_closes:
  assumes "db_faults (pl_db p) = []" "i \<in> S"
  shows "closes lib S p (fail_unless_settled chain now err i p)"
    "status_of i p \<noteq> None \<Longrightarrow> closed i (fail_unless_settled chain now err i p)"
proof -
  have "fail_unless_settled chain now err i p =
      (if closed i p then p else handle_order_failure now i (submit_failure err ''Failed to submit batch'') chain p)"
    using get_order_quiet [OF assms(1), of i] by (auto simp: fail_unless_settled_def closed_def status_of_def split: option.split)
  then show "closes lib S p (fail_unless_settled chain now err i p)"
    "status_of i p \<noteq> None \<Longrightarrow> closed i (fail_unless_settled chain now err i p)"
    using closes_fail [OF assms] closes_refl [OF assms(1)] by simp_all
qed

lemma submission_settles:
  assumes "batch_ok lib b p" "\<And>k. fulfillment_builder (sv_build_fulfillments (envs k))"
    and "retry_only_with_context n retry_submission (submit_attempt lib envs chain b) p = (r, q)"
    and "p' = (case r of Inr _ \<Rightarrow> q | Inl err \<Rightarrow> fold (fail_unless_settled chain now err) (bt_orders b) q)"
  shows "closes lib (set (bt_orders b)) p p' \<and> (\<forall>i\<in>set (bt_orders b). closed i p')"
proof -
  let ?S = "set (bt_orders b)"
  have p: "db_faults (pl_db p) = []" using assms(1) by (simp add: batch_ok_def)
  have step: "closes lib ?S p (snd (submit_attempt lib envs chain b t))" if "closes lib ?S p t" for t
    using submit_attempt_closes [OF batch_ok_closes [OF assms(1) that] assms(2) surjective_pairing] closes_trans [OF that]
    by simp
  from retry_impl_last [OF assms(3) [unfolded retry_only_with_context_def], of "closes lib ?S p", OF step closes_refl [OF p]]
  obtain t where t: "closes lib ?S p t" "submit_attempt lib envs chain b t = (r, q)" by blast
  have q: "closes lib ?S p q" "r = Inr () \<Longrightarrow> \<forall>i\<in>?S. closed i q"
    using submit_attempt_closes [OF batch_ok_closes [OF assms(1) t(1)] assms(2) t(2)] closes_trans [OF t(1)] by simp_all
  show ?thesis
  proof (cases r)
    case (Inr u)
    then show ?thesis using q assms(4) by simp
  next
    case (Inl err)
    let ?f = "fail_unless_settled chain now err"
    have "closes lib ?S q (fold ?f (bt_orders b) q)"
      using closes_faults [OF q(1)] by (intro closes_fold fail_unless_settled_closes(1))
    moreover have "closed i (fold ?f (bt_orders b) q)" if i: "i \<in> ?S" for i
    proof -
      have "status_of i p \<noteq> None" using assms(1) i by (simp add: batch_ok_def)
      from fold_closed [where g = "\<lambda>i. i" and f = ?f and S = ?S and lib = lib, OF _ _ closes_faults [OF q(1)] i closes_exists [OF q(1) this]]
      show ?thesis using fail_unless_settled_closes by simp
    qed
    ultimately show ?thesis using closes_trans [OF q(1)] assms(4) Inl by auto
  qed
qed

lemma get_complete_batch_row:
  assumes "db_faults db = []" "get_complete_batch db = (Inr (Some (n, b)), db')"
  shows "map_of (db_batches db') n \<noteq> None" "db_orders db' = db_orders db" "db_faults db' = []"
    "\<exists>b0. (n, b0) \<in> set (db_batches db) \<and> bt_orders b0 = bt_orders b"
proof -
  obtain m b0 rest where rows: "rows_where (\<lambda>_ b. bt_status b = ReadyToSubmit) (db_batches db) = (m, b0) # rest"
    using assms by (cases "rows_where (\<lambda>_ b. bt_status b = ReadyToSubmit) (db_batches db)")
      (auto simp: get_complete_batch_def statement_no_fault)
  let ?claim = "\<lambda>b. b\<lparr>bt_status := BatchPendingSubmission\<rparr>"
  have "(m, b0) \<in> set (filter (\<lambda>(k, b). bt_status b = ReadyToSubmit) (db_batches db))"
    using rows by (simp add: rows_where_def)
  then have mem: "(m, b0) \<in> set (db_batches db)" by simp
  have "read_batch (?claim b0) = Inr b \<and> m = n"
    and db': "db' = db\<lparr>db_batches := update_where (\<lambda>k _. k = m) ?claim (db_batches db)\<rparr>"
    using assms rows by (auto simp: get_complete_batch_def statement_no_fault Let_def res_simps)
  then have b: "b = ?claim b0" "m = n" by (auto simp: read_batch_def split: option.splits if_splits)
  show "map_of (db_batches db') n \<noteq> None"
    using mem b(2) unfolding db' by (auto simp: map_of_eq_None_iff intro: rev_image_eqI)
  show "db_orders db' = db_orders db" "db_faults db' = []" using db' assms(1) by simp_all
  show "\<exists>b0. (n, b0) \<in> set (db_batches db) \<and> bt_orders b0 = bt_orders b" using mem b by auto
qed

definition batch_marked :: "nat \<Rightarrow> (Batch \<Rightarrow> Batch) \<Rightarrow> broker_db \<Rightarrow> broker_db" where
  "batch_marked n f db = db\<lparr>db_batches := update_where (\<lambda>k _. k = n) f (db_batches db)\<rparr>"

lemma mark_batch:
  assumes "db_faults db = []" "map_of (db_batches db) n \<noteq> None"
  shows "statement (update_batch_row n f) db = (Inr (), batch_marked n f db)"
  using assms by (simp add: statement_no_fault update_batch_row_def batch_marked_def)

text \<open>C24: the submitter settles the batch it takes. When it returns, every order of the batch is done or
  failed, an order that was neither before has a message on the channel that frees its capacity
  slot (if there is still room in the channel at the end), no other order has changed its status, and the
  batch is submitted or failed; whatever the backend, the verifier and the market answer in any attempt.
  The hypotheses: the database works and is well formed, the orders of the batch have distinct requests, the
  number of attempts can be read from the configuration, and the backend keeps the contract of
  \<open>build_fulfillments\<close>: each order of the batch is in the plan, with its own request and in order, or
  among the failed ones.\<close>

theorem process_next_batch_settles:
  assumes "db_faults (pl_db p) = []" "db_ok lib (pl_db p)"
    and "fst (get_complete_batch (pl_db p)) = Inr (Some (n, b))"
    and "distinct (map (\<lambda>i. request_of i p) (bt_orders b))"
    and "\<forall>k. fulfillment_builder (sv_build_fulfillments (envs k))"
    and "process_next_batch lib envs chain now (Inr max_attempts) p = (r, p')"
  shows "(\<forall>i\<in>set (bt_orders b). closed i p' \<and> (\<not> closed i p \<longrightarrow> pl_room p' > 0 \<longrightarrow> announced i p p'))
    \<and> (\<forall>i. i \<notin> set (bt_orders b) \<longrightarrow> status_of i p' = status_of i p)
    \<and> (\<exists>b'. map_of (db_batches (pl_db p')) n = Some b' \<and> bt_status b' = (if r = Inr () then Submitted else BatchFailed))"
proof -
  obtain db1 where g: "get_complete_batch (pl_db p) = (Inr (Some (n, b)), db1)"
    using assms(3) by (cases "get_complete_batch (pl_db p)") auto
  note row = get_complete_batch_row [OF assms(1) g]
  let ?p = "p\<lparr>pl_db := db1\<rparr>" and ?S = "set (bt_orders b)"
  have eq: "status_of i ?p = status_of i p" "request_of i ?p = request_of i p" for i
    using row(2) by (simp_all add: status_of_def request_of_def)
  have "db_ok lib db1" using grows_get_complete [of lib "pl_db p"] g assms(2) by (simp add: db_grows_def)
  moreover have "?S \<subseteq> fst ` set (db_orders (pl_db p))" using row(4) assms(2) unfolding db_ok_def by (metis case_prodD)
  then have "\<forall>i\<in>?S. status_of i p \<noteq> None" by (auto simp: status_of_def map_of_eq_None_iff)
  ultimately have ok: "batch_ok lib b ?p" using row(3) assms(4) by (simp add: batch_ok_def eq)
  obtain s q where s: "retry_only_with_context (ucast (saturating_sub max_attempts 1)) retry_submission
                  (submit_attempt lib envs chain b) ?p = (s, q)" by (rule prod.exhaust)
  define q' where "q' = (case s of Inr _ \<Rightarrow> q | Inl err \<Rightarrow> fold (fail_unless_settled chain now err) (bt_orders b) q)"
  note q' = submission_settles [OF ok spec [OF assms(5)] s q'_def]
  have b: "map_of (db_batches (pl_db q')) n \<noteq> None" "db_faults (pl_db q') = []"
    using q' row(1) by (simp_all add: closes_def)
  have "process_next_batch lib envs chain now (Inr max_attempts) p =
      (case s of
         Inr _ \<Rightarrow> (Inr (), q'\<lparr>pl_db := batch_marked n (\<lambda>b. b\<lparr>bt_status := Submitted\<rparr>) (pl_db q')\<rparr>)
       | Inl err \<Rightarrow>
           (Inl (case err of TxnConfirmationError _ \<Rightarrow> BatchSubmissionFailedTimeouts [err] | _ \<Rightarrow> BatchSubmissionFailed [err]),
            q'\<lparr>pl_db := batch_marked n (\<lambda>b. b\<lparr>bt_status := BatchFailed, bt_error_msg := Some (submitter_err_code err)\<rparr>) (pl_db q')\<rparr>))"
    using g s mark_batch [OF b(2) b(1)] q'_def
    by (cases s) (simp_all add: process_next_batch_def in_db_def set_batch_submitted_def set_batch_failure_def Let_def)
  then obtain f where p': "p' = q'\<lparr>pl_db := batch_marked n f (pl_db q')\<rparr>"
    "\<And>b0. bt_status (f b0) = (if r = Inr () then Submitted else BatchFailed)"
    using assms(6) by (cases s) auto
  have st: "status_of i p' = status_of i q'" "announced i p p' = announced i ?p q'" "pl_room p' = pl_room q'" for i
    unfolding p'(1) by (simp_all add: batch_marked_def status_of_def announced_def)
  have "\<exists>b'. map_of (db_batches (pl_db p')) n = Some b' \<and> bt_status b' = (if r = Inr () then Submitted else BatchFailed)"
    using b(1) p'(2) unfolding p'(1) by (auto simp: batch_marked_def map_of_update_where)
  moreover have cl: "status_of i q' = status_of i p \<or> i \<in> ?S \<and> closed i q' \<and> (pl_room q' > 0 \<longrightarrow> announced i ?p q')" for i
    using q' unfolding closes_def eq(1) by simp
  moreover have "closed i q'" if "i \<in> ?S" for i using q' that by blast
  moreover have "closed i q' \<Longrightarrow> status_of i q' = status_of i p \<Longrightarrow> closed i p" for i by (simp add: closed_def)
  ultimately show ?thesis unfolding closed_def [of _ p'] st unfolding closed_def [symmetric] by blast
qed

text \<open>An attempt that finds every order of the batch expired marks them all as failed, those an earlier
  attempt had completed included.\<close>

lemma fold_failed:
  assumes "db_faults (pl_db p) = []" "i \<in> set is" "status_of i p \<noteq> None"
  shows "status_of i (fold (\<lambda>i. handle_order_failure now i failure chain) is p) = Some Failed"
  using assms
proof (induction "is" arbitrary: p rule: rev_induct)
  case (snoc j "is")
  let ?q = "fold (\<lambda>i. handle_order_failure now i failure chain) is p"
  have q: "closes undefined UNIV p ?q" using snoc.prems(1) by (intro closes_fold closes_fail(1)) simp_all
  show ?case
  proof (cases "j = i")
    case True
    obtain ord where "map_of (db_orders (pl_db ?q)) i = Some ord"
      using closes_exists [OF q snoc.prems(3)] by (auto simp: status_of_def)
    then show ?thesis using fail_op.runs(2) [OF closes_faults [OF q]] True by (simp add: status_of_def)
  next
    case False
    then have "status_of i (handle_order_failure now j failure chain ?q) = status_of i ?q"
      by (simp add: status_of_def fail_op.others)
    then show ?thesis using snoc False by simp
  qed
qed simp

lemma expired_attempt_fails_done_orders:
  assumes "batch_ok lib b p" "\<forall>(i, ord)\<in>set (db_orders (pl_db p)). i \<in> set (bt_orders b) \<longrightarrow> expires_at (db_request ord) < sv_now env"
    and "i \<in> set (bt_orders b)" "status_of i p = Some Done"
  shows "status_of i (snd (submit_batch lib env chain b p)) = Some Failed"
proof -
  let ?orders = "map snd (rows_where (\<lambda>k _. k \<in> set (bt_orders b)) (db_orders (pl_db p)))"
  let ?f = "submit_failure (AllRequestsExpiredBeforeSubmission []) ''Expired before submission''"
  have p: "db_faults (pl_db p) = []" "db_ok lib (pl_db p)" using assms(1) by (auto simp: batch_ok_def)
  have "in_db (get_orders (bt_orders b)) p = (Inr ?orders, p)"
    using p(1) by (simp add: in_db_def get_orders_def statement_no_fault rows_where_def)
  moreover have "filter (\<lambda>ord. expires_at (db_request ord) < sv_now env) ?orders = ?orders"
    using assms(2) by (auto simp: rows_where_def filter_id_conv)
  ultimately have run: "snd (submit_batch lib env chain b p) =
      fold (\<lambda>i. handle_order_failure (sv_now env) i ?f chain) (map (db_order_id lib) ?orders) p"
    by (simp add: submit_batch_def handle_expired_requests_error_def fold_map comp_def)
  obtain ord where ord: "(i, ord) \<in> set (db_orders (pl_db p))"
    using assms(4) by (auto simp: status_of_def dest: map_of_SomeD)
  have "i = db_order_id lib ord" using p(2) ord by (auto simp: db_ok_def)
  then have "i \<in> set (map (db_order_id lib) ?orders)"
    unfolding rows_where_def set_map image_image
    using ord assms(3) by (intro image_eqI [of _ _ "(i, ord)"]) simp_all
  then show ?thesis using fold_failed [OF p(1)] assms(4) run by simp
qed

definition submit_row :: Order where
  "submit_row = ready_row\<lparr>db_status := PendingSubmission, db_image_id := Some ''00''\<rparr>"

definition submit_db :: broker_db where
  "submit_db = db_empty\<lparr>db_orders := [(db_order_id sample_lib submit_row, submit_row)],
     db_batches := [(1, (batch_new ''risc0_v3'' 900)\<lparr>bt_status := ReadyToSubmit, bt_orders := [db_order_id sample_lib submit_row]\<rparr>)],
     db_next_batch := 2\<rparr>"

definition echo_build :: "FulfillmentBatch \<Rightarrow> BackendFailure + SubmissionPlan" where
  "echo_build cmd = Inr
     \<lparr>sp_verifier_updates = [], sp_failed_orders = [],
      sp_orders = map (\<lambda>fo. \<lparr>oa_order_id = fo_order_id fo, oa_request = fo_request fo,
         oa_fulfillment = \<lparr>mf_claim_digest = [], mf_fulfillment_data_type = NoDataType,
           mf_fulfillment_data = [], mf_seal = []\<rparr>\<rparr>) (fb_orders cmd),
      sp_assessor_seal = []\<rparr>"

lemma echo_build_ok: "fulfillment_builder echo_build"
  by unfold_locales (auto simp: echo_build_def comp_def image_image)

definition sample_submit_env :: submit_env where
  "sample_submit_env =
     \<lparr>sv_now = 1100, sv_hex_decode = (\<lambda>_. Some (replicate 32 0)), sv_eip712_domain = Inr (eip712_domain 1 1),
      sv_build_fulfillments = echo_build, sv_config = Inr (True, False), sv_prover_address = 7,
      sv_verifier_update_applied = (\<lambda>_ _. Inr True), sv_apply_verifier_update = (\<lambda>_ _. Inr ()),
      sv_fulfill = (\<lambda>_. Inr ()), sv_collateral_token_decimals = (\<lambda>_. Inr 18)\<rparr>"

theorem process_next_batch_settles_witness:
  "\<exists>r p'. process_next_batch sample_lib (\<lambda>_. sample_submit_env) 1 1100 (Inr 3) (sample_pipeline submit_db router_new) = (r, p')
     \<and> \<not> closed (db_order_id sample_lib submit_row) (sample_pipeline submit_db router_new)
     \<and> closed (db_order_id sample_lib submit_row) p'"
proof -
  let ?p = "sample_pipeline submit_db router_new" and ?i = "db_order_id sample_lib submit_row"
  let ?b = "(batch_new ''risc0_v3'' 900)\<lparr>bt_status := BatchPendingSubmission, bt_orders := [?i]\<rparr>"
  obtain r p' where run: "process_next_batch sample_lib (\<lambda>_. sample_submit_env) 1 1100 (Inr 3) ?p = (r, p')"
    by (rule prod.exhaust)
  have p: "db_faults (pl_db ?p) = []" "db_ok sample_lib (pl_db ?p)"
    by (simp_all add: sample_pipeline_def submit_db_def db_empty_def db_ok_def)
  have g: "fst (get_complete_batch (pl_db ?p)) = Inr (Some (1, ?b))"
    by (simp add: sample_pipeline_def submit_db_def db_empty_def get_complete_batch_def statement_def rows_where_def
        Let_def read_batch_def batch_new_def)
  have d: "distinct (map (\<lambda>i. request_of i ?p) (bt_orders ?b))" by simp
  have e: "\<forall>k. fulfillment_builder (sv_build_fulfillments sample_submit_env)"
    using echo_build_ok by (simp add: sample_submit_env_def)
  have "closed ?i p'" using process_next_batch_settles [OF p g d e run] by simp
  moreover have "\<not> closed ?i ?p"
    by (simp add: closed_def status_of_def sample_pipeline_def submit_db_def db_empty_def submit_row_def)
  ultimately show ?thesis using run by blast
qed

end
