(* ===== verification/Risc0Batch.thy ===== *)
theory Risc0Batch
  imports Risc0Backend Fulfillment Pipeline
begin

text \<open>
  Batches in the RISC Zero backend: \<open>risc0-backend/src/batch.rs\<close> (aggregation with the set builder,
  the assessor proof and the compression of a batch), the construction of fulfillments in
  \<open>risc0-backend/src/lib.rs\<close>, and the assessor seals of
  \<open>boundless-market/src/contracts/fulfillment_batch.rs\<close>.

  The prover service and the libraries (RISC Zero receipts, the set-inclusion aggregation, ABI and
  JSON coders, the signer) are the fields of \<open>batch_env\<close>. A guest state of the aggregation library
  is the bytes that encode it. Calls that are retried take the number of the attempt.
\<close>

section \<open>Receipts\<close>

datatype 'a MaybePruned = Unpruned 'a | Pruned digest

record ClaimOutput =
  out_journal :: "bytes MaybePruned"
  out_assumptions :: digest

text \<open>The pre and post state and the exit code of a claim are one field here.\<close>

record ReceiptClaim =
  claim_system :: digest
  claim_output :: "ClaimOutput option MaybePruned"

record Risc0Receipt =
  receipt_integrity :: bool
  receipt_claim :: "ReceiptClaim option"
  receipt_journal :: bytes

definition prune_receipt_claim_journal :: "(bytes \<Rightarrow> digest) \<Rightarrow> ReceiptClaim \<Rightarrow> ReceiptClaim" where
  "prune_receipt_claim_journal hash_bytes claim =
     (case claim_output claim of
        Unpruned (Some out) \<Rightarrow>
          (case out_journal out of
             Unpruned bs \<Rightarrow> claim\<lparr>claim_output := Unpruned (Some (out\<lparr>out_journal := Pruned (hash_bytes bs)\<rparr>))\<rparr>
           | Pruned _ \<Rightarrow> claim)
      | _ \<Rightarrow> claim)"

section \<open>State and environment\<close>

definition RISC0_BATCH_STATE_VERSION :: u32 where "RISC0_BATCH_STATE_VERSION = 1"

record Risc0BatchState =
  bs_version :: u32
  bs_guest_state :: bytes
  bs_claim_digests :: "digest list"
  bs_proof_id :: "string option"
  bs_compressed_proof_id :: "string option"
  bs_assessor_proof_id :: "string option"

record batch_env =
  be_state_encode :: "Risc0BatchState \<Rightarrow> bytes option"
  be_state_decode :: "bytes \<Rightarrow> Risc0BatchState option"
  be_get_receipt :: "nat \<Rightarrow> string \<Rightarrow> BackendFailure + Risc0Receipt option"
  be_get_journal :: "string \<Rightarrow> BackendFailure + bytes option"
  be_get_compressed_receipt :: "string \<Rightarrow> BackendFailure + bytes option"
  be_get_blake3_groth16_receipt :: "string \<Rightarrow> BackendFailure + bytes option"
  be_groth16_seal :: "bytes \<Rightarrow> bytes option" \<comment> \<open>deserialization and \<open>encode_seal\<close>\<close>
  be_blake3_groth16_seal :: "bytes \<Rightarrow> bytes option"
  be_dev_mode :: bool
  be_upload_input :: "bytes \<Rightarrow> BackendFailure + string"
  be_prove_and_monitor_stark_high :: "nat \<Rightarrow> string \<Rightarrow> string \<Rightarrow> string list \<Rightarrow> BackendFailure + string"
  be_verify :: "Risc0Receipt \<Rightarrow> digest \<Rightarrow> bool"
  be_compress_high :: "nat \<Rightarrow> string \<Rightarrow> BackendFailure + string"
  be_verify_groth16_receipt :: "nat \<Rightarrow> string \<Rightarrow> BackendFailure + unit"
  be_hash_bytes :: "bytes \<Rightarrow> digest"
  be_claim_digest :: "ReceiptClaim \<Rightarrow> digest"
  be_claim_pruned :: "digest \<Rightarrow> digest \<Rightarrow> digest" \<comment> \<open>digest of \<open>ReceiptClaim::ok\<close>\<close>
  be_guest_initial :: "digest \<Rightarrow> bytes"
  be_guest_into_input :: "bytes \<Rightarrow> ReceiptClaim list \<Rightarrow> bool \<Rightarrow> bytes option" \<comment> \<open>input of the set builder, encoded\<close>
  be_guest_decode :: "bytes \<Rightarrow> bytes option"
  be_guest_is_finalized :: "bytes \<Rightarrow> bool"
  be_guest_finalized_root :: "bytes \<Rightarrow> digest"
  be_merkle_root :: "digest list \<Rightarrow> digest"
  be_merkle_path :: "digest list \<Rightarrow> nat \<Rightarrow> digest list"
  be_inclusion_params :: "digest \<Rightarrow> digest"
  be_inclusion_seal :: "digest list \<Rightarrow> digest \<Rightarrow> bytes option"
  be_assessor_journal_ok :: "bytes \<Rightarrow> bool"
  be_assessor_stdin :: "(ProofRequest \<times> bytes \<times> FulfillmentData) list \<Rightarrow> EIP712DomainSaltless \<Rightarrow> address \<Rightarrow> bytes"
  be_abi_encode :: abi_encoder
  be_request_hash :: "ProofRequest \<Rightarrow> EIP712DomainSaltless \<Rightarrow> digest"
  be_auth_hash :: "EIP712DomainSaltless \<Rightarrow> address \<Rightarrow> digest list \<Rightarrow> digest list \<Rightarrow> digest"

definition from_backend_state :: "batch_env \<Rightarrow> bytes \<Rightarrow> BackendFailure + Risc0BatchState" where
  "from_backend_state env raw =
     res_bind (ok_or Operation (be_state_decode env raw)) (\<lambda>decoded.
       if bs_version decoded \<le> RISC0_BATCH_STATE_VERSION then Inr decoded else Inl Operation)"

definition into_backend_state :: "batch_env \<Rightarrow> Risc0BatchState \<Rightarrow> BackendFailure + bytes" where
  "into_backend_state env st = ok_or Operation (be_state_encode env st)"

record Risc0BatchProcessor =
  rp_retry_count :: u64
  rp_env :: batch_env
  rp_order_env :: risc0_env
  rp_set_builder_guest_id :: digest
  rp_assessor_guest_id :: digest
  rp_market_addr :: address
  rp_prover_addr :: address
  rp_chain_id :: u64
  rp_router_policy :: RouterPolicy

section \<open>Seals and receipts of a submission\<close>

definition encode_groth16_seal :: "batch_env \<Rightarrow> string \<Rightarrow> BackendFailure + bytes" where
  "encode_groth16_seal env pid =
     res_bind (be_get_compressed_receipt env pid) (\<lambda>found.
     res_bind (ok_or Operation found) (\<lambda>receipt. ok_or Operation (be_groth16_seal env receipt)))"

definition encode_blake3_groth16_seal :: "batch_env \<Rightarrow> string \<Rightarrow> BackendFailure + bytes" where
  "encode_blake3_groth16_seal env pid =
     res_bind (be_get_blake3_groth16_receipt env pid) (\<lambda>found.
     res_bind (ok_or Operation found) (\<lambda>receipt.
     res_bind (ok_or Operation (be_blake3_groth16_seal env receipt)) (\<lambda>seal.
     Inr (if be_dev_mode env then [0xFF, 0xFF, 0, 0] @ drop 4 seal else seal))))"

definition encode_seal_for_selector :: "batch_env \<Rightarrow> selector \<Rightarrow> string \<Rightarrow> BackendFailure + bytes" where
  "encode_seal_for_selector env sel pid =
     (case compression_type_for_selector sel of
        Groth16 \<Rightarrow> encode_groth16_seal env pid
      | Blake3Groth16 \<Rightarrow> encode_blake3_groth16_seal env pid
      | NoCompression \<Rightarrow> Inl Operation)"

text \<open>The digest of the assessor's claim; the selectors and callbacks of its journal are not used.\<close>

definition assessor_receipt :: "batch_env \<Rightarrow> string \<Rightarrow> BackendFailure + digest" where
  "assessor_receipt env pid =
     res_bind (be_get_receipt env 0 pid) (\<lambda>found.
     res_bind (ok_or Operation found) (\<lambda>receipt.
     res_bind (ok_or Operation (receipt_claim receipt)) (\<lambda>claim.
     if be_assessor_journal_ok env (receipt_journal receipt) then Inr (be_claim_digest env claim) else Inl Operation)))"

section \<open>Aggregation\<close>

definition skip_assessor_guest :: "Risc0BatchProcessor \<Rightarrow> UpdateBatch \<Rightarrow> BackendFailure + bool" where
  "skip_assessor_guest p cmd =
     (case map (\<lambda>ord. pd_request (bo_proving ord)) (ub_new_orders cmd) @ map pd_request (ub_existing_orders cmd) of
        [] \<Rightarrow> Inr False
      | req # _ \<Rightarrow>
          res_bind (ok_or Operation (assessor_selector_for_signed (rp_router_policy p) (req_selector (requirements req))))
            (\<lambda>sel. Inr (sel = ONCHAIN_ASSESSOR_SELECTOR)))"

definition validate_and_extract_claim :: "Risc0BatchProcessor \<Rightarrow> string \<Rightarrow> BackendFailure + ReceiptClaim" where
  "validate_and_extract_claim p pid =
     res_bind (be_get_receipt (rp_env p) 0 pid) (\<lambda>found.
     res_bind (ok_or Operation found) (\<lambda>receipt.
     if \<not> receipt_integrity receipt then Inl Operation
     else res_bind (ok_or Operation (receipt_claim receipt)) (\<lambda>claim.
       Inr (prune_receipt_claim_journal (be_hash_bytes (rp_env p)) claim))))"

text \<open>The proofs with a valid receipt, each with its claim; the others are left out.\<close>

fun valid_proofs :: "Risc0BatchProcessor \<Rightarrow> string list \<Rightarrow> (string \<times> ReceiptClaim) list" where
  "valid_proofs p [] = []"
| "valid_proofs p (pid # pids) =
     (case validate_and_extract_claim p pid of
        Inr claim \<Rightarrow> (pid, claim) # valid_proofs p pids
      | Inl _ \<Rightarrow> valid_proofs p pids)"

definition set_builder_attempt ::
    "Risc0BatchProcessor \<Rightarrow> string \<Rightarrow> string list \<Rightarrow> nat \<Rightarrow> (BackendFailure + string \<times> bytes) \<times> nat" where
  "set_builder_attempt p inp assumptions k =
     (let env = rp_env p in
      (res_bind (be_prove_and_monitor_stark_high env k
                   (digest_text (rp_order_env p) (rp_set_builder_guest_id p)) inp assumptions) (\<lambda>pid.
       res_bind (be_get_receipt env k pid) (\<lambda>found.
       res_bind (ok_or Operation found) (\<lambda>receipt.
       if be_verify env receipt (rp_set_builder_guest_id p) then Inr (pid, receipt_journal receipt) else Inl Operation))),
       Suc k))"

definition prove_set_builder ::
    "Risc0BatchProcessor \<Rightarrow> bytes option \<Rightarrow> string list \<Rightarrow> bool \<Rightarrow> BackendFailure + bytes" where
  "prove_set_builder p backend_state proofs finalize =
     (let env = rp_env p in
      res_bind (case backend_state of None \<Rightarrow> Inr None
                | Some raw \<Rightarrow> res_bind (from_backend_state env raw) (\<lambda>st. Inr (Some st))) (\<lambda>agg.
      let valid = valid_proofs p proofs; claims = map snd valid in
      if claims = [] then Inl Operation
      else
      let guest = (case agg of None \<Rightarrow> be_guest_initial env (rp_set_builder_guest_id p) | Some st \<Rightarrow> bs_guest_state st);
          assumptions = (case agg of Some st \<Rightarrow> (case bs_proof_id st of Some i \<Rightarrow> [i] | None \<Rightarrow> []) | None \<Rightarrow> [])
                          @ map fst valid
      in
      res_bind (ok_or Operation (be_guest_into_input env guest claims finalize)) (\<lambda>input.
      res_bind (be_upload_input env input) (\<lambda>inp.
      res_bind (fst (retry_with_context (rp_retry_count p) (set_builder_attempt p inp assumptions) 0)) (\<lambda>(pid, journal).
      res_bind (ok_or Operation (be_guest_decode env journal)) (\<lambda>guest_state.
      into_backend_state env
        \<lparr>bs_version = RISC0_BATCH_STATE_VERSION, bs_guest_state = guest_state,
         bs_claim_digests = (case agg of Some st \<Rightarrow> bs_claim_digests st | None \<Rightarrow> []) @ map (be_claim_digest env) claims,
         bs_proof_id = Some pid, bs_compressed_proof_id = None, bs_assessor_proof_id = None\<rparr>))))))"

fun assessor_fills ::
    "Risc0BatchProcessor \<Rightarrow> OrderProvingData list \<Rightarrow> BackendFailure + (ProofRequest \<times> bytes \<times> FulfillmentData) list" where
  "assessor_fills p [] = Inr []"
| "assessor_fills p (ord # ords) =
     res_bind (ok_or Operation (pd_backend_state ord)) (\<lambda>raw.
     res_bind (risc0_order_state_decode (rp_order_env p) raw) (\<lambda>st.
     res_bind (be_get_journal (rp_env p) (proof_id st)) (\<lambda>found.
     res_bind (ok_or Operation found) (\<lambda>journal.
     res_bind (if predicateType (predicate (requirements (pd_request ord))) = ClaimDigestMatchType then Inr NoData
               else res_bind (ok_or Operation (pd_image_id ord)) (\<lambda>hex.
                    res_bind (ok_or Operation (digest_from_hex (rp_order_env p) hex)) (\<lambda>img.
                    Inr (ImageIdAndJournal img journal)))) (\<lambda>data.
     res_bind (assessor_fills p ords) (\<lambda>fills. Inr ((pd_request ord, pd_client_sig ord, data) # fills)))))))"

definition prove_assessor :: "Risc0BatchProcessor \<Rightarrow> OrderProvingData list \<Rightarrow> BackendFailure + string" where
  "prove_assessor p orders =
     res_bind (assessor_fills p orders) (\<lambda>fills.
     res_bind (be_upload_input (rp_env p)
        (be_assessor_stdin (rp_env p) fills (eip712_domain (rp_market_addr p) (rp_chain_id p)) (rp_prover_addr p))) (\<lambda>inp.
     be_prove_and_monitor_stark_high (rp_env p) 0 (digest_text (rp_order_env p) (rp_assessor_guest_id p)) inp []))"

definition compress_batch_proof :: "Risc0BatchProcessor \<Rightarrow> string \<Rightarrow> BackendFailure + string" where
  "compress_batch_proof p pid =
     fst (retry_with_context (rp_retry_count p) (\<lambda>k.
       (res_bind (be_compress_high (rp_env p) k pid) (\<lambda>compressed.
        res_bind (be_verify_groth16_receipt (rp_env p) k compressed) (\<lambda>_. Inr compressed)), Suc k)) 0)"

fun journal_bytes :: "Risc0BatchProcessor \<Rightarrow> OrderProvingData list \<Rightarrow> BackendFailure + nat" where
  "journal_bytes p [] = Inr 0"
| "journal_bytes p (ord # ords) =
     res_bind (ok_or Operation (pd_backend_state ord)) (\<lambda>raw.
     res_bind (risc0_order_state_decode (rp_order_env p) raw) (\<lambda>st.
     res_bind (be_get_journal (rp_env p) (proof_id st)) (\<lambda>found.
     res_bind (ok_or Operation found) (\<lambda>journal.
     res_bind (journal_bytes p ords) (\<lambda>size.
       Inr ((if predicateType (predicate (requirements (pd_request ord))) = ClaimDigestMatchType then 0
             else length journal) + size))))))"

definition risc0_estimate_batch_size :: "Risc0BatchProcessor \<Rightarrow> BatchSizeEstimateRequest \<Rightarrow> BackendFailure + nat" where
  "risc0_estimate_batch_size p cmd = journal_bytes p (se_existing_orders cmd @ se_pending_orders cmd)"

text \<open>The proofs of the new orders that are to be aggregated: those without a compressed proof.\<close>

fun aggregated_proofs :: "Risc0BatchProcessor \<Rightarrow> BatchOrder list \<Rightarrow> BackendFailure + string list" where
  "aggregated_proofs p [] = Inr []"
| "aggregated_proofs p (ord # ords) =
     res_bind (ok_or Operation (pd_backend_state (bo_proving ord))) (\<lambda>raw.
     res_bind (risc0_order_state_decode (rp_order_env p) raw) (\<lambda>st.
     res_bind (aggregated_proofs p ords) (\<lambda>pids.
       Inr (if compressed_proof_id st = None then proof_id st # pids else pids))))"

definition empty_batch_state :: "Risc0BatchProcessor \<Rightarrow> Risc0BatchState" where
  "empty_batch_state p =
     \<lparr>bs_version = RISC0_BATCH_STATE_VERSION, bs_guest_state = be_guest_initial (rp_env p) (rp_set_builder_guest_id p),
      bs_claim_digests = [], bs_proof_id = None, bs_compressed_proof_id = None, bs_assessor_proof_id = None\<rparr>"

definition risc0_update_batch :: "Risc0BatchProcessor \<Rightarrow> UpdateBatch \<Rightarrow> BackendFailure + BatchUpdate" where
  "risc0_update_batch p cmd =
     (let env = rp_env p in
      res_bind (skip_assessor_guest p cmd) (\<lambda>skip_assessor.
      res_bind (if ub_finalize cmd \<and> \<not> skip_assessor
                then res_bind (prove_assessor p (ub_existing_orders cmd @ map bo_proving (ub_new_orders cmd))) (\<lambda>i. Inr (Some i))
                else Inr None) (\<lambda>assessor_proof_id.
      res_bind (aggregated_proofs p (ub_new_orders cmd)) (\<lambda>order_proofs.
      let proofs = order_proofs @ (case assessor_proof_id of Some i \<Rightarrow> [i] | None \<Rightarrow> []) in
      res_bind (if proofs = []
                then res_bind (case ub_state cmd of Some raw \<Rightarrow> from_backend_state env raw | None \<Rightarrow> Inr (empty_batch_state p))
                       (into_backend_state env)
                else prove_set_builder p (ub_state cmd) proofs (ub_finalize cmd)) (\<lambda>agg.
      res_bind (from_backend_state env agg) (\<lambda>decoded.
      res_bind (into_backend_state env (decoded\<lparr>bs_assessor_proof_id := assessor_proof_id\<rparr>)) (\<lambda>state.
      Inr \<lparr>bu_state = state, bu_finalize = ub_finalize cmd\<rparr>)))))))"

definition risc0_close_batch :: "Risc0BatchProcessor \<Rightarrow> CloseBatch \<Rightarrow> BackendFailure + bytes" where
  "risc0_close_batch p cmd =
     res_bind (ok_or Operation (cb_state cmd)) (\<lambda>raw.
     res_bind (from_backend_state (rp_env p) raw) (\<lambda>st.
     res_bind (case bs_proof_id st of
                 Some pid \<Rightarrow> res_bind (compress_batch_proof p pid) (\<lambda>c. Inr (st\<lparr>bs_compressed_proof_id := Some c\<rparr>))
               | None \<Rightarrow> Inr st) (into_backend_state (rp_env p))))"

definition risc0_batch_processor :: "Risc0BatchProcessor \<Rightarrow> BatchProcessor" where
  "risc0_batch_processor p =
     \<lparr>bp_estimate_batch_size = risc0_estimate_batch_size p, bp_update_batch = risc0_update_batch p,
      bp_close_batch = risc0_close_batch p\<rparr>"

section \<open>Assessor seals\<close>

definition selector_bytes :: "selector \<Rightarrow> bytes" where
  "selector_bytes sel = rev (u32_to_le_bytes 4 sel)"

definition assessor_seal :: "selector \<Rightarrow> bytes \<Rightarrow> bytes" where
  "assessor_seal sel inner = selector_bytes sel @ inner"

definition onchain_assessor_eip712_domain :: "address \<Rightarrow> u64 \<Rightarrow> EIP712DomainSaltless" where
  "onchain_assessor_eip712_domain a chain =
     \<lparr>domain_name = ''OnChainAssessor'', domain_version = ''1'', domain_chain_id = chain, verifying_contract = a\<rparr>"

definition sign_fulfillment_batch_auth ::
    "batch_env \<Rightarrow> (digest \<Rightarrow> BackendFailure + bytes) \<Rightarrow> EIP712DomainSaltless \<Rightarrow> address \<Rightarrow> digest list \<Rightarrow> digest list
      \<Rightarrow> BackendFailure + bytes" where
  "sign_fulfillment_batch_auth env sign domain prover request_digests claim_digests =
     sign (be_auth_hash env domain prover request_digests claim_digests)"

definition build_onchain_assessor_seal ::
    "batch_env \<Rightarrow> (digest \<Rightarrow> BackendFailure + bytes) \<Rightarrow> selector \<Rightarrow> address \<Rightarrow> u64 \<Rightarrow> EIP712DomainSaltless \<Rightarrow> address
      \<Rightarrow> ProofRequest list \<Rightarrow> MarketFulfillment list \<Rightarrow> BackendFailure + bytes" where
  "build_onchain_assessor_seal env sign sel assessor_address chain market_domain prover requests fulfillments =
     res_bind (sign_fulfillment_batch_auth env sign (onchain_assessor_eip712_domain assessor_address chain) prover
        (map (\<lambda>r. be_request_hash env r market_domain) requests) (map mf_claim_digest fulfillments)) (\<lambda>signature.
     Inr (assessor_seal sel signature))"

section \<open>Fulfillments\<close>

text \<open>The fields of \<open>Risc0Backend\<close> that submissions need, beside those that price and prove an order.\<close>

record Risc0BatchBackend =
  rbb_backend :: Risc0Backend
  rbb_env :: batch_env
  rbb_set_builder_program_id :: "digest option"
  rbb_set_verifier_addr :: "address option"
  rbb_set_verifier :: "((digest \<Rightarrow> BackendFailure + bool) \<times> (digest \<Rightarrow> bytes \<Rightarrow> string + unit)) option"
  rbb_batch_processor :: "Risc0BatchProcessor option"
  rbb_prover_signer :: "(digest \<Rightarrow> BackendFailure + bytes) option"
  rbb_prover_addr :: "address option"
  rbb_chain_id :: u64

fun position :: "('a \<Rightarrow> bool) \<Rightarrow> 'a list \<Rightarrow> nat option" where
  "position P [] = None"
| "position P (x # xs) = (if P x then Some 0 else map_option Suc (position P xs))"

text \<open>The seal of inclusion of a claim in the aggregated claims.\<close>

definition inclusion_seal :: "batch_env \<Rightarrow> digest \<Rightarrow> digest list \<Rightarrow> digest \<Rightarrow> BackendFailure + bytes" where
  "inclusion_seal env program_id claims claim =
     res_bind (ok_or Operation (position (\<lambda>c. c = claim) claims)) (\<lambda>i.
     ok_or Operation (be_inclusion_seal env (be_merkle_path env claims i) (be_inclusion_params env program_id)))"

definition verifier_updates_for ::
    "batch_env \<Rightarrow> address \<Rightarrow> Risc0BatchState \<Rightarrow> BackendFailure + VerifierUpdate list" where
  "verifier_updates_for env set_verifier_addr st =
     (case bs_compressed_proof_id st of
        None \<Rightarrow> Inr []
      | Some groth16_proof_id \<Rightarrow>
          if bs_claim_digests st = [] \<or> \<not> be_guest_is_finalized env (bs_guest_state st) then Inl Operation
          else let batch_root = be_merkle_root env (bs_claim_digests st) in
            if be_guest_finalized_root env (bs_guest_state st) \<noteq> batch_root then Inl Operation
            else res_bind (encode_groth16_seal env groth16_proof_id) (\<lambda>seal.
              Inr [SubmitMerkleRoot set_verifier_addr batch_root seal]))"

fun decode_order_states ::
    "risc0_env \<Rightarrow> FulfillmentOrder list \<Rightarrow> BackendFailure + (string \<times> Risc0OrderState) list" where
  "decode_order_states env [] = Inr []"
| "decode_order_states env (fo # fos) =
     (case fo_backend_state fo of
        None \<Rightarrow> decode_order_states env fos
      | Some raw \<Rightarrow>
          res_bind (risc0_order_state_decode env raw) (\<lambda>st.
          res_bind (decode_order_states env fos) (\<lambda>states. Inr ((fo_order_id fo, st) # states))))"

definition fulfillment_payload ::
    "batch_env \<Rightarrow> RequestPredicate \<Rightarrow> digest \<Rightarrow> bytes \<Rightarrow> digest \<Rightarrow> BackendFailure + digest \<times> bytes \<times> FulfillmentDataType" where
  "fulfillment_payload env pred img journal order_claim =
     (case predicateType pred of
        ClaimDigestMatchType \<Rightarrow>
          (if length (predicateData pred) = 32 then Inr (predicateData pred, [], NoDataType) else Inl Operation)
      | PrefixMatchType \<Rightarrow> Inr (order_claim, be_abi_encode env img journal, ImageIdAndJournalType)
      | DigestMatchType \<Rightarrow> Inr (order_claim, be_abi_encode env img journal, ImageIdAndJournalType)
      | PredicateTypeInvalid \<Rightarrow> Inl Operation)"

definition fulfill_order ::
    "Risc0BatchBackend \<Rightarrow> digest \<Rightarrow> digest list \<Rightarrow> (string \<rightharpoonup> Risc0OrderState) \<Rightarrow> FulfillmentOrder
      \<Rightarrow> BackendFailure + OrderFulfillmentArtifact" where
  "fulfill_order b program_id claims states fo =
     (let env = rbb_env b; img = fo_program_id fo; reqs = requirements (fo_request fo) in
      res_bind (ok_or Operation (states (fo_order_id fo))) (\<lambda>st.
      res_bind (be_get_journal env (proof_id st)) (\<lambda>found.
      res_bind (ok_or Operation found) (\<lambda>journal.
      let order_claim = be_claim_pruned env img (be_hash_bytes env journal);
          sel = normalize_selector (rbb_backend b) (req_selector reqs)
      in
      res_bind (if is_groth16_selector sel \<or> is_blake3_groth16_selector sel
                then res_bind (ok_or Operation (compressed_proof_id st)) (encode_seal_for_selector env sel)
                else inclusion_seal env program_id claims order_claim) (\<lambda>seal.
      res_bind (fulfillment_payload env (predicate reqs) img journal order_claim) (\<lambda>(claim, data, data_type).
      Inr \<lparr>oa_order_id = fo_order_id fo, oa_request = fo_request fo,
           oa_fulfillment = \<lparr>mf_claim_digest = claim, mf_fulfillment_data_type = data_type,
                             mf_fulfillment_data = data, mf_seal = seal\<rparr>\<rparr>))))))"

fun fulfill_orders ::
    "Risc0BatchBackend \<Rightarrow> digest \<Rightarrow> digest list \<Rightarrow> (string \<rightharpoonup> Risc0OrderState) \<Rightarrow> FulfillmentOrder list
      \<Rightarrow> OrderFulfillmentArtifact list \<times> string list" where
  "fulfill_orders b program_id claims states [] = ([], [])"
| "fulfill_orders b program_id claims states (fo # fos) =
     (let (artifacts, failed) = fulfill_orders b program_id claims states fos in
      case fulfill_order b program_id claims states fo of
        Inr artifact \<Rightarrow> (artifact # artifacts, failed)
      | Inl _ \<Rightarrow> (artifacts, fo_order_id fo # failed))"

definition batch_assessor_seal ::
    "Risc0BatchBackend \<Rightarrow> EIP712DomainSaltless \<Rightarrow> digest \<Rightarrow> Risc0BatchState \<Rightarrow> selector \<Rightarrow> OrderFulfillmentArtifact list
      \<Rightarrow> BackendFailure + bytes" where
  "batch_assessor_seal b domain program_id st signed_sel artifacts =
     (let env = rbb_env b; policy = rb_router_policy (rbb_backend b) in
      res_bind (ok_or Operation (assessor_selector_for_signed policy signed_sel)) (\<lambda>assessor_selector.
      if assessor_selector = ONCHAIN_ASSESSOR_SELECTOR then
        res_bind (ok_or Operation (rbb_prover_signer b)) (\<lambda>sign.
        res_bind (ok_or Operation (rbb_prover_addr b)) (\<lambda>prover.
        res_bind (ok_or Operation (map_option implementation (entries (registry policy) assessor_selector))) (\<lambda>adapter.
        build_onchain_assessor_seal env sign assessor_selector adapter (rbb_chain_id b) domain prover
          (map oa_request artifacts) (map oa_fulfillment artifacts))))
      else
        res_bind (ok_or Operation (bs_assessor_proof_id st)) (\<lambda>pid.
        res_bind (assessor_receipt env pid) (\<lambda>claim.
        res_bind (inclusion_seal env program_id (bs_claim_digests st) claim) (\<lambda>inner.
        Inr (assessor_seal assessor_selector inner))))))"

definition risc0_build_fulfillments :: "Risc0BatchBackend \<Rightarrow> FulfillmentBatch \<Rightarrow> BackendFailure + SubmissionPlan" where
  "risc0_build_fulfillments b cmd =
     (let env = rbb_env b in
      if fb_backend_id cmd \<noteq> rb_id (rbb_backend b) then Inl Operation
      else
      res_bind (ok_or Operation (fb_state cmd)) (\<lambda>raw.
      res_bind (from_backend_state env raw) (\<lambda>st.
      res_bind (ok_or Operation (rbb_set_builder_program_id b)) (\<lambda>program_id.
      res_bind (ok_or Operation (rbb_set_verifier_addr b)) (\<lambda>set_verifier_addr.
      res_bind (verifier_updates_for env set_verifier_addr st) (\<lambda>updates.
      res_bind (decode_order_states (rb_env (rbb_backend b)) (fb_orders cmd)) (\<lambda>states.
      let (artifacts, failed) = fulfill_orders b program_id (bs_claim_digests st) (map_of (rev states)) (fb_orders cmd) in
      res_bind (ok_or Operation (case fb_orders cmd of fo # _ \<Rightarrow> Some (req_selector (requirements (fo_request fo))) | [] \<Rightarrow> None))
        (\<lambda>signed_sel.
      res_bind (batch_assessor_seal b (fb_eip712_domain cmd) program_id st signed_sel artifacts) (\<lambda>seal.
      Inr \<lparr>sp_verifier_updates = updates, sp_failed_orders = failed, sp_orders = artifacts, sp_assessor_seal = seal\<rparr>)))))))))"

definition require_set_verifier ::
    "Risc0BatchBackend \<Rightarrow> address \<Rightarrow> BackendFailure + ((digest \<Rightarrow> BackendFailure + bool) \<times> (digest \<Rightarrow> bytes \<Rightarrow> string + unit))" where
  "require_set_verifier b verifier =
     res_bind (ok_or Operation (rbb_set_verifier b)) (\<lambda>service.
       if rbb_set_verifier_addr b = Some verifier then Inr service else Inl Operation)"

fun risc0_verifier_update_applied :: "Risc0BatchBackend \<Rightarrow> VerifierUpdate \<Rightarrow> BackendFailure + bool" where
  "risc0_verifier_update_applied b (SubmitMerkleRoot verifier root seal) =
     res_bind (require_set_verifier b verifier) (\<lambda>(contains_root, _). contains_root root)"

definition classify_verifier_update_error :: "string \<Rightarrow> VerifierUpdateError" where
  "classify_verifier_update_error err =
     (if sublist ''failed to confirm tx'' err then UpdateTxnConfirmation else UpdateOther)"

fun risc0_apply_verifier_update :: "Risc0BatchBackend \<Rightarrow> VerifierUpdate \<Rightarrow> VerifierUpdateError + unit" where
  "risc0_apply_verifier_update b (SubmitMerkleRoot verifier root seal) =
     (case require_set_verifier b verifier of
        Inl _ \<Rightarrow> Inl UpdateOther
      | Inr (_, submit_merkle_root) \<Rightarrow>
          (case submit_merkle_root root seal of
             Inl err \<Rightarrow> Inl (classify_verifier_update_error err)
           | Inr _ \<Rightarrow> Inr ()))"

definition risc0_batch_backend :: "Risc0BatchBackend \<Rightarrow> BatchBackend" where
  "risc0_batch_backend b =
     \<lparr>bb_batch_processor = map_option risc0_batch_processor (rbb_batch_processor b),
      bb_build_fulfillments = risc0_build_fulfillments b,
      bb_verifier_update_applied = risc0_verifier_update_applied b,
      bb_apply_verifier_update = risc0_apply_verifier_update b\<rparr>"

section \<open>The submitter's contract\<close>

lemma fulfill_order_Inr:
  "fulfill_order b program_id claims states fo = Inr a \<Longrightarrow> oa_order_id a = fo_order_id fo \<and> oa_request a = fo_request fo"
  by (auto simp: fulfill_order_def Let_def res_simps)

lemma fulfill_orders_partition:
  assumes "fulfill_orders b program_id claims states fos = (artifacts, failed)"
  shows "subseq (map (\<lambda>a. (oa_order_id a, oa_request a)) artifacts) (map (\<lambda>fo. (fo_order_id fo, fo_request fo)) fos)
    \<and> set failed \<union> set (map oa_order_id artifacts) = set (map fo_order_id fos)"
  using assms
proof (induction fos arbitrary: artifacts failed)
  case (Cons fo fos)
  obtain as fs where rest: "fulfill_orders b program_id claims states fos = (as, fs)" by (rule prod.exhaust)
  note IH = Cons.IH [OF rest]
  show ?case
  proof (cases "fulfill_order b program_id claims states fo")
    case (Inl e)
    then have "artifacts = as" "failed = fo_order_id fo # fs" using Cons.prems rest by simp_all
    then show ?thesis using IH by auto
  next
    case (Inr a)
    then have "artifacts = a # as" "failed = fs" using Cons.prems rest by simp_all
    then show ?thesis using IH fulfill_order_Inr [OF Inr] by auto
  qed
qed simp

lemma build_fulfillments_Inr:
  assumes "risc0_build_fulfillments b cmd = Inr plan"
  obtains raw st program_id addr states where
    "fb_state cmd = Some raw" "from_backend_state (rbb_env b) raw = Inr st" "rbb_set_builder_program_id b = Some program_id"
    "rbb_set_verifier_addr b = Some addr" "verifier_updates_for (rbb_env b) addr st = Inr (sp_verifier_updates plan)"
    "decode_order_states (rb_env (rbb_backend b)) (fb_orders cmd) = Inr states"
    "fulfill_orders b program_id (bs_claim_digests st) (map_of (rev states)) (fb_orders cmd) = (sp_orders plan, sp_failed_orders plan)"
  using assms that unfolding risc0_build_fulfillments_def
  by (auto simp: Let_def res_simps split_def prod_eq_iff split: if_splits)

interpretation risc0_plans: fulfillment_builder "risc0_build_fulfillments b" for b
proof
  fix cmd plan assume "risc0_build_fulfillments b cmd = Inr plan"
  then obtain program_id claims states where
    f: "fulfill_orders b program_id claims states (fb_orders cmd) = (sp_orders plan, sp_failed_orders plan)"
    by (rule build_fulfillments_Inr)
  from fulfill_orders_partition [OF f]
  show "subseq (map (\<lambda>a. (oa_order_id a, oa_request a)) (sp_orders plan))
             (map (\<lambda>fo. (fo_order_id fo, fo_request fo)) (fb_orders cmd))"
    and "set (sp_failed_orders plan) \<union> set (map oa_order_id (sp_orders plan)) = set (map fo_order_id (fb_orders cmd))"
    by simp_all
qed

section \<open>Seals and the submitted root\<close>

lemma position_Some: "position P xs = Some i \<Longrightarrow> i < length xs \<and> P (xs ! i)"
  by (induction xs arbitrary: i) (auto split: if_splits)

lemma position_ex: "x \<in> set xs \<Longrightarrow> P x \<Longrightarrow> \<exists>i. position P xs = Some i"
  by (induction xs) auto

lemma inclusion_seal_Inr:
  assumes "inclusion_seal env program_id claims claim = Inr seal"
  shows "\<exists>i<length claims. claims ! i = claim
    \<and> be_inclusion_seal env (be_merkle_path env claims i) (be_inclusion_params env program_id) = Some seal"
  using assms position_Some by (fastforce simp: inclusion_seal_def res_simps)

lemma verifier_updates_root:
  assumes "verifier_updates_for env addr st = Inr updates" "SubmitMerkleRoot v root seal \<in> set updates"
  shows "root = be_merkle_root env (bs_claim_digests st) \<and> be_guest_is_finalized env (bs_guest_state st) \<and> v = addr"
  using assms by (auto simp: verifier_updates_for_def Let_def res_simps split: option.splits if_splits)

lemma fulfill_orders_artifact:
  assumes "fulfill_orders b program_id claims states fos = (artifacts, failed)" "a \<in> set artifacts"
  shows "\<exists>fo\<in>set fos. fulfill_order b program_id claims states fo = Inr a"
  using assms
proof (induction fos arbitrary: artifacts failed)
  case (Cons fo fos)
  obtain as fs where rest: "fulfill_orders b program_id claims states fos = (as, fs)" by (rule prod.exhaust)
  show ?case
  proof (cases "fulfill_order b program_id claims states fo")
    case (Inl e)
    then have "artifacts = as" using Cons.prems(1) rest by simp
    then show ?thesis using Cons.IH [OF rest] Cons.prems(2) by auto
  next
    case (Inr x)
    then have "artifacts = x # as" using Cons.prems(1) rest by simp
    then show ?thesis using Cons.IH [OF rest] Cons.prems(2) Inr by auto
  qed
qed simp

lemma fulfillment_payload_claim:
  assumes "fulfillment_payload env pred img journal c = Inr (claim, data, ty)"
  shows "if predicateType pred = ClaimDigestMatchType then claim = predicateData pred \<and> data = []
         else claim = c \<and> data = be_abi_encode env img journal"
  using assms by (cases "predicateType pred") (auto simp: fulfillment_payload_def split: if_splits)

lemma fulfill_order_inclusion:
  assumes "fulfill_order b program_id claims states fo = Inr a"
    and "\<not> is_groth16_selector (normalize_selector (rbb_backend b) (req_selector (requirements (fo_request fo))))"
    and "\<not> is_blake3_groth16_selector (normalize_selector (rbb_backend b) (req_selector (requirements (fo_request fo))))"
  obtains st journal where "states (fo_order_id fo) = Some st" "be_get_journal (rbb_env b) (proof_id st) = Inr (Some journal)"
    "inclusion_seal (rbb_env b) program_id claims (be_claim_pruned (rbb_env b) (fo_program_id fo) (be_hash_bytes (rbb_env b) journal))
       = Inr (mf_seal (oa_fulfillment a))"
    "if predicateType (predicate (requirements (fo_request fo))) = ClaimDigestMatchType
     then mf_claim_digest (oa_fulfillment a) = predicateData (predicate (requirements (fo_request fo)))
       \<and> mf_fulfillment_data (oa_fulfillment a) = []
     else mf_claim_digest (oa_fulfillment a) = be_claim_pruned (rbb_env b) (fo_program_id fo) (be_hash_bytes (rbb_env b) journal)
       \<and> mf_fulfillment_data (oa_fulfillment a) = be_abi_encode (rbb_env b) (fo_program_id fo) journal"
proof -
  let ?env = "rbb_env b" and ?pred = "predicate (requirements (fo_request fo))"
  let ?claim = "\<lambda>journal. be_claim_pruned ?env (fo_program_id fo) (be_hash_bytes ?env journal)"
  obtain st journal seal claim data ty where f: "states (fo_order_id fo) = Some st"
    "be_get_journal ?env (proof_id st) = Inr (Some journal)"
    "inclusion_seal ?env program_id claims (?claim journal) = Inr seal"
    "fulfillment_payload ?env ?pred (fo_program_id fo) journal (?claim journal) = Inr (claim, data, ty)"
    "oa_fulfillment a = \<lparr>mf_claim_digest = claim, mf_fulfillment_data_type = ty, mf_fulfillment_data = data, mf_seal = seal\<rparr>"
    using assms by (auto simp: fulfill_order_def Let_def res_simps)
  show thesis by (rule that [OF f(1,2)]) (use f fulfillment_payload_claim [OF f(4)] in simp_all)
qed

text \<open>The state an order is fulfilled with is its own.\<close>

lemma decode_order_states_sound:
  "decode_order_states env fos = Inr states \<Longrightarrow> (i, st) \<in> set states \<Longrightarrow>
     \<exists>fo\<in>set fos. fo_order_id fo = i \<and> (\<exists>raw. fo_backend_state fo = Some raw \<and> risc0_order_state_decode env raw = Inr st)"
  by (induction fos arbitrary: states) (fastforce simp: res_simps split: option.splits)+

lemma decode_order_states_lookup:
  assumes "decode_order_states env fos = Inr states" "distinct (map fo_order_id fos)" "fo \<in> set fos"
    and "map_of (rev states) (fo_order_id fo) = Some st"
  shows "\<exists>raw. fo_backend_state fo = Some raw \<and> risc0_order_state_decode env raw = Inr st"
proof -
  have "(fo_order_id fo, st) \<in> set states" using map_of_SomeD [OF assms(4)] by simp
  then obtain fo' where fo': "fo' \<in> set fos" "fo_order_id fo' = fo_order_id fo"
    "\<exists>raw. fo_backend_state fo' = Some raw \<and> risc0_order_state_decode env raw = Inr st"
    using decode_order_states_sound [OF assms(1)] by blast
  have "fo' = fo" using fo'(1,2) assms(2,3) by (auto simp: distinct_map dest: inj_onD)
  then show ?thesis using fo'(3) by simp
qed

text \<open>C25: the seals of the aggregated orders and the root the submitter registers belong together, for a batch
  whose order ids are distinct: every fulfillment that is not a root proof carries the inclusion seal of
  the claim of its order's program and of the journal of its order's own proof (the one its stored
  state names), at the place of that claim among the claims of the batch's stored state; unless the
  predicate is on the claim digest itself, it also carries that claim and the encoding of that program and
  journal. The root to be submitted is the Merkle root of exactly the claims of that state.\<close>

theorem inclusion_seals_match_root:
  assumes "risc0_build_fulfillments b cmd = Inr plan" "a \<in> set (sp_orders plan)" "distinct (map fo_order_id (fb_orders cmd))"
    and "\<not> is_groth16_selector (normalize_selector (rbb_backend b) (req_selector (requirements (oa_request a))))"
    and "\<not> is_blake3_groth16_selector (normalize_selector (rbb_backend b) (req_selector (requirements (oa_request a))))"
  shows "\<exists>fo\<in>set (fb_orders cmd). \<exists>batch_raw st raw order_state journal i program_id.
      fo_order_id fo = oa_order_id a \<and> fo_request fo = oa_request a \<and> rbb_set_builder_program_id b = Some program_id
      \<and> fb_state cmd = Some batch_raw \<and> from_backend_state (rbb_env b) batch_raw = Inr st
      \<and> fo_backend_state fo = Some raw \<and> risc0_order_state_decode (rb_env (rbb_backend b)) raw = Inr order_state
      \<and> be_get_journal (rbb_env b) (proof_id order_state) = Inr (Some journal)
      \<and> i < length (bs_claim_digests st)
      \<and> bs_claim_digests st ! i = be_claim_pruned (rbb_env b) (fo_program_id fo) (be_hash_bytes (rbb_env b) journal)
      \<and> be_inclusion_seal (rbb_env b) (be_merkle_path (rbb_env b) (bs_claim_digests st) i)
           (be_inclusion_params (rbb_env b) program_id) = Some (mf_seal (oa_fulfillment a))
      \<and> (if predicateType (predicate (requirements (oa_request a))) = ClaimDigestMatchType
         then mf_claim_digest (oa_fulfillment a) = predicateData (predicate (requirements (oa_request a)))
           \<and> mf_fulfillment_data (oa_fulfillment a) = []
         else mf_claim_digest (oa_fulfillment a) = bs_claim_digests st ! i
           \<and> mf_fulfillment_data (oa_fulfillment a) = be_abi_encode (rbb_env b) (fo_program_id fo) journal)
      \<and> (\<forall>v root seal. SubmitMerkleRoot v root seal \<in> set (sp_verifier_updates plan) \<longrightarrow>
           root = be_merkle_root (rbb_env b) (bs_claim_digests st))"
proof -
  let ?env = "rbb_env b"
  obtain batch_raw st program_id addr states where
    plan: "rbb_set_builder_program_id b = Some program_id" "verifier_updates_for ?env addr st = Inr (sp_verifier_updates plan)"
    "fulfill_orders b program_id (bs_claim_digests st) (map_of (rev states)) (fb_orders cmd) = (sp_orders plan, sp_failed_orders plan)"
    and state: "fb_state cmd = Some batch_raw" "from_backend_state ?env batch_raw = Inr st"
    and decoded: "decode_order_states (rb_env (rbb_backend b)) (fb_orders cmd) = Inr states"
    by (rule build_fulfillments_Inr [OF assms(1)])
  obtain fo where fo: "fo \<in> set (fb_orders cmd)"
    "fulfill_order b program_id (bs_claim_digests st) (map_of (rev states)) fo = Inr a"
    using fulfill_orders_artifact [OF plan(3) assms(2)] by blast
  note same = fulfill_order_Inr [OF fo(2)]
  let ?claim = "\<lambda>journal. be_claim_pruned ?env (fo_program_id fo) (be_hash_bytes ?env journal)"
  obtain order_state journal where look: "map_of (rev states) (fo_order_id fo) = Some order_state"
    and j: "be_get_journal ?env (proof_id order_state) = Inr (Some journal)"
      "inclusion_seal ?env program_id (bs_claim_digests st) (?claim journal) = Inr (mf_seal (oa_fulfillment a))"
    and d: "if predicateType (predicate (requirements (fo_request fo))) = ClaimDigestMatchType
     then mf_claim_digest (oa_fulfillment a) = predicateData (predicate (requirements (fo_request fo)))
       \<and> mf_fulfillment_data (oa_fulfillment a) = []
     else mf_claim_digest (oa_fulfillment a) = ?claim journal
       \<and> mf_fulfillment_data (oa_fulfillment a) = be_abi_encode ?env (fo_program_id fo) journal"
    by (rule fulfill_order_inclusion [OF fo(2)]) (use assms(4,5) same in auto)
  from decode_order_states_lookup [OF decoded assms(3) fo(1) look] obtain raw where
    own: "fo_backend_state fo = Some raw" "risc0_order_state_decode (rb_env (rbb_backend b)) raw = Inr order_state" by blast
  from inclusion_seal_Inr [OF j(2)] obtain i where i: "i < length (bs_claim_digests st)" "bs_claim_digests st ! i = ?claim journal"
    "be_inclusion_seal ?env (be_merkle_path ?env (bs_claim_digests st) i) (be_inclusion_params ?env program_id)
       = Some (mf_seal (oa_fulfillment a))" by blast
  have r: "\<forall>v root seal. SubmitMerkleRoot v root seal \<in> set (sp_verifier_updates plan) \<longrightarrow>
      root = be_merkle_root ?env (bs_claim_digests st)"
    using verifier_updates_root [OF plan(2)] by blast
  show ?thesis
    by (rule bexI [OF _ fo(1)], rule exI [of _ batch_raw], rule exI [of _ st], rule exI [of _ raw],
        rule exI [of _ order_state], rule exI [of _ journal], rule exI [of _ i], rule exI [of _ program_id])
      (use same plan(1) state own j(1) i d r in auto)
qed

section \<open>What an update aggregates\<close>

definition state_codec :: "batch_env \<Rightarrow> bool" where
  "state_codec env \<longleftrightarrow> (\<forall>st raw. be_state_encode env st = Some raw \<longrightarrow> be_state_decode env raw = Some st)"

lemma codec_decode:
  assumes "state_codec env" "into_backend_state env st = Inr raw"
  shows "be_state_decode env raw = Some st"
    "bs_version st \<le> RISC0_BATCH_STATE_VERSION \<Longrightarrow> from_backend_state env raw = Inr st"
  using assms by (simp_all add: state_codec_def into_backend_state_def from_backend_state_def res_simps)

lemma from_backend_state_version: "from_backend_state env raw = Inr st \<Longrightarrow> bs_version st \<le> RISC0_BATCH_STATE_VERSION"
  by (auto simp: from_backend_state_def res_simps split: if_splits)

definition old_claims :: "batch_env \<Rightarrow> bytes option \<Rightarrow> digest list" where
  "old_claims env state =
     (case state of None \<Rightarrow> [] | Some raw \<Rightarrow> (case from_backend_state env raw of Inr st \<Rightarrow> bs_claim_digests st | Inl _ \<Rightarrow> []))"

lemma prove_set_builder_claims:
  assumes "state_codec (rp_env p)" "prove_set_builder p state proofs finalize = Inr raw"
  obtains st where "from_backend_state (rp_env p) raw = Inr st"
    "bs_claim_digests st = old_claims (rp_env p) state @ map (\<lambda>v. be_claim_digest (rp_env p) (snd v)) (valid_proofs p proofs)"
proof -
  obtain st where st: "into_backend_state (rp_env p) st = Inr raw" "bs_version st = RISC0_BATCH_STATE_VERSION"
    "bs_claim_digests st = old_claims (rp_env p) state @ map (\<lambda>v. be_claim_digest (rp_env p) (snd v)) (valid_proofs p proofs)"
    using assms(2) unfolding prove_set_builder_def
    by (cases state) (auto simp: Let_def res_simps old_claims_def comp_def split: if_splits)
  then show thesis using codec_decode(2) [OF assms(1) st(1)] that by simp
qed

lemma risc0_update_Inr:
  assumes "state_codec (rp_env p)" "risc0_update_batch p cmd = Inr u"
  obtains skip proofs assessor agg st where
    "skip_assessor_guest p cmd = Inr skip" "aggregated_proofs p (ub_new_orders cmd) = Inr proofs"
    "assessor = None \<longleftrightarrow> \<not> ub_finalize cmd \<or> skip"
    "(if proofs @ (case assessor of Some i \<Rightarrow> [i] | None \<Rightarrow> []) = []
      then res_bind (case ub_state cmd of Some raw \<Rightarrow> from_backend_state (rp_env p) raw | None \<Rightarrow> Inr (empty_batch_state p))
             (into_backend_state (rp_env p))
      else prove_set_builder p (ub_state cmd) (proofs @ (case assessor of Some i \<Rightarrow> [i] | None \<Rightarrow> [])) (ub_finalize cmd)) = Inr agg"
    "from_backend_state (rp_env p) agg = Inr st"
    "from_backend_state (rp_env p) (bu_state u) = Inr (st\<lparr>bs_assessor_proof_id := assessor\<rparr>)" "bu_finalize u = ub_finalize cmd"
    "\<forall>i. assessor = Some i \<longrightarrow> prove_assessor p (ub_existing_orders cmd @ map bo_proving (ub_new_orders cmd)) = Inr i"
proof -
  obtain skip assessor proofs agg st raw where f: "skip_assessor_guest p cmd = Inr skip"
    "(if ub_finalize cmd \<and> \<not> skip
      then res_bind (prove_assessor p (ub_existing_orders cmd @ map bo_proving (ub_new_orders cmd))) (\<lambda>i. Inr (Some i))
      else Inr None) = Inr assessor"
    "aggregated_proofs p (ub_new_orders cmd) = Inr proofs"
    "(if proofs @ (case assessor of Some i \<Rightarrow> [i] | None \<Rightarrow> []) = []
      then res_bind (case ub_state cmd of Some raw \<Rightarrow> from_backend_state (rp_env p) raw | None \<Rightarrow> Inr (empty_batch_state p))
             (into_backend_state (rp_env p))
      else prove_set_builder p (ub_state cmd) (proofs @ (case assessor of Some i \<Rightarrow> [i] | None \<Rightarrow> [])) (ub_finalize cmd)) = Inr agg"
    "from_backend_state (rp_env p) agg = Inr st"
    "into_backend_state (rp_env p) (st\<lparr>bs_assessor_proof_id := assessor\<rparr>) = Inr raw"
    "u = \<lparr>bu_state = raw, bu_finalize = ub_finalize cmd\<rparr>"
    using assms(2) unfolding risc0_update_batch_def Let_def res_bind_Inr by auto
  have "assessor = None \<longleftrightarrow> \<not> ub_finalize cmd \<or> skip"
    and "\<forall>i. assessor = Some i \<longrightarrow> prove_assessor p (ub_existing_orders cmd @ map bo_proving (ub_new_orders cmd)) = Inr i"
    using f(2) by (auto simp: res_simps split: if_splits)
  moreover have "from_backend_state (rp_env p) raw = Inr (st\<lparr>bs_assessor_proof_id := assessor\<rparr>)"
    using codec_decode(2) [OF assms(1) f(6)] from_backend_state_version [OF f(5)] by simp
  ultimately show thesis using that [OF f(1) f(3) _ f(4,5)] f(7) by simp
qed

text \<open>What each proof contributes: the digest of the claim of its receipt, with the journal pruned, if there
  is a receipt, it is intact and it has a claim. An order contributes through the proof its stored
  state names, and only if that proof was not compressed.\<close>

definition receipt_claims :: "batch_env \<Rightarrow> string \<Rightarrow> digest list" where
  "receipt_claims env pid =
     (case be_get_receipt env 0 pid of
        Inr (Some receipt) \<Rightarrow>
          (case receipt_claim receipt of
             Some claim \<Rightarrow> if receipt_integrity receipt
                then [be_claim_digest env (prune_receipt_claim_journal (be_hash_bytes env) claim)] else []
           | None \<Rightarrow> [])
      | _ \<Rightarrow> [])"

definition order_claims :: "risc0_env \<Rightarrow> batch_env \<Rightarrow> BatchOrder \<Rightarrow> digest list" where
  "order_claims order_env env ord =
     (case pd_backend_state (bo_proving ord) of
        None \<Rightarrow> []
      | Some raw \<Rightarrow>
          (case risc0_order_state_decode order_env raw of
             Inl _ \<Rightarrow> []
           | Inr st \<Rightarrow> if compressed_proof_id st = None then receipt_claims env (proof_id st) else []))"

lemma valid_proofs_claims:
  "map (\<lambda>v. be_claim_digest (rp_env p) (snd v)) (valid_proofs p pids) = concat (map (receipt_claims (rp_env p)) pids)"
proof (induction pids)
  case (Cons pid pids)
  then show ?case
    by (cases "be_get_receipt (rp_env p) 0 pid")
      (auto simp: validate_and_extract_claim_def receipt_claims_def ok_or_def split: option.split)
qed simp

lemma aggregated_proofs_claims:
  "aggregated_proofs p ords = Inr pids \<Longrightarrow>
     concat (map (receipt_claims env) pids) = concat (map (order_claims (rp_order_env p) env) ords)"
  by (induction ords arbitrary: pids) (auto simp: res_simps order_claims_def)

lemma skip_assessor_guest_iff:
  assumes "skip_assessor_guest p cmd = Inr skip"
  shows "skip \<longleftrightarrow> (\<exists>req reqs. map (\<lambda>ord. pd_request (bo_proving ord)) (ub_new_orders cmd) @ map pd_request (ub_existing_orders cmd)
      = req # reqs \<and> assessor_selector_for_signed (rp_router_policy p) (req_selector (requirements req)) = Some ONCHAIN_ASSESSOR_SELECTOR)"
  using assms by (auto simp: skip_assessor_guest_def res_simps split: list.splits)

text \<open>C26: updating a batch keeps the claims of its stored state and appends, in order, the claim of each new
  order whose proof was not compressed and has an intact receipt with a claim, and at the end that
  of the assessor, which is proved over all orders of the batch exactly when the batch is finalized and the
  assessor of its first order is not the on-chain one. The codec of the state reads back what it wrote,
  and the update succeeds.\<close>

theorem update_batch_aggregates:
  assumes "state_codec (rp_env p)" "risc0_update_batch p cmd = Inr u"
  shows "\<exists>st. from_backend_state (rp_env p) (bu_state u) = Inr st
    \<and> (bs_assessor_proof_id st = None \<longleftrightarrow> \<not> ub_finalize cmd
        \<or> (\<exists>req reqs. map (\<lambda>ord. pd_request (bo_proving ord)) (ub_new_orders cmd) @ map pd_request (ub_existing_orders cmd) = req # reqs
             \<and> assessor_selector_for_signed (rp_router_policy p) (req_selector (requirements req)) = Some ONCHAIN_ASSESSOR_SELECTOR))
    \<and> (\<forall>i. bs_assessor_proof_id st = Some i \<longrightarrow>
         prove_assessor p (ub_existing_orders cmd @ map bo_proving (ub_new_orders cmd)) = Inr i)
    \<and> bs_claim_digests st = old_claims (rp_env p) (ub_state cmd)
         @ concat (map (order_claims (rp_order_env p) (rp_env p)) (ub_new_orders cmd))
         @ (case bs_assessor_proof_id st of Some i \<Rightarrow> receipt_claims (rp_env p) i | None \<Rightarrow> [])"
proof -
  let ?env = "rp_env p"
  obtain skip proofs assessor agg st where f: "skip_assessor_guest p cmd = Inr skip" "aggregated_proofs p (ub_new_orders cmd) = Inr proofs"
    "assessor = None \<longleftrightarrow> \<not> ub_finalize cmd \<or> skip"
    "(if proofs @ (case assessor of Some i \<Rightarrow> [i] | None \<Rightarrow> []) = []
      then res_bind (case ub_state cmd of Some raw \<Rightarrow> from_backend_state ?env raw | None \<Rightarrow> Inr (empty_batch_state p))
             (into_backend_state ?env)
      else prove_set_builder p (ub_state cmd) (proofs @ (case assessor of Some i \<Rightarrow> [i] | None \<Rightarrow> [])) (ub_finalize cmd)) = Inr agg"
    "from_backend_state ?env agg = Inr st" "from_backend_state ?env (bu_state u) = Inr (st\<lparr>bs_assessor_proof_id := assessor\<rparr>)"
    and assessor: "\<forall>i. assessor = Some i \<longrightarrow> prove_assessor p (ub_existing_orders cmd @ map bo_proving (ub_new_orders cmd)) = Inr i"
    by (rule risc0_update_Inr [OF assms])
  let ?proofs = "proofs @ (case assessor of Some i \<Rightarrow> [i] | None \<Rightarrow> [])"
  have "bs_claim_digests st = old_claims ?env (ub_state cmd) @ concat (map (receipt_claims ?env) ?proofs)"
  proof (cases "?proofs = []")
    case True
    then obtain st0 where st0: "(case ub_state cmd of Some raw \<Rightarrow> from_backend_state ?env raw | None \<Rightarrow> Inr (empty_batch_state p)) = Inr st0"
      "into_backend_state ?env st0 = Inr agg" using f(4) by (auto simp: res_simps)
    then have "st = st0" using codec_decode(1) [OF assms(1) st0(2)] f(5) by (auto simp: from_backend_state_def res_simps split: if_splits)
    moreover have "old_claims ?env (ub_state cmd) = bs_claim_digests st0"
      using st0(1) by (auto simp: old_claims_def empty_batch_state_def split: option.splits)
    ultimately show ?thesis using True by simp
  next
    case False
    then have "prove_set_builder p (ub_state cmd) ?proofs (ub_finalize cmd) = Inr agg" using f(4) by (simp only: if_False)
    then show ?thesis by (rule prove_set_builder_claims [OF assms(1)]) (use f(5) valid_proofs_claims in auto)
  qed
  then have "bs_claim_digests st = old_claims ?env (ub_state cmd)
      @ concat (map (order_claims (rp_order_env p) ?env) (ub_new_orders cmd))
      @ (case assessor of Some i \<Rightarrow> receipt_claims ?env i | None \<Rightarrow> [])"
    using aggregated_proofs_claims [OF f(2)] by (auto split: option.split)
  then show ?thesis using f(3,6) assessor skip_assessor_guest_iff [OF f(1)]
    by (intro exI [of _ "st\<lparr>bs_assessor_proof_id := assessor\<rparr>"]) simp
qed

section \<open>Finalizing without new proofs\<close>

text \<open>C27: a batch that has aggregated orders and is finalized when there is nothing new to aggregate (its
  age or a deadline is the reason) cannot be submitted under the on-chain assessor: the update
  skips the set builder, the aggregation stays open, the batch is closed all the same, and no
  fulfillments can be built from it.\<close>

theorem finalize_without_new_proofs_unsubmittable:
  assumes "state_codec (rp_env p)" "ub_new_orders cmd = []" "ub_existing_orders cmd = ord # ords"
    and "assessor_selector_for_signed (rp_router_policy p) (req_selector (requirements (pd_request ord))) = Some ONCHAIN_ASSESSOR_SELECTOR"
    and "ub_state cmd = Some raw" "from_backend_state (rp_env p) raw = Inr st" "bs_proof_id st = Some pid"
    and "\<not> be_guest_is_finalized (rp_env p) (bs_guest_state st)"
    and "risc0_update_batch p cmd = Inr u" "cb_state close = Some (bu_state u)" "risc0_close_batch p close = Inr result"
    and "rbb_env b = rp_env p" "fb_state submission = Some result"
  shows "risc0_build_fulfillments b submission = Inl Operation"
proof -
  let ?env = "rp_env p"
  have skip: "skip_assessor_guest p cmd = Inr True" using assms(2-4) by (simp add: skip_assessor_guest_def ok_or_def)
  obtain skip proofs assessor agg st1 where f0: "skip_assessor_guest p cmd = Inr skip"
    "aggregated_proofs p (ub_new_orders cmd) = Inr proofs" "assessor = None \<longleftrightarrow> \<not> ub_finalize cmd \<or> skip"
    "(if proofs @ (case assessor of Some i \<Rightarrow> [i] | None \<Rightarrow> []) = []
      then res_bind (case ub_state cmd of Some raw \<Rightarrow> from_backend_state ?env raw | None \<Rightarrow> Inr (empty_batch_state p))
             (into_backend_state ?env)
      else prove_set_builder p (ub_state cmd) (proofs @ (case assessor of Some i \<Rightarrow> [i] | None \<Rightarrow> [])) (ub_finalize cmd)) = Inr agg"
    "from_backend_state ?env agg = Inr st1" "from_backend_state ?env (bu_state u) = Inr (st1\<lparr>bs_assessor_proof_id := assessor\<rparr>)"
    by (rule risc0_update_Inr [OF assms(1,9)])
  have none: "assessor = None" "proofs = []" using f0(1-3) skip assms(2) by simp_all
  have "into_backend_state ?env st = Inr agg" using f0(4) none assms(5,6) by simp
  from codec_decode(2) [OF assms(1) this] have st1: "st1 = st" using f0(5) from_backend_state_version [OF assms(6)] by simp
  let ?st = "st\<lparr>bs_assessor_proof_id := None\<rparr>"
  have "from_backend_state ?env (bu_state u) = Inr ?st" using f0(6) none st1 by simp
  then obtain c where c: "into_backend_state ?env (?st\<lparr>bs_compressed_proof_id := Some c\<rparr>) = Inr result"
    using assms(7,10,11) by (auto simp: risc0_close_batch_def res_simps ok_or_def)
  have "from_backend_state ?env result = Inr (?st\<lparr>bs_compressed_proof_id := Some c\<rparr>)"
    using codec_decode(2) [OF assms(1) c] from_backend_state_version [OF assms(6)] by simp
  moreover have "verifier_updates_for ?env addr (?st\<lparr>bs_compressed_proof_id := Some c\<rparr>) = Inl Operation" for addr
    using assms(8) by (simp add: verifier_updates_for_def)
  ultimately show ?thesis
    using assms(12,13)
    by (cases "rbb_set_builder_program_id b"; cases "rbb_set_verifier_addr b")
      (simp_all add: risc0_build_fulfillments_def ok_or_def Let_def)
qed

section \<open>A batch with one order\<close>

definition open_state :: Risc0BatchState where
  "open_state = \<lparr>bs_version = 1, bs_guest_state = [0], bs_claim_digests = [[7]], bs_proof_id = Some ''sb'',
     bs_compressed_proof_id = None, bs_assessor_proof_id = None\<rparr>"

definition unfinished_state :: Risc0BatchState where
  "unfinished_state = open_state\<lparr>bs_compressed_proof_id := Some ''g16''\<rparr>"

definition finished_state :: Risc0BatchState where
  "finished_state = unfinished_state\<lparr>bs_guest_state := [1]\<rparr>"

definition sample_batch_env :: batch_env where
  "sample_batch_env =
     \<lparr>be_state_encode = (\<lambda>st. if st = open_state then Some [0] else if st = unfinished_state then Some [1]
        else if st = finished_state then Some [2] else None),
      be_state_decode = (\<lambda>raw. if raw = [0] then Some open_state else if raw = [1] then Some unfinished_state
        else if raw = [2] then Some finished_state else None),
      be_get_receipt = (\<lambda>_ _. Inr None), be_get_journal = (\<lambda>_. Inr (Some [])),
      be_get_compressed_receipt = (\<lambda>_. Inr (Some [])), be_get_blake3_groth16_receipt = (\<lambda>_. Inr None),
      be_groth16_seal = Some, be_blake3_groth16_seal = Some, be_dev_mode = False, be_upload_input = (\<lambda>_. Inr ''input''),
      be_prove_and_monitor_stark_high = (\<lambda>_ _ _ _. Inr ''sb''), be_verify = (\<lambda>_ _. True),
      be_compress_high = (\<lambda>_ _. Inr ''g16''), be_verify_groth16_receipt = (\<lambda>_ _. Inr ()), be_hash_bytes = (\<lambda>b. b),
      be_claim_digest = (\<lambda>_. [7]), be_claim_pruned = (\<lambda>_ _. [7]), be_guest_initial = (\<lambda>_. [0]),
      be_guest_into_input = (\<lambda>g _ _. Some g), be_guest_decode = Some, be_guest_is_finalized = (\<lambda>g. g = [1]),
      be_guest_finalized_root = (\<lambda>_. [7]), be_merkle_root = concat, be_merkle_path = (\<lambda>_ _. []),
      be_inclusion_params = (\<lambda>d. d), be_inclusion_seal = (\<lambda>_ d. Some d), be_assessor_journal_ok = (\<lambda>_. True),
      be_assessor_stdin = (\<lambda>_ _ _. []), be_abi_encode = (\<lambda>i j. i @ j), be_request_hash = (\<lambda>_ _. []),
      be_auth_hash = (\<lambda>_ _ _ _. [])\<rparr>"

definition sample_processor :: Risc0BatchProcessor where
  "sample_processor =
     \<lparr>rp_retry_count = 0, rp_env = sample_batch_env, rp_order_env = sample_env, rp_set_builder_guest_id = [1],
      rp_assessor_guest_id = [2], rp_market_addr = 1, rp_prover_addr = 2, rp_chain_id = 1,
      rp_router_policy = risc0_router_policy risc0_sample_registry 0x99 False\<rparr>"

definition sample_batch_backend :: Risc0BatchBackend where
  "sample_batch_backend =
     \<lparr>rbb_backend = risc0_new sample_env (\<lambda>_. False) risc0_sample_registry 0x99 False, rbb_env = sample_batch_env,
      rbb_set_builder_program_id = Some [1], rbb_set_verifier_addr = Some 5, rbb_set_verifier = None,
      rbb_batch_processor = Some sample_processor, rbb_prover_signer = Some (\<lambda>_. Inr [9]), rbb_prover_addr = Some 2,
      rbb_chain_id = 1\<rparr>"

definition proved_order :: OrderProvingData where
  "proved_order = \<lparr>pd_order_id = ''order'', pd_request = image_request, pd_client_sig = [], pd_image_id = None,
     pd_backend_state = Some (sample_encode \<lparr>version = 1, proof_id = ''stark'', compressed_proof_id = None\<rparr>)\<rparr>"

definition late_finalize :: UpdateBatch where
  "late_finalize = \<lparr>ub_batch_id = 1, ub_existing_orders = [proved_order], ub_state = Some [0], ub_new_orders = [],
     ub_finalize = True\<rparr>"

lemma states_differ: "open_state \<noteq> unfinished_state" "open_state \<noteq> finished_state" "unfinished_state \<noteq> finished_state"
  by (simp_all add: open_state_def unfinished_state_def finished_state_def)

lemma sample_state_codec: "state_codec sample_batch_env"
  using states_differ by (auto simp: state_codec_def sample_batch_env_def split: if_splits)

lemma sample_from_state:
  "from_backend_state sample_batch_env [0] = Inr open_state" "from_backend_state sample_batch_env [1] = Inr unfinished_state"
  "from_backend_state sample_batch_env [2] = Inr finished_state"
  by (simp_all add: from_backend_state_def sample_batch_env_def ok_or_def open_state_def unfinished_state_def
      finished_state_def RISC0_BATCH_STATE_VERSION_def)

lemma image_request_predicate:
  "req_selector (requirements image_request) = 0" "predicateType (predicate (requirements image_request)) = PrefixMatchType"
  by (simp_all add: image_request_def sample_order_def order_request_new_def requirements_new_def UNSPECIFIED_SELECTOR_def)

lemma sample_onchain:
  "assessor_selector_for_signed (risc0_router_policy risc0_sample_registry 0x99 False) 0 = Some ONCHAIN_ASSESSOR_SELECTOR"
proof -
  have "entries risc0_sample_registry 0x22 = Some \<lparr>implementation = 3, class_id = 0x20, gas_limit = 0\<rparr>"
    "required_assessor risc0_sample_registry 0x10 = Some 0x20" "default_class_id risc0_sample_registry = 0x10"
    by (simp_all add: risc0_sample_registry_def)
  then show ?thesis
    by (simp add: risc0_router_policy_def risc0_sample_policy assessor_selector_for_signed_def resolve_verifier_class_def
        assessor_for_verifier_class_def required_assessor_class_def ONCHAIN_ASSESSOR_SELECTOR_def UNSPECIFIED_SELECTOR_def)
qed

lemma sample_fields:
  "rp_env sample_processor = sample_batch_env" "rbb_env sample_batch_backend = sample_batch_env"
  "rp_router_policy sample_processor = risc0_router_policy risc0_sample_registry 0x99 False"
  by (simp_all add: sample_processor_def sample_batch_backend_def)

lemma late_finalize_update: "risc0_update_batch sample_processor late_finalize = Inr \<lparr>bu_state = [0], bu_finalize = True\<rparr>"
proof -
  have "skip_assessor_guest sample_processor late_finalize = Inr True"
    by (simp add: skip_assessor_guest_def late_finalize_def proved_order_def sample_fields image_request_predicate sample_onchain ok_or_def)
  moreover have "into_backend_state sample_batch_env open_state = Inr [0]"
    by (simp add: into_backend_state_def sample_batch_env_def ok_or_def)
  moreover have "open_state\<lparr>bs_assessor_proof_id := None\<rparr> = open_state" by (simp add: open_state_def)
  ultimately show ?thesis
    by (simp add: risc0_update_batch_def late_finalize_def sample_fields sample_from_state)
qed

text \<open>The first order of a batch: the batch has no state yet, and the order's proof has an intact receipt.\<close>

definition receipt_processor :: Risc0BatchProcessor where
  "receipt_processor = sample_processor\<lparr>rp_env := sample_batch_env\<lparr>be_get_receipt := (\<lambda>_ _. Inr (Some
     \<lparr>receipt_integrity = True, receipt_claim = Some \<lparr>claim_system = [3], claim_output = Pruned [4]\<rparr>, receipt_journal = [0]\<rparr>))\<rparr>\<rparr>"

definition first_update :: UpdateBatch where
  "first_update = \<lparr>ub_batch_id = 1, ub_existing_orders = [], ub_state = None,
     ub_new_orders = [\<lparr>bo_proving = proved_order, bo_expiration = 1300, bo_fee = 1,
       bo_fulfillment_type = LockAndFulfill, bo_request_id = 1, bo_lock_expiration = 1200\<rparr>],
     ub_finalize = False\<rparr>"

lemma first_decoded:
  "risc0_order_state_decode (rp_order_env receipt_processor)
     (sample_encode \<lparr>version = 1, proof_id = ''stark'', compressed_proof_id = None\<rparr>)
   = Inr \<lparr>version = 1, proof_id = ''stark'', compressed_proof_id = None\<rparr>"
proof -
  let ?st = "\<lparr>version = 1, proof_id = ''stark'', compressed_proof_id = None\<rparr>"
  have "json_decode sample_env (sample_encode ?st) = Some ?st" using sample_codec [of ?st] by (simp add: sample_env_def)
  then show ?thesis
    by (simp add: receipt_processor_def sample_processor_def risc0_order_state_decode_def ok_or_def RISC0_ORDER_STATE_VERSION_def)
qed

lemma first_update_done: "risc0_update_batch receipt_processor first_update = Inr \<lparr>bu_state = [0], bu_finalize = False\<rparr>"
proof -
  have skip: "skip_assessor_guest receipt_processor first_update = Inr True"
    by (simp add: skip_assessor_guest_def first_update_def proved_order_def receipt_processor_def sample_fields
        image_request_predicate sample_onchain ok_or_def)
  have agg: "aggregated_proofs receipt_processor (ub_new_orders first_update) = Inr [''stark'']"
    by (simp add: first_update_def proved_order_def ok_or_def first_decoded)
  have valid: "valid_proofs receipt_processor [''stark''] = [(''stark'', \<lparr>claim_system = [3], claim_output = Pruned [4]\<rparr>)]"
    by (simp add: validate_and_extract_claim_def receipt_processor_def ok_or_def prune_receipt_claim_journal_def)
  have st: "\<lparr>bs_version = 1, bs_guest_state = [0], bs_claim_digests = [[7]], bs_proof_id = Some ''sb'',
     bs_compressed_proof_id = None, bs_assessor_proof_id = None\<rparr> = open_state"
    by (simp add: open_state_def)
  have enc: "into_backend_state (rp_env receipt_processor) open_state = Inr [0]"
    and dec: "from_backend_state (rp_env receipt_processor) [0] = Inr open_state"
    by (simp_all add: into_backend_state_def from_backend_state_def receipt_processor_def sample_batch_env_def ok_or_def
        open_state_def RISC0_BATCH_STATE_VERSION_def)
  have "prove_set_builder receipt_processor None [''stark''] False = Inr [0]"
    unfolding prove_set_builder_def valid
    by (simp add: receipt_processor_def sample_processor_def sample_batch_env_def ok_or_def retry_with_context_def retry_impl_def
        set_builder_attempt_def RISC0_BATCH_STATE_VERSION_def st into_backend_state_def)
  moreover have "open_state\<lparr>bs_assessor_proof_id := None\<rparr> = open_state" by (simp add: open_state_def)
  ultimately show ?thesis
    by (simp add: risc0_update_batch_def Let_def skip agg) (simp add: first_update_def enc dec)
qed

theorem update_batch_aggregates_witness:
  "\<exists>u st. risc0_update_batch receipt_processor first_update = Inr u
     \<and> from_backend_state (rp_env receipt_processor) (bu_state u) = Inr st \<and> bs_claim_digests st = [[7]]"
proof -
  have "state_codec (rp_env receipt_processor)"
    using sample_state_codec by (simp add: state_codec_def receipt_processor_def)
  from update_batch_aggregates [OF this first_update_done] obtain st where
    st: "from_backend_state (rp_env receipt_processor) [0] = Inr st"
      "bs_assessor_proof_id st = None"
      "bs_claim_digests st = concat (map (order_claims (rp_order_env receipt_processor) (rp_env receipt_processor)) (ub_new_orders first_update))"
    by (auto simp: first_update_def old_claims_def)
  have "bs_claim_digests st = [[7]]"
    unfolding st(3)
    by (simp add: first_update_def order_claims_def proved_order_def first_decoded)
      (simp add: receipt_claims_def receipt_processor_def sample_batch_env_def)
  then show ?thesis using first_update_done st(1) by auto
qed

theorem finalize_without_new_proofs_unsubmittable_witness:
  "\<exists>u result submission. risc0_update_batch sample_processor late_finalize = Inr u
     \<and> risc0_close_batch sample_processor \<lparr>cb_batch_id = 0, cb_order_ids = [''order''], cb_state = Some (bu_state u)\<rparr> = Inr result
     \<and> fb_state submission = Some result \<and> risc0_build_fulfillments sample_batch_backend submission = Inl Operation"
proof -
  let ?close = "\<lparr>cb_batch_id = 0, cb_order_ids = [''order''], cb_state = Some [0]\<rparr>"
  let ?sub = "\<lparr>fb_backend_id = ''risc0_v3'', fb_state = Some [1], fb_eip712_domain = eip712_domain 1 1, fb_orders = []\<rparr>"
  have "compress_batch_proof sample_processor ''sb'' = Inr ''g16''"
    by (simp add: compress_batch_proof_def sample_processor_def sample_batch_env_def retry_with_context_def retry_impl_def)
  moreover have "into_backend_state sample_batch_env unfinished_state = Inr [1]"
    using states_differ(1) by (simp add: into_backend_state_def sample_batch_env_def ok_or_def)
  ultimately have close: "risc0_close_batch sample_processor ?close = Inr [1]"
    by (simp add: risc0_close_batch_def ok_or_def sample_fields sample_from_state unfinished_state_def)
      (simp add: open_state_def)
  have "risc0_build_fulfillments sample_batch_backend ?sub = Inl Operation"
    by (rule finalize_without_new_proofs_unsubmittable [where p = sample_processor and cmd = late_finalize and ord = proved_order
          and ords = "[]" and raw = "[0]" and st = open_state and pid = "''sb''" and u = "\<lparr>bu_state = [0], bu_finalize = True\<rparr>"
          and close = ?close and result = "[1]"])
      (simp_all add: sample_fields sample_state_codec late_finalize_update close sample_from_state,
       simp_all add: late_finalize_def proved_order_def image_request_predicate sample_onchain open_state_def sample_batch_env_def)
  then show ?thesis using late_finalize_update close by (intro exI conjI) auto
qed

definition finished_submission :: FulfillmentBatch where
  "finished_submission = \<lparr>fb_backend_id = rb_id (rbb_backend sample_batch_backend), fb_state = Some [2],
     fb_eip712_domain = eip712_domain 1 1,
     fb_orders = [\<lparr>fo_order_id = ''order'', fo_request = image_request, fo_program_id = [1],
       fo_backend_state = pd_backend_state proved_order\<rparr>]\<rparr>"

definition finished_artifact :: OrderFulfillmentArtifact where
  "finished_artifact = \<lparr>oa_order_id = ''order'', oa_request = image_request,
     oa_fulfillment = \<lparr>mf_claim_digest = [7], mf_fulfillment_data_type = ImageIdAndJournalType,
       mf_fulfillment_data = [1], mf_seal = [1]\<rparr>\<rparr>"

lemma sample_normalize: "normalize_selector (rbb_backend sample_batch_backend) 0 = 0"
  by (simp add: normalize_selector_def producible_selector_def sample_batch_backend_def risc0_new_def risc0_router_policy_def risc0_sample_policy)

lemma sample_not_root_proof: "\<not> is_groth16_selector 0" "\<not> is_blake3_groth16_selector 0"
  by (simp_all add: is_groth16_selector_def is_blake3_groth16_selector_def selector_ext_from_bytes_def
      selector_ext_try_from_def R0_GROTH16_BLAKE3_CLASS_ID_def)

lemma finished_fulfill:
  "fulfill_orders sample_batch_backend [1] [[7]]
     (map_of [(''order'', \<lparr>version = 1, proof_id = ''stark'', compressed_proof_id = None\<rparr>)]) (fb_orders finished_submission)
   = ([finished_artifact], [])"
proof -
  have "inclusion_seal sample_batch_env [1] [[7]] [7] = Inr [1]"
    by (simp add: inclusion_seal_def ok_or_def sample_batch_env_def)
  then show ?thesis
    by (simp add: finished_submission_def fulfill_order_def Let_def sample_fields image_request_predicate sample_normalize
        sample_not_root_proof ok_or_def fulfillment_payload_def finished_artifact_def)
      (simp add: sample_batch_env_def)
qed

lemma finished_updates: "verifier_updates_for sample_batch_env 5 finished_state = Inr [SubmitMerkleRoot 5 [7] []]"
  by (simp add: verifier_updates_for_def finished_state_def unfinished_state_def open_state_def Let_def encode_groth16_seal_def ok_or_def
      sample_batch_env_def)

lemma finished_seal:
  "\<exists>seal. batch_assessor_seal sample_batch_backend domain [1] finished_state 0 [finished_artifact] = Inr seal"
proof -
  have "entries (registry (risc0_router_policy risc0_sample_registry 0x99 False)) ONCHAIN_ASSESSOR_SELECTOR
    = Some \<lparr>implementation = 3, class_id = 0x20, gas_limit = 0\<rparr>"
    by (simp add: risc0_router_policy_def risc0_sample_policy ONCHAIN_ASSESSOR_SELECTOR_def)
      (simp add: risc0_sample_registry_def)
  then show ?thesis
    by (simp add: batch_assessor_seal_def Let_def sample_batch_backend_def risc0_new_def sample_onchain ok_or_def
        build_onchain_assessor_seal_def sign_fulfillment_batch_auth_def)
qed

lemma finished_states:
  "decode_order_states (rb_env (rbb_backend sample_batch_backend)) (fb_orders finished_submission)
   = Inr [(''order'', \<lparr>version = 1, proof_id = ''stark'', compressed_proof_id = None\<rparr>)]"
proof -
  let ?st = "\<lparr>version = 1, proof_id = ''stark'', compressed_proof_id = None\<rparr>"
  have "json_decode sample_env (sample_encode ?st) = Some ?st" using sample_codec [of ?st] by (simp add: sample_env_def)
  then show ?thesis
    by (simp add: finished_submission_def proved_order_def sample_batch_backend_def risc0_new_def risc0_order_state_decode_def
        ok_or_def RISC0_ORDER_STATE_VERSION_def)
qed

lemma finished_build:
  "\<exists>seal. risc0_build_fulfillments sample_batch_backend finished_submission = Inr
     \<lparr>sp_verifier_updates = [SubmitMerkleRoot 5 [7] []], sp_failed_orders = [], sp_orders = [finished_artifact],
      sp_assessor_seal = seal\<rparr>"
proof -
  obtain seal where "batch_assessor_seal sample_batch_backend (fb_eip712_domain finished_submission) [1] finished_state 0 [finished_artifact] = Inr seal"
    using finished_seal by blast
  moreover have "fb_state finished_submission = Some [2]" "bs_claim_digests finished_state = [[7]]"
    "fb_backend_id finished_submission = rb_id (rbb_backend sample_batch_backend)"
    "rbb_set_builder_program_id sample_batch_backend = Some [1]" "rbb_set_verifier_addr sample_batch_backend = Some 5"
    "(case fb_orders finished_submission of fo # _ \<Rightarrow> Some (req_selector (requirements (fo_request fo))) | [] \<Rightarrow> None) = Some 0"
    by (simp_all add: finished_submission_def finished_state_def unfinished_state_def open_state_def sample_batch_backend_def
        image_request_predicate)
  ultimately show ?thesis
    by (simp add: risc0_build_fulfillments_def ok_or_def sample_fields sample_from_state finished_updates finished_states
        finished_fulfill [simplified])
qed

theorem inclusion_seals_match_root_witness:
  "\<exists>plan seal st i. risc0_build_fulfillments sample_batch_backend finished_submission = Inr plan
     \<and> SubmitMerkleRoot 5 [7] seal \<in> set (sp_verifier_updates plan) \<and> finished_artifact \<in> set (sp_orders plan)
     \<and> from_backend_state sample_batch_env [2] = Inr st \<and> i < length (bs_claim_digests st)
     \<and> bs_claim_digests st ! i = [7] \<and> [7] = be_merkle_root sample_batch_env (bs_claim_digests st)"
proof -
  obtain seal where built: "risc0_build_fulfillments sample_batch_backend finished_submission = Inr
     \<lparr>sp_verifier_updates = [SubmitMerkleRoot 5 [7] []], sp_failed_orders = [], sp_orders = [finished_artifact],
      sp_assessor_seal = seal\<rparr>" (is "_ = Inr ?plan") using finished_build by blast
  have sel: "req_selector (requirements (oa_request finished_artifact)) = 0"
    by (simp add: finished_artifact_def image_request_predicate)
  have one: "finished_artifact \<in> set (sp_orders ?plan)" by simp
  have ids: "distinct (map fo_order_id (fb_orders finished_submission))" and raw: "fb_state finished_submission = Some [2]"
    by (simp_all add: finished_submission_def)
  have not_root:
    "\<not> is_groth16_selector (normalize_selector (rbb_backend sample_batch_backend) (req_selector (requirements (oa_request finished_artifact))))"
    "\<not> is_blake3_groth16_selector (normalize_selector (rbb_backend sample_batch_backend) (req_selector (requirements (oa_request finished_artifact))))"
    unfolding sel sample_normalize by (rule sample_not_root_proof)+
  have claim: "be_claim_pruned (rbb_env sample_batch_backend) x y = [7]" for x y
    by (simp add: sample_fields) (simp add: sample_batch_env_def)
  obtain fo :: FulfillmentOrder and batch_raw st journal i where "fb_state finished_submission = Some batch_raw"
    "from_backend_state (rbb_env sample_batch_backend) batch_raw = Inr st" "i < length (bs_claim_digests st)"
    "bs_claim_digests st ! i = be_claim_pruned (rbb_env sample_batch_backend) (fo_program_id fo) (be_hash_bytes (rbb_env sample_batch_backend) journal)"
    "\<forall>v root seal. SubmitMerkleRoot v root seal \<in> set (sp_verifier_updates ?plan) \<longrightarrow>
       root = be_merkle_root (rbb_env sample_batch_backend) (bs_claim_digests st)"
    using inclusion_seals_match_root [OF built one ids not_root] by (elim bexE exE conjE) (rule that, assumption+)
  then have "from_backend_state sample_batch_env [2] = Inr st" "i < length (bs_claim_digests st)" "bs_claim_digests st ! i = [7]"
    "[7] = be_merkle_root sample_batch_env (bs_claim_digests st)"
    unfolding claim using raw by (simp_all add: sample_fields)
  then show ?thesis using built by auto
qed

end
