(* ===== verification/Batcher.thy ===== *)
theory Batcher
  imports Pipeline Fulfillment Risc0Backend
begin

text \<open>
  The batcher, \<open>batcher/service.rs\<close>: it selects proved orders for the open batch of a backend, decides
  when the batch is complete, lets the backend aggregate and close it, and passes it to the
  submitter.

  The backends, the configuration and the clocks are the fields of \<open>batcher_env\<close>. A batch is
  identified to the database by its number; durations and telemetry are left out. A batch starts at
  a full second.
\<close>

section \<open>Environment\<close>

datatype BatcherErr = CompressionErr BackendFailure | BatcherUnexpectedErr

record batcher_config =
  bc_min_batch_size :: u32
  bc_batch_max_time :: u64
  bc_batch_max_fees :: "string option"
  bc_batch_max_journal_bytes :: nat
  bc_max_concurrent_proofs :: u32

record batcher_env =
  bv_chain_id :: u64
  bv_current_time :: u64
  bv_now :: u64
  bv_config :: "unit + batcher_config"
  bv_block_deadline_buffer_secs :: "unit + u64"
  bv_parse_ether :: "string \<Rightarrow> u256 option"
  bv_assessor_group :: "string \<Rightarrow> selector \<Rightarrow> BackendFailure + selector option"
  bv_estimate_batch_size :: "string \<Rightarrow> BatchSizeEstimateRequest \<Rightarrow> BackendFailure + nat"
  bv_update_batch :: "string \<Rightarrow> Fulfillment.UpdateBatch \<Rightarrow> BackendFailure + BatchUpdate"
  bv_close_batch :: "string \<Rightarrow> CloseBatch \<Rightarrow> BackendFailure + bytes"
  bv_error_text :: "BackendFailure \<Rightarrow> string"

text \<open>The context that is attached to an error turns it into an \<open>UnexpectedErr\<close>.\<close>

definition unexpected :: "('e + 'a) \<times> 's \<Rightarrow> (BatcherErr + 'a) \<times> 's" where
  "unexpected m = (case m of (Inl _, s) \<Rightarrow> (Inl BatcherUnexpectedErr, s) | (Inr x, s) \<Rightarrow> (Inr x, s))"

section \<open>Orders handed to a backend\<close>

definition order_proving_data :: "id_lib \<Rightarrow> Order \<Rightarrow> OrderProvingData" where
  "order_proving_data lib ord =
     \<lparr>pd_order_id = db_order_id lib ord, pd_request = db_request ord, pd_client_sig = db_client_sig ord,
      pd_image_id = db_image_id ord, pd_backend_state = db_backend_state ord\<rparr>"

fun proving_data_of :: "id_lib \<Rightarrow> (string \<rightharpoonup> Order) \<Rightarrow> string list \<Rightarrow> unit + OrderProvingData list" where
  "proving_data_of lib by_id [] = Inr []"
| "proving_data_of lib by_id (i # is) =
     res_bind (ok_or () (by_id i)) (\<lambda>ord.
     res_bind (proving_data_of lib by_id is) (\<lambda>rest. Inr (order_proving_data lib ord # rest)))"

definition fetch_proving_data ::
    "id_lib \<Rightarrow> string list \<Rightarrow> pipeline \<Rightarrow> (BatcherErr + OrderProvingData list) \<times> pipeline" where
  "fetch_proving_data lib ids p =
     db_bind (unexpected (in_db (get_orders ids) p)) (\<lambda>orders p.
       unexpected (proving_data_of lib (map_of (rev (map (\<lambda>ord. (db_order_id lib ord, ord)) orders))) ids, p))"

section \<open>When a batch is complete\<close>

definition target_batch_size :: "batcher_config \<Rightarrow> u32" where
  "target_batch_size cfg =
     (if bc_min_batch_size cfg > bc_max_concurrent_proofs cfg then bc_max_concurrent_proofs cfg
      else bc_min_batch_size cfg)"

definition batch_target_fees :: "batcher_env \<Rightarrow> batcher_config \<Rightarrow> unit + u256 option" where
  "batch_target_fees env cfg =
     (case bc_batch_max_fees cfg of
        None \<Rightarrow> Inr None
      | Some elm \<Rightarrow> res_bind (ok_or () (bv_parse_ether env elm)) (\<lambda>fees. Inr (Some fees)))"

definition earliest_deadline :: "Batch \<Rightarrow> BatchReadyOrder list \<Rightarrow> u64 option" where
  "earliest_deadline b pending =
     (case map br_expiration pending @ (case bt_deadline b of Some d \<Rightarrow> [d] | None \<Rightarrow> []) of
        [] \<Rightarrow> None
      | d # ds \<Rightarrow> Some (foldl min d ds))"

text \<open>The checks that need no answer of the backend, in the order of the code.\<close>

definition finalize_by_time_or_fees ::
    "batcher_env \<Rightarrow> batcher_config \<Rightarrow> u256 option \<Rightarrow> Batch \<Rightarrow> BatchReadyOrder list \<Rightarrow> BatcherErr + bool" where
  "finalize_by_time_or_fees env cfg target_fees b pending =
     (if bv_now env - bt_start_time b \<ge> bc_batch_max_time cfg then Inr True
      else if (case target_fees of Some t \<Rightarrow> foldl (\<lambda>sum r. sum + br_fee r) (bt_fees b) pending \<ge> t | None \<Rightarrow> False)
      then Inr True
      else case bv_block_deadline_buffer_secs env of
             Inl _ \<Rightarrow> Inl BatcherUnexpectedErr
           | Inr buf \<Rightarrow>
               Inr (case earliest_deadline b pending of
                      Some d \<Rightarrow> saturating_sub d (bv_now env) \<le> buf
                    | None \<Rightarrow> False))"

definition check_finalize ::
    "id_lib \<Rightarrow> batcher_env \<Rightarrow> string \<Rightarrow> Batch \<Rightarrow> BatchReadyOrder list \<Rightarrow> pipeline \<Rightarrow> (BatcherErr + bool) \<times> pipeline" where
  "check_finalize lib env bid b pending p =
     (case res_bind (bv_config env) (\<lambda>cfg. res_bind (batch_target_fees env cfg) (\<lambda>fees. Inr (cfg, fees))) of
        Inl _ \<Rightarrow> (Inl BatcherUnexpectedErr, p)
      | Inr (cfg, target_fees) \<Rightarrow>
          (if bt_backend_state b = None \<and> pending = [] then (Inr False, p)
           else if length (bt_orders b) + length pending \<ge> unat (target_batch_size cfg) then (Inr True, p)
           else
             db_bind (fetch_proving_data lib (bt_orders b) p) (\<lambda>existing p.
             db_bind (fetch_proving_data lib (map br_order_id pending) p) (\<lambda>new p.
               case bv_estimate_batch_size env bid
                      \<lparr>se_state = bt_backend_state b, se_existing_orders = existing, se_pending_orders = new\<rparr> of
                 Inl _ \<Rightarrow> (Inl BatcherUnexpectedErr, p)
               | Inr estimate \<Rightarrow>
                   (if estimate \<ge> bc_batch_max_journal_bytes cfg then (Inr True, p)
                    else (finalize_by_time_or_fees env cfg target_fees b pending, p))))))"

section \<open>Selection of orders\<close>

definition drop_order :: "batcher_env \<Rightarrow> string \<Rightarrow> string \<Rightarrow> pipeline \<Rightarrow> pipeline" where
  "drop_order env i reason p =
     try_send \<lparr>cc_order_id = i, cc_chain_id = bv_chain_id env, cc_outcome = ProvingFailed\<rparr>
       (snd (in_db (set_order_failure (bv_now env) i reason) p))"

definition should_check_fulfilled :: "u64 \<Rightarrow> BatchReadyOrder \<Rightarrow> bool" where
  "should_check_fulfilled current_time r =
     (case br_fulfillment_type r of
        LockAndFulfill \<Rightarrow> current_time \<ge> br_lock_expiration r
      | FulfillAfterLockExpire \<Rightarrow> True
      | FulfillWithoutLocking \<Rightarrow> True)"

fun filter_non_actionable_orders ::
    "batcher_env \<Rightarrow> (BatchReadyOrder \<times> OrderStatus) list \<Rightarrow> pipeline \<Rightarrow> (BatchReadyOrder \<times> OrderStatus) list \<times> pipeline" where
  "filter_non_actionable_orders env [] p = ([], p)"
| "filter_non_actionable_orders env ((r, st) # rest) p =
     (if br_expiration r < bv_current_time env then
        filter_non_actionable_orders env rest (drop_order env (br_order_id r) ''Expired before backend batch processing'' p)
      else
        (let (fulfilled, p) = (if should_check_fulfilled (bv_current_time env) r
                               then in_db (is_request_fulfilled (br_request_id r)) p else (Inr False, p)) in
         if fulfilled = Inr True then
           filter_non_actionable_orders env rest (drop_order env (br_order_id r) ''Fulfilled before backend batch processing'' p)
         else
           (let (kept, p) = filter_non_actionable_orders env rest p in ((r, st) # kept, p))))"

fun resolve_assessor_groups ::
    "batcher_env \<Rightarrow> string \<Rightarrow> (BatchReadyOrder \<times> OrderStatus) list \<Rightarrow> pipeline
      \<Rightarrow> (BatchReadyOrder \<times> OrderStatus \<times> selector option) list \<times> pipeline" where
  "resolve_assessor_groups env bid [] p = ([], p)"
| "resolve_assessor_groups env bid ((r, st) # rest) p =
     (case bv_assessor_group env bid (br_selector r) of
        Inr g \<Rightarrow> (let (resolved, p) = resolve_assessor_groups env bid rest p in ((r, st, g) # resolved, p))
      | Inl _ \<Rightarrow> resolve_assessor_groups env bid rest (drop_order env (br_order_id r) ''No resolvable assessor group'' p))"

definition batch_assessor_group ::
    "id_lib \<Rightarrow> batcher_env \<Rightarrow> string \<Rightarrow> Batch \<Rightarrow> pipeline \<Rightarrow> (BatcherErr + selector option) \<times> pipeline" where
  "batch_assessor_group lib env bid b p =
     (case bt_orders b of
        [] \<Rightarrow> (Inr None, p)
      | first # _ \<Rightarrow>
          db_bind (fetch_proving_data lib [first] p) (\<lambda>orders p.
            case orders of
              [] \<Rightarrow> (Inl BatcherUnexpectedErr, p)
            | d # _ \<Rightarrow> unexpected (bv_assessor_group env bid (req_selector (requirements (pd_request d))), p)))"

fun find_group :: "(BatchReadyOrder \<times> OrderStatus \<times> selector option) list \<Rightarrow> selector option" where
  "find_group [] = None"
| "find_group ((_, _, Some g) # _) = Some g"
| "find_group ((_, _, None) # rest) = find_group rest"

fun requeue_other_groups ::
    "batcher_env \<Rightarrow> string \<Rightarrow> selector option \<Rightarrow> (BatchReadyOrder \<times> OrderStatus \<times> selector option) list \<Rightarrow> pipeline
      \<Rightarrow> (BatcherErr + BatchReadyOrder list) \<times> pipeline" where
  "requeue_other_groups env bid target [] p = (Inr [], p)"
| "requeue_other_groups env bid target ((r, st, g) # rest) p =
     (if target = None \<or> g = target then
        db_bind (requeue_other_groups env bid target rest p) (\<lambda>matching p. (Inr (r # matching), p))
      else if st = Batching then
        db_bind (unexpected (in_db (set_order_batch_status (bv_now env) (br_order_id r) ReadyForBatch bid) p)) (\<lambda>_ p.
          requeue_other_groups env bid target rest p)
      else requeue_other_groups env bid target rest p)"

definition claim_batch_group ::
    "batcher_env \<Rightarrow> string \<Rightarrow> selector option \<Rightarrow> (BatchReadyOrder \<times> OrderStatus \<times> selector option) list \<Rightarrow> pipeline
      \<Rightarrow> (BatcherErr + BatchReadyOrder list) \<times> pipeline" where
  "claim_batch_group env bid target resolved p =
     db_bind (requeue_other_groups env bid target resolved p) (\<lambda>matching p.
     db_bind (unexpected (in_db (claim_orders_for_batch (bv_now env) (map br_order_id matching) bid) p)) (\<lambda>claimed p.
       (Inr (filter (\<lambda>r. br_order_id r \<in> set claimed) matching), p)))"

definition filter_direct_target_group ::
    "selector option \<Rightarrow> (BatchReadyOrder \<times> OrderStatus \<times> selector option) list \<Rightarrow> BatchReadyOrder list" where
  "filter_direct_target_group target resolved =
     map fst (filter (\<lambda>(r, st, g). target = None \<or> g = target) resolved)"

definition select_open_batch_orders ::
    "id_lib \<Rightarrow> batcher_env \<Rightarrow> string \<Rightarrow> Batch \<Rightarrow> pipeline
      \<Rightarrow> (BatcherErr + BatchReadyOrder list \<times> BatchReadyOrder list) \<times> pipeline" where
  "select_open_batch_orders lib env bid b p =
     db_bind (unexpected (in_db (peek_pending_batch_orders bid) p)) (\<lambda>batch_peek p.
     db_bind (unexpected (in_db (peek_pending_direct_submission_orders bid) p)) (\<lambda>direct_peek p.
     let (batch_ready, p) = filter_non_actionable_orders env batch_peek p;
         (direct_ready, p) = filter_non_actionable_orders env direct_peek p;
         (resolved_batch, p) = resolve_assessor_groups env bid batch_ready p;
         (resolved_direct, p) = resolve_assessor_groups env bid direct_ready p
     in db_bind (batch_assessor_group lib env bid b p) (\<lambda>group p.
        let target = (case group of Some g \<Rightarrow> Some g | None \<Rightarrow> find_group (resolved_batch @ resolved_direct)) in
        db_bind (claim_batch_group env bid target resolved_batch p) (\<lambda>kept_update p.
          (Inr (kept_update, filter_direct_target_group target resolved_direct), p)))))"

section \<open>Processing a batch\<close>

definition batch_order :: "OrderProvingData \<times> BatchReadyOrder \<Rightarrow> BatchOrder" where
  "batch_order dr =
     (let (d, r) = dr in
      \<lparr>bo_proving = d, bo_expiration = br_expiration r, bo_fee = br_fee r, bo_fulfillment_type = br_fulfillment_type r,
       bo_request_id = br_request_id r, bo_lock_expiration = br_lock_expiration r\<rparr>)"

definition update_backend_batch ::
    "id_lib \<Rightarrow> batcher_env \<Rightarrow> string \<Rightarrow> nat \<Rightarrow> Batch \<Rightarrow> BatchReadyOrder list \<Rightarrow> BatchReadyOrder list \<Rightarrow> bool \<Rightarrow> pipeline
      \<Rightarrow> (BatcherErr + unit) \<times> pipeline" where
  "update_backend_batch lib env bid n b update_orders direct_orders finalize p =
     (let ready = update_orders @ direct_orders in
      db_bind (fetch_proving_data lib (map br_order_id ready) p) (\<lambda>new p.
      db_bind (if finalize then fetch_proving_data lib (bt_orders b) p else (Inr [], p)) (\<lambda>existing p.
        case bv_update_batch env bid
               \<lparr>ub_batch_id = n, ub_existing_orders = existing, ub_state = bt_backend_state b,
                ub_new_orders = map batch_order (zip new ready), ub_finalize = finalize\<rparr> of
          Inl _ \<Rightarrow> (Inl BatcherUnexpectedErr, p)
        | Inr u \<Rightarrow> unexpected (in_db (update_batch (bv_now env) n (bu_state u) ready (bu_finalize u)) p))))"

definition process_open_batch ::
    "id_lib \<Rightarrow> batcher_env \<Rightarrow> string \<Rightarrow> nat \<Rightarrow> Batch \<Rightarrow> pipeline \<Rightarrow> (BatcherErr + bool) \<times> pipeline" where
  "process_open_batch lib env bid n b p =
     db_bind (select_open_batch_orders lib env bid b p) (\<lambda>(update_orders, direct_orders) p.
     db_bind (check_finalize lib env bid b (update_orders @ direct_orders) p) (\<lambda>finalize p.
       if \<not> finalize \<and> update_orders = [] then (Inr False, p)
       else db_bind (update_backend_batch lib env bid n b update_orders direct_orders finalize p) (\<lambda>_ p.
              (Inr finalize, p))))"

definition close_backend_batch ::
    "batcher_env \<Rightarrow> string \<Rightarrow> nat \<Rightarrow> pipeline \<Rightarrow> (BatcherErr + unit) \<times> pipeline" where
  "close_backend_batch env bid n p =
     db_bind (unexpected (in_db (get_batch n) p)) (\<lambda>b p.
       case bv_close_batch env bid \<lparr>cb_batch_id = n, cb_order_ids = bt_orders b, cb_state = bt_backend_state b\<rparr> of
         Inl err \<Rightarrow>
           db_bind (unexpected (in_db (set_batch_failure n (bv_error_text env err)) p)) (\<lambda>_ p. (Inl (CompressionErr err), p))
       | Inr state \<Rightarrow> unexpected (in_db (complete_batch n state) p))"

definition process_backend_batch ::
    "id_lib \<Rightarrow> batcher_env \<Rightarrow> string \<Rightarrow> pipeline \<Rightarrow> (BatcherErr + unit) \<times> pipeline" where
  "process_backend_batch lib env bid p =
     db_bind (unexpected (in_db (get_current_batch (bv_now env) bid) p)) (\<lambda>n p.
     db_bind (unexpected (in_db (get_batch n) p)) (\<lambda>b p.
     db_bind (case bt_status b of
                Open \<Rightarrow> process_open_batch lib env bid n b p
              | PendingCompression \<Rightarrow> (Inr True, p)
              | _ \<Rightarrow> (Inl BatcherUnexpectedErr, p)) (\<lambda>compress p.
       if compress then close_backend_batch env bid n p else (Inr (), p))))"

text \<open>Each backend is processed with the answers at its turn; a failure of one does not keep the
  others from being processed.\<close>

definition process_batches :: "id_lib \<Rightarrow> (string \<Rightarrow> batcher_env) \<Rightarrow> string list \<Rightarrow> pipeline \<Rightarrow> pipeline" where
  "process_batches lib envs backend_ids p = fold (\<lambda>bid p. snd (process_backend_batch lib (envs bid) bid p)) backend_ids p"

section \<open>Frames\<close>

text \<open>What decides the assessor of a batch: the selectors of the orders and which orders a batch holds.\<close>

definition selector_in :: "broker_db \<Rightarrow> string \<Rightarrow> selector option" where
  "selector_in db i = map_option (\<lambda>ord. req_selector (requirements (db_request ord))) (map_of (db_orders db) i)"

definition batch_view :: "broker_db \<Rightarrow> (nat \<times> string \<times> string list) list" where
  "batch_view db = map (\<lambda>(n, b). (n, bt_backend_id b, bt_orders b)) (db_batches db)"

definition quiet :: "id_lib \<Rightarrow> pipeline \<Rightarrow> pipeline \<Rightarrow> bool" where
  "quiet lib p p' \<longleftrightarrow> db_grows lib (pl_db p) (pl_db p') \<and> selector_in (pl_db p') = selector_in (pl_db p)
     \<and> batch_view (pl_db p') = batch_view (pl_db p)"

named_theorems quiet_ops

lemma quiet_refl [simp]: "quiet lib p p"
  by (simp add: quiet_def)

lemma quiet_trans: "quiet lib p q \<Longrightarrow> quiet lib q r \<Longrightarrow> quiet lib p r"
  unfolding quiet_def by (metis db_grows_trans)

lemma quiet_send [simp]: "quiet lib p (try_send c q) \<longleftrightarrow> quiet lib p q"
  by (simp add: quiet_def)

lemma quiet_bind:
  assumes "quiet lib p (snd m)" "\<And>x q. m = (Inr x, q) \<Longrightarrow> quiet lib q (snd (f x q))"
  shows "quiet lib p (snd (db_bind m f))"
  using assms quiet_trans by (cases m; cases "fst m") fastforce+

lemma snd_unexpected [simp]: "snd (unexpected m) = snd m"
  by (auto simp: unexpected_def split: prod.splits sum.splits)

lemma unexpected_Inr [simp]: "unexpected m = (Inr x, s) \<longleftrightarrow> m = (Inr x, s)"
  by (auto simp: unexpected_def split: prod.splits sum.splits)

lemma view_faults [simp]:
  "selector_in (db\<lparr>db_faults := fs\<rparr>) = selector_in db" "batch_view (db\<lparr>db_faults := fs\<rparr>) = batch_view db"
  by (simp_all add: selector_in_def [abs_def] batch_view_def)

lemma quiet_statement:
  assumes "\<And>db. db_grows lib db (snd (sql db))"
    and "\<And>db. selector_in (snd (sql db)) = selector_in db \<and> batch_view (snd (sql db)) = batch_view db"
  shows "quiet lib p (snd (in_db (statement sql) p))"
proof -
  have "selector_in (snd (statement sql (pl_db p))) = selector_in (pl_db p)
      \<and> batch_view (snd (statement sql (pl_db p))) = batch_view (pl_db p)"
    using assms(2) by (cases rule: statement_cases [of sql "pl_db p"]) simp_all
  then show ?thesis using grows_statement [of lib sql "pl_db p", OF assms(1)] by (simp add: quiet_def)
qed

lemma selector_in_update_where:
  assumes "\<And>ord. db_request (f ord) = db_request ord"
  shows "selector_in (db\<lparr>db_orders := update_where P f (db_orders db)\<rparr>) = selector_in db"
  by (rule ext) (simp add: selector_in_def map_of_update_where option.map_comp comp_def assms if_distrib cong: if_cong)

lemma batch_view_update_where:
  assumes "\<And>b. bt_backend_id (f b) = bt_backend_id b \<and> bt_orders (f b) = bt_orders b"
  shows "batch_view (db\<lparr>db_batches := update_where P f (db_batches db)\<rparr>) = batch_view db"
  by (auto simp: batch_view_def update_where_def assms)

lemma quiet_update_order:
  assumes "\<And>ord. accepted (f ord) = accepted ord" "\<And>ord. db_request (f ord) = db_request ord"
  shows "quiet lib p (snd (in_db (statement (update_order i f)) p))"
  by (rule quiet_statement [OF grows_update_order [of f, OF assms(1)]])
    (simp add: update_order_def selector_in_update_where [of f, OF assms(2)] batch_view_def)

lemma quiet_update_batch_row:
  assumes "\<And>b. batch_grows b (f b) \<and> bt_orders (f b) = bt_orders b"
  shows "quiet lib p (snd (in_db (statement (update_batch_row n f)) p))"
proof (rule quiet_statement [OF grows_update_batch_row [of f, OF assms]])
  have "batch_view (db\<lparr>db_batches := update_where P f (db_batches db)\<rparr>) = batch_view db" for P and db :: broker_db
    by (rule batch_view_update_where) (use assms in \<open>simp add: batch_grows_def\<close>)
  then show "selector_in (snd (update_batch_row n f db)) = selector_in db \<and> batch_view (snd (update_batch_row n f db)) = batch_view db" for db
    by (simp add: update_batch_row_def selector_in_def [abs_def])
qed

lemma quiet_read [quiet_ops]: "(\<And>db. snd (sql db) = db) \<Longrightarrow> quiet lib p (snd (in_db (statement sql) p))"
  by (rule quiet_statement) simp_all

lemma quiet_failure [quiet_ops]: "quiet lib p (snd (in_db (set_order_failure now i msg) p))"
  unfolding set_order_failure_def by (rule quiet_update_order) simp_all

lemma quiet_batch_status [quiet_ops]: "quiet lib p (snd (in_db (set_order_batch_status now i st bid) p))"
  unfolding set_order_batch_status_def by (rule quiet_update_order) simp_all

lemma quiet_complete_batch [quiet_ops]: "quiet lib p (snd (in_db (complete_batch n state) p))"
  unfolding complete_batch_def by (rule quiet_update_batch_row) (simp add: batch_grows_def)

lemma quiet_batch_failure [quiet_ops]: "quiet lib p (snd (in_db (set_batch_failure n msg) p))"
  unfolding set_batch_failure_def by (rule quiet_update_batch_row) (simp add: batch_grows_def)

lemma quiet_get_batch [quiet_ops]: "quiet lib p (snd (in_db (get_batch n) p))"
  unfolding get_batch_def by (rule quiet_read) simp

lemma quiet_fulfilled [quiet_ops]: "quiet lib p (snd (in_db (is_request_fulfilled rid) p))"
  unfolding is_request_fulfilled_def by (rule quiet_read) simp

lemma quiet_peek [quiet_ops]:
  "quiet lib p (snd (in_db (peek_pending_batch_orders bid) p))"
  "quiet lib p (snd (in_db (peek_pending_direct_submission_orders bid) p))"
  unfolding peek_pending_batch_orders_def peek_pending_direct_submission_orders_def by (rule quiet_read, simp)+

lemma in_db_id: "quiet lib p (snd (in_db (\<lambda>db. (r, db)) p))"
  by (simp add: in_db_def)

lemma quiet_get_orders [quiet_ops]: "quiet lib p (snd (in_db (get_orders ids) p))"
proof (cases "ids = []")
  case True
  then have "get_orders ids = (\<lambda>db. (Inr [], db))" by (simp add: get_orders_def [abs_def])
  then show ?thesis by (simp only: in_db_id)
next
  case False
  then have "get_orders ids = statement (\<lambda>db. (Inr (map snd (rows_where (\<lambda>k _. k \<in> set ids) (db_orders db))), db))"
    by (simp add: get_orders_def [abs_def])
  then show ?thesis by (simp only:) (rule quiet_read, simp)
qed

lemma quiet_claim [quiet_ops]: "quiet lib p (snd (in_db (claim_orders_for_batch now ids bid) p))"
proof (cases "ids = []")
  case True
  then have "claim_orders_for_batch now ids bid = (\<lambda>db. (Inr [], db))" by (simp add: claim_orders_for_batch_def [abs_def])
  then show ?thesis by (simp only: in_db_id)
next
  case False
  define f :: "Order \<Rightarrow> Order" where "f = (\<lambda>ord. ord\<lparr>db_status := Batching, db_backend_id := Some bid, db_updated_at := now\<rparr>)"
  let ?sql = "\<lambda>db. let claimable = (\<lambda>i ord. i \<in> set ids \<and> waiting_for_batch bid ord) in
        (Inr (map fst (rows_where claimable (db_orders db))),
         db\<lparr>db_orders := update_where claimable f (db_orders db)\<rparr>)"
  have eq: "claim_orders_for_batch now ids bid = statement ?sql"
    using False by (simp add: claim_orders_for_batch_def [abs_def] f_def)
  have "quiet lib p (snd (in_db (statement ?sql) p))"
  proof (rule quiet_statement)
    show "db_grows lib db (snd (?sql db))" for db
      using grows_update_where [of f] by (simp add: Let_def f_def)
    show "selector_in (snd (?sql db)) = selector_in db \<and> batch_view (snd (?sql db)) = batch_view db" for db
      using selector_in_update_where [of f] by (simp add: Let_def f_def batch_view_def)
  qed
  then show ?thesis unfolding eq .
qed

lemma quiet_drop [quiet_ops]: "quiet lib p (drop_order env i reason p)"
  by (simp add: drop_order_def quiet_failure del: in_db_simps)

lemma quiet_fetch [quiet_ops]: "quiet lib p (snd (fetch_proving_data lib ids p))"
  unfolding fetch_proving_data_def by (rule quiet_bind) (simp_all add: quiet_get_orders del: in_db_simps)

lemma quiet_check_finalize [quiet_ops]: "quiet lib p (snd (check_finalize lib env bid b pending p))"
proof (cases "res_bind (bv_config env) (\<lambda>cfg. res_bind (batch_target_fees env cfg) (\<lambda>fees. Inr (cfg, fees)))")
  case (Inr cf)
  obtain cfg fees where cf: "cf = (cfg, fees)" by (rule prod.exhaust)
  have "quiet lib p (snd (db_bind (fetch_proving_data lib (bt_orders b) p) (\<lambda>existing p.
             db_bind (fetch_proving_data lib (map br_order_id pending) p) (\<lambda>new p.
               case bv_estimate_batch_size env bid
                      \<lparr>se_state = bt_backend_state b, se_existing_orders = existing, se_pending_orders = new\<rparr> of
                 Inl _ \<Rightarrow> (Inl BatcherUnexpectedErr, p)
               | Inr estimate \<Rightarrow>
                   (if estimate \<ge> bc_batch_max_journal_bytes cfg then (Inr True, p)
                    else (finalize_by_time_or_fees env cfg fees b pending, p))))))"
    by (intro quiet_bind quiet_fetch) (simp split: sum.split)
  then show ?thesis using Inr cf by (simp add: check_finalize_def)
qed (simp add: check_finalize_def)

lemma filter_non_actionable_quiet:
  "quiet lib p (snd (filter_non_actionable_orders env orders p))
   \<and> set (fst (filter_non_actionable_orders env orders p)) \<subseteq> set orders"
proof (induction env orders p rule: filter_non_actionable_orders.induct)
  case (2 env r st rest p)
  let ?i = "br_order_id r"
  show ?case
  proof (cases "br_expiration r < bv_current_time env")
    case True
    then show ?thesis using 2(1) [OF True] quiet_trans [OF quiet_drop] by auto
  next
    case False
    obtain f q where f: "(if should_check_fulfilled (bv_current_time env) r
                               then in_db (is_request_fulfilled (br_request_id r)) p else (Inr False, p)) = (f, q)"
      by (rule prod.exhaust)
    then have q: "quiet lib p q"
      using quiet_fulfilled [of lib p "br_request_id r"] by (cases "should_check_fulfilled (bv_current_time env) r") auto
    show ?thesis
    proof (cases "f = Inr True")
      case True
      then show ?thesis
        using 2(2) [OF False f [symmetric] refl True] quiet_trans [OF quiet_trans [OF q quiet_drop]] False f
        by (auto simp: Let_def)
    next
      case no: False
      then show ?thesis using 2(3) [OF False f [symmetric] refl no] quiet_trans [OF q] False f by (auto simp: Let_def split: prod.splits)
    qed
  qed
qed simp

lemma resolve_quiet:
  "quiet lib p (snd (resolve_assessor_groups env bid orders p))
   \<and> (\<forall>(r, st, g)\<in>set (fst (resolve_assessor_groups env bid orders p)).
        (r, st) \<in> set orders \<and> bv_assessor_group env bid (br_selector r) = Inr g)"
proof (induction env bid orders p rule: resolve_assessor_groups.induct)
  case (2 env bid r st rest p)
  show ?case
  proof (cases "bv_assessor_group env bid (br_selector r)")
    case (Inl e)
    then show ?thesis using 2(1) [OF Inl] quiet_trans [OF quiet_drop] by auto
  next
    case (Inr g)
    then show ?thesis using 2(2) [OF Inr] by (auto split: prod.splits)
  qed
qed simp

lemma requeue_quiet:
  "quiet lib p (snd (requeue_other_groups env bid target resolved p))
   \<and> (\<forall>matching. fst (requeue_other_groups env bid target resolved p) = Inr matching \<longrightarrow>
        (\<forall>r\<in>set matching. \<exists>st g. (r, st, g) \<in> set resolved \<and> (target = None \<or> g = target)))"
proof (induction env bid target resolved p rule: requeue_other_groups.induct)
  case (2 env bid target r st g rest p)
  consider (match) "target = None \<or> g = target" | (requeue) "\<not> (target = None \<or> g = target)" "st = Batching"
    | (leave) "\<not> (target = None \<or> g = target)" "st \<noteq> Batching" by blast
  then show ?case
  proof cases
    case match
    obtain x q where x: "requeue_other_groups env bid target rest p = (x, q)" by (rule prod.exhaust)
    show ?thesis using 2(1) [OF match] match x by (cases x) fastforce+
  next
    case requeue
    obtain x q where x: "in_db (set_order_batch_status (bv_now env) (br_order_id r) ReadyForBatch bid) p = (x, q)"
      by (rule prod.exhaust)
    have q: "quiet lib p q" using quiet_batch_status x by (metis snd_conv)
    show ?thesis
    proof (cases x)
      case (Inl e)
      then show ?thesis using requeue x q by (auto simp: unexpected_def)
    next
      case (Inr u)
      have "quiet lib q (snd (requeue_other_groups env bid target rest q))" and
        "\<forall>matching. fst (requeue_other_groups env bid target rest q) = Inr matching \<longrightarrow>
          (\<forall>r\<in>set matching. \<exists>st g. (r, st, g) \<in> set rest \<and> (target = None \<or> g = target))"
        using 2(2) [OF requeue] by blast+
      then show ?thesis using requeue x quiet_trans [OF q] Inr by (auto simp: unexpected_def)
    qed
  next
    case leave
    then show ?thesis using 2(3) [OF leave] by auto
  qed
qed simp

lemma claim_group_quiet:
  "quiet lib p (snd (claim_batch_group env bid target resolved p))"
  "fst (claim_batch_group env bid target resolved p) = Inr kept \<Longrightarrow> r \<in> set kept \<Longrightarrow>
     \<exists>st g. (r, st, g) \<in> set resolved \<and> (target = None \<or> g = target)"
proof -
  note R = requeue_quiet [of lib p env bid target resolved]
  show "quiet lib p (snd (claim_batch_group env bid target resolved p))"
    unfolding claim_batch_group_def by (intro quiet_bind) (simp_all add: R quiet_claim del: in_db_simps)
  assume k: "fst (claim_batch_group env bid target resolved p) = Inr kept" and r: "r \<in> set kept"
  obtain q where "claim_batch_group env bid target resolved p = (Inr kept, q)" using k by (metis prod.collapse)
  then obtain matching q1 where "requeue_other_groups env bid target resolved p = (Inr matching, q1)" "set kept \<subseteq> set matching"
    by (auto simp: claim_batch_group_def db_bind_Inr)
  then show "\<exists>st g. (r, st, g) \<in> set resolved \<and> (target = None \<or> g = target)" using R r by auto
qed

lemma batch_ready_orders_rows:
  assumes "batch_ready_orders rows = Inr rs" "(r, st) \<in> set rs"
  shows "\<exists>ord. (br_order_id r, ord) \<in> set rows \<and> br_selector r = req_selector (requirements (db_request ord))"
  using assms
proof (induction rows arbitrary: rs)
  case (Cons row rows)
  obtain i ord where row: "row = (i, ord)" by (rule prod.exhaust)
  obtain r0 rs0 where r0: "batch_ready_order row = Inr r0" "batch_ready_orders rows = Inr rs0" "rs = (r0, db_status ord) # rs0"
    using Cons.prems(1) by (auto simp: res_simps row)
  show ?case
  proof (cases "r = r0")
    case True
    then show ?thesis using r0(1) by (auto simp: batch_ready_order_def res_simps row)
  next
    case False
    then have "(r, st) \<in> set rs0" using Cons.prems(2) r0(3) by simp
    then show ?thesis using Cons.IH [OF r0(2)] by auto
  qed
qed simp

lemma peek_selector:
  assumes "db_ok lib (pl_db p)"
    and "in_db (peek_pending_batch_orders bid) p = (Inr rs, q) \<or> in_db (peek_pending_direct_submission_orders bid) p = (Inr rs, q)"
    and "(r, st) \<in> set rs"
  shows "selector_in (pl_db p) (br_order_id r) = Some (br_selector r)"
proof -
  obtain P where "batch_ready_orders (rows_where P (db_orders (pl_db p))) = Inr rs"
    using assms(2)
    by (auto simp: in_db_def peek_pending_batch_orders_def peek_pending_direct_submission_orders_def split: prod.splits elim!: statement_Inr)
  then obtain ord where "(br_order_id r, ord) \<in> set (rows_where P (db_orders (pl_db p)))"
    and ord: "br_selector r = req_selector (requirements (db_request ord))"
    using batch_ready_orders_rows assms(3) by blast
  then have "(br_order_id r, ord) \<in> set (db_orders (pl_db p))" by (simp add: rows_where_def)
  then have "map_of (db_orders (pl_db p)) (br_order_id r) = Some ord"
    using assms(1) by (simp add: db_ok_def)
  then show ?thesis by (simp add: selector_in_def ord)
qed

lemma fetch_first:
  assumes "db_ok lib (pl_db p)" "fetch_proving_data lib [i] p = (Inr ds, q)"
  obtains d :: OrderProvingData where "ds = [d]" "selector_in (pl_db p) i = Some (req_selector (requirements (pd_request d)))"
proof -
  obtain orders q1 where o: "in_db (get_orders [i]) p = (Inr orders, q1)"
    and ds: "proving_data_of lib (map_of (rev (map (\<lambda>ord. (db_order_id lib ord, ord)) orders))) [i] = Inr ds"
    using assms(2) by (auto simp: fetch_proving_data_def db_bind_Inr)
  obtain ord where ord: "map_of (rev (map (\<lambda>ord. (db_order_id lib ord, ord)) orders)) i = Some ord" "ds = [order_proving_data lib ord]"
    using ds by (auto simp: res_simps)
  have "(i, ord) \<in> set (rev (map (\<lambda>ord. (db_order_id lib ord, ord)) orders))" by (rule map_of_SomeD [OF ord(1)])
  then have i: "ord \<in> set orders" "i = db_order_id lib ord" by auto
  have "orders = map snd (rows_where (\<lambda>k _. k \<in> {i}) (db_orders (pl_db p)))"
    using o by (auto simp: in_db_def get_orders_def split: prod.splits elim!: statement_Inr)
  then obtain k where k: "(k, ord) \<in> set (db_orders (pl_db p))" using i(1) by (auto simp: rows_where_def)
  then have "k = i" using assms(1) i(2) unfolding db_ok_def by blast
  then have "map_of (db_orders (pl_db p)) i = Some ord" using k assms(1) by (simp add: db_ok_def)
  then show ?thesis by (intro that [OF ord(2)]) (simp add: selector_in_def order_proving_data_def)
qed

section \<open>A batch has one assessor\<close>

text \<open>What the batcher relies on: a backend groups all its orders by assessor, or none.\<close>

locale assessor_grouping =
  fixes group :: "string \<Rightarrow> selector \<Rightarrow> BackendFailure + selector option"
  assumes uniform: "(\<forall>s. group bid s \<noteq> Inr None) \<or> (\<forall>s g. group bid s \<noteq> Inr (Some g))"
begin

text \<open>The target and the orders kept for it agree with each other and with what the batch holds.\<close>

lemma one_group:
  assumes "\<forall>s\<in>held. group bid s = Inr h"
    and "held \<noteq> {} \<Longrightarrow> \<exists>s\<in>held. \<exists>t. group bid s = Inr t \<and> (t \<noteq> None \<longrightarrow> target = t)"
    and "\<forall>s\<in>kept. \<exists>g. group bid s = Inr g \<and> (target = None \<longrightarrow> g = None) \<and> (target = None \<or> g = target)"
  shows "\<exists>g. \<forall>s\<in>held \<union> kept. group bid s = Inr g"
proof (cases "\<forall>s g. group bid s \<noteq> Inr (Some g)")
  case True
  then have "group bid s = Inr None" if "s \<in> held \<union> kept" for s
    using that assms(1,3) by (metis Un_iff option.exhaust)
  then show ?thesis by blast
next
  case False
  then have some: "\<forall>s. group bid s \<noteq> Inr None" using uniform [of bid] by blast
  have kept: "\<forall>s\<in>kept. group bid s = Inr target" using assms(3) by blast
  show ?thesis
  proof (cases "held = {}")
    case False
    then obtain s t where s: "s \<in> held" "group bid s = Inr t" "t \<noteq> None \<Longrightarrow> target = t" using assms(2) by blast
    have "t = h" using assms(1) s(1,2) by auto
    moreover have "t \<noteq> None" using s(2) some by (cases t) auto
    ultimately have "h = target" using s(3) by simp
    then show ?thesis using assms(1) kept by auto
  qed (use kept in auto)
qed

end

interpretation risc0_groups: assessor_grouping "\<lambda>_. risc0_assessor_group b" for b
  by unfold_locales (simp add: risc0_assessor_group_def res_simps)

definition single_group :: "(string \<Rightarrow> selector \<Rightarrow> BackendFailure + selector option) \<Rightarrow> broker_db \<Rightarrow> bool" where
  "single_group grp db \<longleftrightarrow>
     (\<forall>(n, bid, is)\<in>set (batch_view db). \<exists>g. \<forall>i\<in>set is. \<exists>s. selector_in db i = Some s \<and> grp bid s = Inr g)"

lemma single_group_quiet: "quiet lib p q \<Longrightarrow> single_group grp (pl_db p) \<Longrightarrow> single_group grp (pl_db q)"
  by (simp add: quiet_def single_group_def)

lemma find_group_None: "find_group xs = None \<longleftrightarrow> (\<forall>(r, st, g)\<in>set xs. g = None)"
  by (induction xs rule: find_group.induct) auto

lemma batch_assessor_group_Inr:
  assumes "db_ok lib (pl_db p)" "batch_assessor_group lib env bid b p = (Inr t, q)"
  shows "quiet lib p q" "bt_orders b = [] \<Longrightarrow> t = None"
    "bt_orders b = i # is \<Longrightarrow> \<exists>s. selector_in (pl_db p) i = Some s \<and> bv_assessor_group env bid s = Inr t"
proof -
  show "bt_orders b = [] \<Longrightarrow> t = None" using assms(2) by (simp add: batch_assessor_group_def)
  have "quiet lib p q \<and> (\<exists>s. selector_in (pl_db p) i = Some s \<and> bv_assessor_group env bid s = Inr t)"
    if c: "bt_orders b = i # is" for i "is"
  proof -
    obtain ds q1 where ds: "fetch_proving_data lib [i] p = (Inr ds, q1)"
      and r: "(case ds of [] \<Rightarrow> (Inl BatcherUnexpectedErr, q1)
            | d # _ \<Rightarrow> unexpected (bv_assessor_group env bid (req_selector (requirements (pd_request d))), q1)) = (Inr t, q)"
      using assms(2) c by (auto simp: batch_assessor_group_def db_bind_Inr)
    obtain d :: OrderProvingData where d: "ds = [d]" "selector_in (pl_db p) i = Some (req_selector (requirements (pd_request d)))"
      by (rule fetch_first [OF assms(1) ds])
    have "quiet lib p q1" using quiet_fetch [of lib p "[i]"] ds by simp
    then show ?thesis using r d by simp
  qed
  then show "quiet lib p q" "bt_orders b = i # is \<Longrightarrow> \<exists>s. selector_in (pl_db p) i = Some s \<and> bv_assessor_group env bid s = Inr t"
    using assms(2) by (cases "bt_orders b"; fastforce simp: batch_assessor_group_def)+
qed

text \<open>The steps of a selection that succeeds.\<close>

lemma select_steps:
  assumes "select_open_batch_orders lib env bid b p = (Inr (ups, dirs), q)"
  obtains bp dp bready dready rb rd t target p1 p2 p3 p4 p5 p6 p7 where
    "in_db (peek_pending_batch_orders bid) p = (Inr bp, p1)"
    "in_db (peek_pending_direct_submission_orders bid) p1 = (Inr dp, p2)"
    "filter_non_actionable_orders env bp p2 = (bready, p3)" "filter_non_actionable_orders env dp p3 = (dready, p4)"
    "resolve_assessor_groups env bid bready p4 = (rb, p5)" "resolve_assessor_groups env bid dready p5 = (rd, p6)"
    "batch_assessor_group lib env bid b p6 = (Inr t, p7)"
    "target = (case t of Some g \<Rightarrow> Some g | None \<Rightarrow> find_group (rb @ rd))"
    "claim_batch_group env bid target rb p7 = (Inr ups, q)" "dirs = filter_direct_target_group target rd"
proof -
  let ?claim = "\<lambda>rb rd group p. let target = (case group of Some g \<Rightarrow> Some g | None \<Rightarrow> find_group (rb @ rd)) in
        db_bind (claim_batch_group env bid target rb p) (\<lambda>kept_update p.
          (Inr (kept_update, filter_direct_target_group target rd), p))"
  let ?rest = "\<lambda>bp dp p. let (batch_ready, p) = filter_non_actionable_orders env bp p;
         (direct_ready, p) = filter_non_actionable_orders env dp p;
         (resolved_batch, p) = resolve_assessor_groups env bid batch_ready p;
         (resolved_direct, p) = resolve_assessor_groups env bid direct_ready p
     in db_bind (batch_assessor_group lib env bid b p) (?claim resolved_batch resolved_direct)"
  obtain bp p1 dp p2 where s12: "in_db (peek_pending_batch_orders bid) p = (Inr bp, p1)"
      "in_db (peek_pending_direct_submission_orders bid) p1 = (Inr dp, p2)" and r2: "?rest bp dp p2 = (Inr (ups, dirs), q)"
    using assms unfolding select_open_batch_orders_def db_bind_Inr unexpected_Inr by blast
  obtain bready p3 where s3: "filter_non_actionable_orders env bp p2 = (bready, p3)" by (rule prod.exhaust)
  obtain dready p4 where s4: "filter_non_actionable_orders env dp p3 = (dready, p4)" by (rule prod.exhaust)
  obtain rb p5 where s5: "resolve_assessor_groups env bid bready p4 = (rb, p5)" by (rule prod.exhaust)
  obtain rd p6 where s6: "resolve_assessor_groups env bid dready p5 = (rd, p6)" by (rule prod.exhaust)
  obtain t p7 where s7: "batch_assessor_group lib env bid b p6 = (Inr t, p7)" and r7: "?claim rb rd t p7 = (Inr (ups, dirs), q)"
    using r2 unfolding s3 s4 s5 s6 Let_def prod.case db_bind_Inr by blast
  then show thesis
    by (intro that [OF s12 s3 s4 s5 s6 s7 refl]) (auto simp: Let_def db_bind_Inr)
qed

text \<open>The orders selected for a batch are known to the database with their selectors, and fit the target.\<close>

lemma select_Inr:
  assumes "select_open_batch_orders lib env bid b p = (Inr (ups, dirs), q)" "db_ok lib (pl_db p)"
  obtains target rs t where "quiet lib p q"
    "\<forall>r\<in>set ups \<union> set dirs. \<exists>st g. (r, st, g) \<in> set rs \<and> (target = None \<or> g = target)"
    "\<forall>(r, st, g)\<in>set rs. selector_in (pl_db p) (br_order_id r) = Some (br_selector r) \<and> bv_assessor_group env bid (br_selector r) = Inr g"
    "target = (case t of Some g \<Rightarrow> Some g | None \<Rightarrow> find_group rs)"
    "\<And>i is. bt_orders b = i # is \<Longrightarrow> \<exists>s. selector_in (pl_db p) i = Some s \<and> bv_assessor_group env bid s = Inr t"
  using assms(1)
proof (rule select_steps)
  fix bp dp bready dready rb rd t target p1 p2 p3 p4 p5 p6 p7
  assume s: "in_db (peek_pending_batch_orders bid) p = (Inr bp, p1)"
    "in_db (peek_pending_direct_submission_orders bid) p1 = (Inr dp, p2)"
    "filter_non_actionable_orders env bp p2 = (bready, p3)" "filter_non_actionable_orders env dp p3 = (dready, p4)"
    "resolve_assessor_groups env bid bready p4 = (rb, p5)" "resolve_assessor_groups env bid dready p5 = (rd, p6)"
    and s7: "batch_assessor_group lib env bid b p6 = (Inr t, p7)" and target: "target = (case t of Some g \<Rightarrow> Some g | None \<Rightarrow> find_group (rb @ rd))"
    and s8: "claim_batch_group env bid target rb p7 = (Inr ups, q)" and dirs: "dirs = filter_direct_target_group target rd"
  have q1: "quiet lib p p1" using quiet_peek(1) [of lib p bid] s(1) by simp
  have q2: "quiet lib p1 p2" using quiet_peek(2) [of lib p1 bid] s(2) by simp
  have q3: "quiet lib p2 p3" "set bready \<subseteq> set bp" using filter_non_actionable_quiet [of lib p2 env bp] s(3) by simp_all
  have q4: "quiet lib p3 p4" "set dready \<subseteq> set dp" using filter_non_actionable_quiet [of lib p3 env dp] s(4) by simp_all
  note R = resolve_quiet [of lib p4 env bid bready] resolve_quiet [of lib p5 env bid dready]
  have q16: "quiet lib p p6"
    using quiet_trans [OF q1 quiet_trans [OF q2 quiet_trans [OF q3(1) quiet_trans [OF q4(1) quiet_trans [of lib p4 p5 p6]]]]] R s(5,6) by simp
  have keep: "db_ok lib (pl_db x)" "selector_in (pl_db x) = selector_in (pl_db p)" if "quiet lib p x" for x
    using that assms(2) by (simp_all add: quiet_def db_grows_def)
  note G = batch_assessor_group_Inr [OF keep(1) [OF q16] s7]
  have q8: "quiet lib p7 q" using claim_group_quiet(1) [of lib p7 env bid target rb] s8 by simp
  have "selector_in (pl_db p) (br_order_id r) = Some (br_selector r)" if "(r, st) \<in> set bready \<union> set dready" for r st
    using that q3(2) q4(2) peek_selector [OF assms(2) disjI1 [OF s(1)], of r st]
      peek_selector [OF keep(1) [OF q1] disjI2 [OF s(2)], of r st] keep(2) [OF q1] by auto
  then have known: "\<forall>(r, st, g)\<in>set (rb @ rd). selector_in (pl_db p) (br_order_id r) = Some (br_selector r)
      \<and> bv_assessor_group env bid (br_selector r) = Inr g"
    using R s(5,6) by fastforce
  have "\<exists>st g. (r, st, g) \<in> set (rb @ rd) \<and> (target = None \<or> g = target)" if "r \<in> set ups" for r
    using claim_group_quiet(2) [of env bid target rb p7 ups r] s8 that by auto
  moreover have "\<exists>st g. (r, st, g) \<in> set (rb @ rd) \<and> (target = None \<or> g = target)" if d: "r \<in> set dirs" for r
  proof -
    obtain st g where "(r, st, g) \<in> set rd" "target = None \<or> g = target" using d by (auto simp: dirs filter_direct_target_group_def)
    then show ?thesis by (intro exI [of _ st] exI [of _ g]) simp
  qed
  ultimately have kept: "\<forall>r\<in>set ups \<union> set dirs. \<exists>st g. (r, st, g) \<in> set (rb @ rd) \<and> (target = None \<or> g = target)" by blast
  show thesis
    by (rule that [OF quiet_trans [OF q16 quiet_trans [OF G(1) q8]] kept known target])
      (use G(3) keep(2) [OF q16] in auto)
qed

lemma view_tables:
  assumes "tables a = tables b"
  shows "selector_in a = selector_in b \<and> batch_view a = batch_view b"
  using tables_eqD [OF assms] by (simp add: selector_in_def [abs_def] batch_view_def)

lemma batch_view_iff:
  "(k, x, is) \<in> set (batch_view db) \<longleftrightarrow> (\<exists>b. (k, b) \<in> set (db_batches db) \<and> x = bt_backend_id b \<and> is = bt_orders b)"
  by (force simp: batch_view_def)

lemma update_batch_single_group:
  assumes "single_group grp db" "distinct (map fst (db_batches db))" "(n, bid, held) \<in> set (batch_view db)"
    and "\<forall>i\<in>set held \<union> br_order_id ` set rs. \<exists>s. selector_in db i = Some s \<and> grp bid s = Inr g"
  shows "single_group grp (snd (update_batch now n state rs finalize db))"
proof (cases "update_batch now n state rs finalize db")
  case (Pair x db')
  show ?thesis
  proof (cases x)
    case (Inl e)
    then show ?thesis using view_tables [OF update_batch_Inl, of now n state rs finalize db e db'] Pair assms(1)
      by (simp add: single_group_def)
  next
    case (Inr u)
    obtain b where "tables db' = tables (batch_added now n b state rs finalize db)"
      by (rule update_batch_Inr [OF Pair [unfolded Inr]])
    note V = view_tables [OF this]
    have sel: "selector_in db' = selector_in db"
      unfolding conjunct1 [OF V] by (rule ext) (simp add: batch_added_def selector_in_def map_of_update_where option.map_comp comp_def batched_def if_distrib cong: if_cong)
    have rows: "(k, x, is) \<in> set (batch_view db) \<or>
        (\<exists>is0. (k, x, is0) \<in> set (batch_view db) \<and> k = n \<and> is = is0 @ map br_order_id rs)"
      if v: "(k, x, is) \<in> set (batch_view db')" for k x "is"
    proof -
      obtain b' where "(k, b') \<in> set (db_batches (batch_added now n b state rs finalize db))" "x = bt_backend_id b'" "is = bt_orders b'"
        using v unfolding conjunct2 [OF V] batch_view_iff by blast
      then obtain b0 where "(k, b0) \<in> set (db_batches db)" "x = bt_backend_id b0"
        "is = bt_orders b0 \<or> k = n \<and> is = bt_orders b0 @ map br_order_id rs"
        by (auto simp: batch_added_def update_where_def split: if_splits)
      then show ?thesis unfolding batch_view_iff by blast
    qed
    have held: "x = bid \<and> is0 = held" if "(n, x, is0) \<in> set (batch_view db)" for x is0
      using that assms(3) eq_key_imp_eq_value [OF assms(2)] unfolding batch_view_iff by blast
    have "\<exists>g. \<forall>i\<in>set is. \<exists>s. selector_in db i = Some s \<and> grp x s = Inr g" if v: "(k, x, is) \<in> set (batch_view db')" for k x "is"
    proof (cases "(k, x, is) \<in> set (batch_view db)")
      case True
      then show ?thesis using assms(1) unfolding single_group_def by blast
    next
      case False
      then obtain is0 where "(n, x, is0) \<in> set (batch_view db)" "is = is0 @ map br_order_id rs" using rows [OF v] by blast
      then have "x = bid" "set is = set held \<union> br_order_id ` set rs" using held by auto
      then show ?thesis using assms(4) by blast
    qed
    then show ?thesis unfolding single_group_def Pair snd_conv sel by blast
  qed
qed

definition batches_ok :: "id_lib \<Rightarrow> (string \<Rightarrow> selector \<Rightarrow> BackendFailure + selector option) \<Rightarrow> pipeline \<Rightarrow> bool" where
  "batches_ok lib grp p \<longleftrightarrow> db_ok lib (pl_db p) \<and> single_group grp (pl_db p)"

lemma batches_ok_quiet:
  assumes "batches_ok lib grp p" "quiet lib p q"
  shows "batches_ok lib grp q"
  using single_group_quiet [OF assms(2)] assms by (simp add: batches_ok_def quiet_def db_grows_def)

lemma quiet_bind_keeps:
  assumes "quiet lib p (snd m)" "\<And>q. quiet lib p q \<Longrightarrow> P q"
    and "\<And>x q. m = (Inr x, q) \<Longrightarrow> quiet lib p q \<Longrightarrow> P (snd (f x q))"
  shows "P (snd (db_bind m f))"
  using assms by (cases m; cases "fst m") auto

lemma quiet_batch_group [quiet_ops]: "quiet lib p (snd (batch_assessor_group lib env bid b p))"
  unfolding batch_assessor_group_def
  by (cases "bt_orders b") (auto intro!: quiet_bind quiet_fetch split: list.split)

lemma quiet_select [quiet_ops]: "quiet lib p (snd (select_open_batch_orders lib env bid b p))"
proof -
  have F: "quiet lib p (snd (filter_non_actionable_orders env rs p))" and R: "quiet lib p (snd (resolve_assessor_groups env bid rs p))" for rs p
    using filter_non_actionable_quiet resolve_quiet by blast+
  have "quiet lib p (snd (db_bind (batch_assessor_group lib env bid b (snd (resolve_assessor_groups env bid rs4
      (snd (resolve_assessor_groups env bid rs3 (snd (filter_non_actionable_orders env rs2 (snd (filter_non_actionable_orders env rs1 p))))))))) f))"
    if "\<And>x q. quiet lib q (snd (f x q))" for rs1 rs2 rs3 rs4 p and f :: "_ \<Rightarrow> pipeline \<Rightarrow> (BatcherErr + _) \<times> _"
    by (rule quiet_trans [OF F quiet_trans [OF F quiet_trans [OF R quiet_trans [OF R quiet_bind]]]]) (rule quiet_batch_group, rule that)
  note rest = this
  show ?thesis
    unfolding select_open_batch_orders_def Let_def case_prod_unfold
    by (rule quiet_bind, simp add: quiet_peek del: in_db_simps, rule quiet_bind, simp add: quiet_peek del: in_db_simps,
        rule rest, rule quiet_bind, rule claim_group_quiet(1), simp)
qed

lemma update_backend_group:
  assumes "batches_ok lib grp p" "(n, bid, held) \<in> set (batch_view (pl_db p))"
    and "\<forall>i\<in>set held \<union> br_order_id ` set (ups @ dirs). \<exists>s. selector_in (pl_db p) i = Some s \<and> grp bid s = Inr g"
  shows "batches_ok lib grp (snd (update_backend_batch lib env bid n b ups dirs finalize p))"
proof -
  have upd: "batches_ok lib grp (snd (in_db (update_batch now n state (ups @ dirs) fin) q))" if q: "quiet lib p q" for now state fin q
  proof -
    have ok: "batches_ok lib grp q" by (rule batches_ok_quiet [OF assms(1) q])
    have "single_group grp (snd (update_batch now n state (ups @ dirs) fin (pl_db q)))"
      by (rule update_batch_single_group) (use ok q assms(2,3) in \<open>simp_all add: batches_ok_def quiet_def db_ok_def\<close>)
    moreover have "db_ok lib (snd (update_batch now n state (ups @ dirs) fin (pl_db q)))"
      using grows_update_batch [of lib "pl_db q" now n state "ups @ dirs" fin] ok by (simp add: batches_ok_def db_grows_def)
    ultimately show ?thesis by (simp add: batches_ok_def)
  qed
  note keep = batches_ok_quiet [OF assms(1)]
  show ?thesis
    unfolding update_backend_batch_def Let_def
  proof (rule quiet_bind_keeps [OF quiet_fetch keep], assumption)
    fix new q assume q: "quiet lib p q"
    show "batches_ok lib grp (snd (db_bind (if finalize then fetch_proving_data lib (bt_orders b) q else (Inr [], q)) (\<lambda>existing p.
        case bv_update_batch env bid
               \<lparr>ub_batch_id = n, ub_existing_orders = existing, ub_state = bt_backend_state b,
                ub_new_orders = map batch_order (zip new (ups @ dirs)), ub_finalize = finalize\<rparr> of
          Inl _ \<Rightarrow> (Inl BatcherUnexpectedErr, p)
        | Inr u \<Rightarrow> unexpected (in_db (update_batch (bv_now env) n (bu_state u) (ups @ dirs) (bu_finalize u)) p))))"
      by (rule quiet_bind_keeps [of lib q])
        (use quiet_fetch upd keep quiet_trans [OF q] in \<open>auto split: sum.split simp del: in_db_simps\<close>)
  qed
qed

lemma selected_one_group:
  assumes "assessor_grouping (bv_assessor_group env)" "batches_ok lib (bv_assessor_group env) p"
    and "(n, bid, bt_orders b) \<in> set (batch_view (pl_db p))"
    and sel: "select_open_batch_orders lib env bid b p = (Inr (ups, dirs), q)"
  obtains g where "\<forall>i\<in>set (bt_orders b) \<union> br_order_id ` set (ups @ dirs).
      \<exists>s. selector_in (pl_db p) i = Some s \<and> bv_assessor_group env bid s = Inr g"
proof -
  let ?grp = "bv_assessor_group env"
  have ok: "db_ok lib (pl_db p)" using assms(2) by (simp add: batches_ok_def)
  obtain target rs t where S: "\<forall>r\<in>set ups \<union> set dirs. \<exists>st g. (r, st, g) \<in> set rs \<and> (target = None \<or> g = target)"
    "\<forall>(r, st, g)\<in>set rs. selector_in (pl_db p) (br_order_id r) = Some (br_selector r) \<and> ?grp bid (br_selector r) = Inr g"
    "target = (case t of Some g \<Rightarrow> Some g | None \<Rightarrow> find_group rs)"
    "\<And>i is. bt_orders b = i # is \<Longrightarrow> \<exists>s. selector_in (pl_db p) i = Some s \<and> ?grp bid s = Inr t"
    by (rule select_Inr [OF sel ok]) (rule that)
  have t: "t \<noteq> None \<Longrightarrow> target = t" "target = None \<Longrightarrow> find_group rs = None" using S(3) by (auto split: option.splits)
  let ?held = "(\<lambda>i. the (selector_in (pl_db p) i)) ` set (bt_orders b)" and ?kept = "br_selector ` (set ups \<union> set dirs)"
  obtain h where h: "\<forall>i\<in>set (bt_orders b). \<exists>s. selector_in (pl_db p) i = Some s \<and> ?grp bid s = Inr h"
    using assms(2,3) unfolding batches_ok_def single_group_def by blast
  have "\<exists>s\<in>?held. \<exists>t. ?grp bid s = Inr t \<and> (t \<noteq> None \<longrightarrow> target = t)" if ne: "?held \<noteq> {}"
  proof -
    obtain i "is" where c: "bt_orders b = i # is" using ne by (cases "bt_orders b") auto
    then obtain s where "selector_in (pl_db p) i = Some s" "?grp bid s = Inr t" using S(4) by blast
    then show ?thesis using t(1) c by auto
  qed
  moreover have "\<exists>g. ?grp bid s = Inr g \<and> (target = None \<longrightarrow> g = None) \<and> (target = None \<or> g = target)" if s: "s \<in> ?kept" for s
  proof -
    obtain r st g where r: "s = br_selector r" "(r, st, g) \<in> set rs" "target = None \<or> g = target" using S(1) s by blast
    moreover have "?grp bid (br_selector r) = Inr g" using S(2) r(2) by blast
    moreover have "target = None \<Longrightarrow> g = None" using t(2) r(2) unfolding find_group_None by blast
    ultimately show ?thesis by blast
  qed
  moreover have "\<forall>s\<in>?held. ?grp bid s = Inr h" using h by force
  ultimately obtain g where g: "\<forall>s\<in>?held \<union> ?kept. ?grp bid s = Inr g"
    using assessor_grouping.one_group [OF assms(1), of ?held bid h target ?kept] by blast
  have "\<exists>s. selector_in (pl_db p) i = Some s \<and> s \<in> ?held \<union> ?kept" if i: "i \<in> set (bt_orders b) \<union> br_order_id ` set (ups @ dirs)" for i
  proof (cases "i \<in> set (bt_orders b)")
    case True
    then show ?thesis using h by force
  next
    case False
    then obtain r where r: "i = br_order_id r" "r \<in> set ups \<union> set dirs" using i by auto
    then obtain st g where "(r, st, g) \<in> set rs" using S(1) by blast
    then have "selector_in (pl_db p) i = Some (br_selector r)" using S(2) r(1) by blast
    then show ?thesis using r(2) by blast
  qed
  then show thesis using g by (intro that [of g]) blast
qed

lemma open_batch_group:
  assumes "assessor_grouping (bv_assessor_group env)" "batches_ok lib (bv_assessor_group env) p"
    and "(n, bid, bt_orders b) \<in> set (batch_view (pl_db p))"
  shows "batches_ok lib (bv_assessor_group env) (snd (process_open_batch lib env bid n b p))"
  unfolding process_open_batch_def
proof (rule quiet_bind_keeps [OF quiet_select batches_ok_quiet [OF assms(2)]], assumption)
  let ?ok = "batches_ok lib (bv_assessor_group env)"
  note keep = batches_ok_quiet [OF assms(2)]
  fix x q assume sel: "select_open_batch_orders lib env bid b p = (Inr x, q)" and q: "quiet lib p q"
  obtain ups dirs where x: "x = (ups, dirs)" by (rule prod.exhaust)
  obtain g where g: "\<forall>i\<in>set (bt_orders b) \<union> br_order_id ` set (ups @ dirs).
      \<exists>s. selector_in (pl_db p) i = Some s \<and> bv_assessor_group env bid s = Inr g"
    by (rule selected_one_group [OF assms sel [unfolded x]])
  have upd: "?ok (snd (update_backend_batch lib env bid n b ups dirs fin r))" if r: "quiet lib p r" for fin r
    by (rule update_backend_group [OF keep [OF r], where held = "bt_orders b" and g = g])
      (use r assms(3) g in \<open>simp_all add: quiet_def\<close>)
  have "?ok (snd (db_bind (check_finalize lib env bid b (ups @ dirs) q) (\<lambda>finalize p.
       if \<not> finalize \<and> ups = [] then (Inr False, p)
       else db_bind (update_backend_batch lib env bid n b ups dirs finalize p) (\<lambda>_ p. (Inr finalize, p)))))"
  proof (rule quiet_bind_keeps [OF quiet_check_finalize])
    show "quiet lib q r \<Longrightarrow> ?ok r" for r by (rule keep [OF quiet_trans [OF q]])
    fix fin r assume r: "quiet lib q r"
    have "?ok (snd (db_bind (update_backend_batch lib env bid n b ups dirs fin r) (\<lambda>_ p. (Inr fin, p))))"
      using upd [OF quiet_trans [OF q r], of fin]
      by (cases "update_backend_batch lib env bid n b ups dirs fin r"; cases "fst (update_backend_batch lib env bid n b ups dirs fin r)") auto
    then show "?ok (snd (if \<not> fin \<and> ups = [] then (Inr False, r)
       else db_bind (update_backend_batch lib env bid n b ups dirs fin r) (\<lambda>_ p. (Inr fin, p))))"
      using keep [OF quiet_trans [OF q r]] by simp
  qed
  then show "?ok (snd ((case x of (ups, dirs) \<Rightarrow> (\<lambda>p. db_bind (check_finalize lib env bid b (ups @ dirs) p) (\<lambda>finalize p.
       if \<not> finalize \<and> ups = [] then (Inr False, p)
       else db_bind (update_backend_batch lib env bid n b ups dirs finalize p) (\<lambda>_ p. (Inr finalize, p))))) q))"
    unfolding x by simp
qed

lemma new_batch_Inr:
  assumes "new_batch now bid db = (Inr n, db')" "db_ok lib db"
  shows "map_of (db_batches db') n = Some (batch_new bid now)"
proof -
  have "map_of (db_batches db) (db_next_batch db) = None" using assms(2) by (auto simp: db_ok_def map_of_eq_None_iff)
  then show ?thesis using assms(1) by (auto simp: new_batch_def map_add_def elim!: statement_Inr)
qed

lemma current_batch_backend:
  assumes "get_current_batch now bid db = (Inr n, db')" "db_ok lib db" "map_of (db_batches db') n = Some b"
  shows "bt_backend_id b = bid"
proof -
  obtain c db1 where s1: "statement (\<lambda>db. (Inr (length (db_batches db)), db)) db = (Inr c, db1)"
    and r1: "(if c = 0 then new_batch now bid db1
       else db_bind (statement (\<lambda>db.
              (case rows_where (\<lambda>_ b. bt_status b \<in> {Open, PendingCompression} \<and> bt_backend_id b = bid)
                      (db_batches db) of
                 [] \<Rightarrow> Inr None
               | (n, b) # _ \<Rightarrow> res_bind (read_batch b) (\<lambda>_. Inr (Some n)), db)) db1) (\<lambda>found db.
            case found of Some n \<Rightarrow> (Inr n, db) | None \<Rightarrow> new_batch now bid db)) = (Inr n, db')"
    using assms(1) unfolding get_current_batch_def db_bind_Inr by blast
  have ok1: "db_ok lib db1" using s1 assms(2) by (auto elim!: statement_Inr)
  show ?thesis
  proof (cases "c = 0")
    case True
    then show ?thesis using r1 new_batch_Inr [OF _ ok1, of now bid n db'] assms(3) by (simp add: batch_new_def)
  next
    case False
    then obtain found db2 where s2: "statement (\<lambda>db.
              (case rows_where (\<lambda>_ b. bt_status b \<in> {Open, PendingCompression} \<and> bt_backend_id b = bid)
                      (db_batches db) of
                 [] \<Rightarrow> Inr None
               | (n, b) # _ \<Rightarrow> res_bind (read_batch b) (\<lambda>_. Inr (Some n)), db)) db1 = (Inr found, db2)"
      and r2: "(case found of Some n \<Rightarrow> (Inr n, db2) | None \<Rightarrow> new_batch now bid db2) = (Inr n, db')"
      using r1 unfolding if_not_P [OF False] db_bind_Inr by blast
    obtain fs where db2: "db2 = db1\<lparr>db_faults := fs\<rparr>" using s2 by (auto elim!: statement_Inr)
    then have ok2: "db_ok lib db2" using ok1 by simp
    show ?thesis
    proof (cases found)
      case None
      then show ?thesis using r2 new_batch_Inr [OF _ ok2, of now bid n db'] assms(3) by (simp add: batch_new_def)
    next
      case (Some m)
      then obtain b0 rest where "rows_where (\<lambda>_ b. bt_status b \<in> {Open, PendingCompression} \<and> bt_backend_id b = bid) (db_batches db1) = (m, b0) # rest"
        using s2 by (auto simp: res_simps split: list.splits elim!: statement_Inr)
      then have "(m, b0) \<in> set (rows_where (\<lambda>_ b. bt_status b \<in> {Open, PendingCompression} \<and> bt_backend_id b = bid) (db_batches db1))" by simp
      then have m: "(m, b0) \<in> set (db_batches db1)" "bt_backend_id b0 = bid" by (auto simp: rows_where_def)
      moreover have "m = n" "db' = db2" using r2 Some by simp_all
      moreover have "map_of (db_batches db1) m = Some b0" using m(1) ok1 by (simp add: db_ok_def)
      ultimately show ?thesis using assms(3) db2 by simp
    qed
  qed
qed

lemma single_group_new: "single_group grp db \<Longrightarrow> single_group grp (snd (new_batch now bid db))"
  by (cases rule: statement_cases [of "\<lambda>db. (Inr (db_next_batch db),
       db\<lparr>db_batches := db_batches db @ [(db_next_batch db, batch_new bid now)],
          db_next_batch := Suc (db_next_batch db)\<rparr>)" db])
    (simp_all add: new_batch_def single_group_def batch_view_def selector_in_def batch_new_def)

lemma single_group_read: "(\<And>db. snd (sql db) = db) \<Longrightarrow> single_group grp (snd (statement sql db)) \<longleftrightarrow> single_group grp db"
  by (cases rule: statement_cases [of sql db]) (simp_all add: single_group_def)

lemma single_group_bind:
  assumes "single_group grp (snd m)" "\<And>x q. single_group grp q \<Longrightarrow> single_group grp (snd (f x q))"
  shows "single_group grp (snd (db_bind m f))"
  using assms by (cases m; cases "fst m") auto

lemma current_batch_ok:
  assumes "batches_ok lib grp p"
  shows "batches_ok lib grp (snd (in_db (get_current_batch now bid) p))"
proof -
  have "single_group grp (snd (get_current_batch now bid (pl_db p)))"
    unfolding get_current_batch_def
    by (intro single_group_bind) (use assms in \<open>auto simp: batches_ok_def single_group_read intro!: single_group_new single_group_bind split: option.split\<close>)
  then show ?thesis using assms grows_get_current [of lib "pl_db p" now bid] by (simp add: batches_ok_def db_grows_def)
qed

lemma quiet_close [quiet_ops]: "quiet lib p (snd (close_backend_batch env bid n p))"
  unfolding close_backend_batch_def
  by (rule quiet_bind) (auto simp: quiet_ops simp del: in_db_simps intro!: quiet_bind split: sum.split)

lemma quiet_after: "(\<And>x q. quiet lib q (snd (f x q))) \<Longrightarrow> quiet lib (snd m) (snd (db_bind m f))"
  by (cases m; cases "fst m") auto

lemma process_backend_group:
  assumes "assessor_grouping (bv_assessor_group env)" "batches_ok lib (bv_assessor_group env) p"
  shows "batches_ok lib (bv_assessor_group env) (snd (process_backend_batch lib env bid p))"
proof -
  let ?grp = "bv_assessor_group env"
  obtain x q where g: "in_db (get_current_batch (bv_now env) bid) p = (x, q)" by (rule prod.exhaust)
  have okq: "batches_ok lib ?grp q" using current_batch_ok [OF assms(2), of "bv_now env" bid] g by simp
  show ?thesis
  proof (cases x)
    case (Inl e)
    then show ?thesis using g okq by (simp add: process_backend_batch_def unexpected_def)
  next
    case (Inr n)
    have "batches_ok lib ?grp (snd (db_bind (unexpected (in_db (get_batch n) q)) (\<lambda>b p.
     db_bind (case bt_status b of
                Open \<Rightarrow> process_open_batch lib env bid n b p
              | PendingCompression \<Rightarrow> (Inr True, p)
              | _ \<Rightarrow> (Inl BatcherUnexpectedErr, p)) (\<lambda>compress p.
       if compress then close_backend_batch env bid n p else (Inr (), p)))))" (is "batches_ok lib ?grp (snd (db_bind _ ?f))")
    proof (rule quiet_bind_keeps)
      show "quiet lib q (snd (unexpected (in_db (get_batch n) q)))" by (simp add: quiet_get_batch del: in_db_simps)
      show "quiet lib q r \<Longrightarrow> batches_ok lib ?grp r" for r by (rule batches_ok_quiet [OF okq])
      fix b r assume b: "unexpected (in_db (get_batch n) q) = (Inr b, r)" and r: "quiet lib q r"
      have mb: "map_of (db_batches (pl_db q)) n = Some b"
        using b by (auto simp: in_db_def get_batch_def read_batch_def split: prod.splits option.splits if_splits elim!: statement_Inr)
      have "get_current_batch (bv_now env) bid (pl_db p) = (Inr n, pl_db q)"
        using g Inr by (auto simp: in_db_def split: prod.splits)
      then have "bt_backend_id b = bid"
        using current_batch_backend [OF _ _ mb, of "bv_now env" bid "pl_db p" lib] assms(2) by (simp add: batches_ok_def)
      then have "(n, bid, bt_orders b) \<in> set (batch_view (pl_db r))"
        using map_of_SomeD [OF mb] r unfolding quiet_def by (auto simp: batch_view_iff)
      then have "batches_ok lib ?grp (snd (process_open_batch lib env bid n b r))"
        by (rule open_batch_group [OF assms(1) batches_ok_quiet [OF okq r]])
      then have "batches_ok lib ?grp (snd (case bt_status b of
                Open \<Rightarrow> process_open_batch lib env bid n b r
              | PendingCompression \<Rightarrow> (Inr True, r)
              | _ \<Rightarrow> (Inl BatcherUnexpectedErr, r)))"
        using batches_ok_quiet [OF okq r] by (cases "bt_status b") simp_all
      then show "batches_ok lib ?grp (snd (?f b r))"
        by (rule batches_ok_quiet) (rule quiet_after, simp add: quiet_close)
    qed
    then show ?thesis using g Inr by (simp add: process_backend_batch_def unexpected_def)
  qed
qed

text \<open>C23: a batch carries one assessor seal, so all its orders must have the same assessor: whatever the
  database and the backends answer, processing the batches of all backends keeps every batch
  within one assessor group.\<close>

theorem batches_keep_single_group:
  assumes "assessor_grouping grp" "\<forall>bid. bv_assessor_group (envs bid) = grp"
    and "db_ok lib (pl_db p)" "single_group grp (pl_db p)"
  shows "single_group grp (pl_db (process_batches lib envs backend_ids p))"
proof -
  have "batches_ok lib grp (process_batches lib envs backend_ids p)" if "batches_ok lib grp p" for p
    using that
  proof (induction backend_ids arbitrary: p)
    case (Cons bid bids)
    then show ?case
      using process_backend_group [of "envs bid" lib p bid] assms(1,2) by (simp add: process_batches_def)
  qed (simp add: process_batches_def)
  then show ?thesis using assms(3,4) by (simp add: batches_ok_def)
qed

text \<open>Closing a batch can fail for good. Then the batch is marked as failed, but its orders stay where they
  are and no capacity is freed: no other service looks at the orders of a failed batch, until the
  reaper finds them expired.\<close>

lemma close_failure_strands_orders:
  assumes "db_faults (pl_db p) = []" "map_of (db_batches (pl_db p)) n = Some b" "read_batch b = Inr b"
    and "bv_close_batch env bid \<lparr>cb_batch_id = n, cb_order_ids = bt_orders b, cb_state = bt_backend_state b\<rparr> = Inl err"
  shows "\<exists>q. close_backend_batch env bid n p = (Inl (CompressionErr err), q)
    \<and> map_option bt_status (map_of (db_batches (pl_db q)) n) = Some BatchFailed
    \<and> db_orders (pl_db q) = db_orders (pl_db p) \<and> pl_sent q = pl_sent p"
proof -
  let ?q = "p\<lparr>pl_db := (pl_db p)\<lparr>db_batches := update_where (\<lambda>k _. k = n)
    (\<lambda>b. b\<lparr>bt_status := BatchFailed, bt_error_msg := Some (bv_error_text env err)\<rparr>) (db_batches (pl_db p))\<rparr>\<rparr>"
  have "in_db (get_batch n) p = (Inr b, p)"
    using assms(1-3) by (simp add: in_db_def get_batch_def statement_no_fault)
  moreover have "in_db (set_batch_failure n (bv_error_text env err)) p = (Inr (), ?q)"
    using assms(1,2) by (simp add: in_db_def set_batch_failure_def statement_no_fault update_batch_row_def)
  ultimately have "close_backend_batch env bid n p = (Inl (CompressionErr err), ?q)"
    using assms(4) by (simp add: close_backend_batch_def unexpected_def)
  then show ?thesis using assms(2) by (simp add: update_where_key)
qed

section \<open>A batch for one order\<close>

definition waiting_db :: broker_db where
  "waiting_db = db_empty\<lparr>db_orders := [(db_order_id sample_lib ready_row, ready_row)],
     db_batches := [(1, batch_new ''risc0_v3'' 900)], db_next_batch := 2\<rparr>"

definition sample_groups :: "string \<Rightarrow> selector \<Rightarrow> BackendFailure + selector option" where
  "sample_groups = (\<lambda>_. risc0_assessor_group (risc0_new sample_env (\<lambda>_. False) risc0_sample_registry 0x99 False))"

definition sample_batcher_env :: batcher_env where
  "sample_batcher_env =
     \<lparr>bv_chain_id = 1, bv_current_time = 1050, bv_now = 1050,
      bv_config = Inr \<lparr>bc_min_batch_size = 1, bc_batch_max_time = 1000, bc_batch_max_fees = None,
        bc_batch_max_journal_bytes = 10000, bc_max_concurrent_proofs = 1\<rparr>,
      bv_block_deadline_buffer_secs = Inr 120, bv_parse_ether = (\<lambda>_. None),
      bv_assessor_group = sample_groups, bv_estimate_batch_size = (\<lambda>_ _. Inr 0),
      bv_update_batch = (\<lambda>_ u. Inr \<lparr>bu_state = [0], bu_finalize = ub_finalize u\<rparr>),
      bv_close_batch = (\<lambda>_ _. Inr [1]), bv_error_text = (\<lambda>_. [])\<rparr>"

theorem batches_keep_single_group_witness:
  "single_group sample_groups waiting_db
   \<and> single_group sample_groups
       (pl_db (process_batches sample_lib (\<lambda>_. sample_batcher_env) [''risc0_v3''] (sample_pipeline waiting_db router_new)))"
proof -
  have g: "assessor_grouping sample_groups" unfolding sample_groups_def by (rule risc0_groups.assessor_grouping_axioms)
  have d: "db_ok sample_lib waiting_db" "single_group sample_groups waiting_db"
    by (simp_all add: waiting_db_def db_empty_def db_ok_def single_group_def batch_view_def batch_new_def)
  show ?thesis
    using batches_keep_single_group [OF g, of "\<lambda>_. sample_batcher_env" sample_lib "sample_pipeline waiting_db router_new" "[''risc0_v3'']"] d
    by (simp add: sample_batcher_env_def sample_pipeline_def)
qed

end
