(* ===== verification/RequestorLists.thy ===== *)
theory RequestorLists
  imports MarketConfig "HOL-Library.AList"
begin

text \<open>
  Lists of requestors: the format and validation of \<open>crates/requestor-lists/src/lib.rs\<close>, the handles
  \<open>PriorityRequestors\<close> and \<open>AllowRequestors\<close> of the broker (\<open>requestor_monitor/types.rs\<close>) and their
  refresh from the configured URLs (\<open>requestor_monitor/service.rs\<close>).

  Both handles are a map from addresses to entries, as an association list, with the chain of the
  broker; they differ in the addresses of the configuration they fall back to. A map behind a
  poisoned lock is \<open>None\<close>. The HTTP client and the JSON parser are parameters; the input size of an
  entry, a floating point number that nothing reads, is left out.
\<close>

section \<open>Lists\<close>

record Version =
  major :: u32
  minor :: u32

definition CURRENT_SCHEMA_VERSION :: Version where "CURRENT_SCHEMA_VERSION = \<lparr>major = 1, minor = 0\<rparr>"
definition MIN_PRIORITY :: int where "MIN_PRIORITY = 0"
definition MAX_PRIORITY :: int where "MAX_PRIORITY = 100"
definition DEFAULT_PRIORITY_LEVEL :: int where "DEFAULT_PRIORITY_LEVEL = 50"

datatype ValidationError =
    InvalidSchemaVersion Version Version | PriorityOutOfRange int | DuplicateAddress address
  | InvalidMcycleRange u64 u64 | EmptyName | FetchError string | ListParseError string

record RequestEstimatesExtension =
  estimated_mcycle_count_min :: u64
  estimated_mcycle_count_max :: u64

record DenylistExtension =
  denylist_reason :: "string option"
  blocked_since :: "string option"

record Extensions =
  ext_priority :: "int option"
  request_estimates :: "RequestEstimatesExtension option"
  denylist :: "DenylistExtension option"

definition extensions_default :: Extensions where
  "extensions_default = \<lparr>ext_priority = None, request_estimates = None, denylist = None\<rparr>"

definition extensions_is_empty :: "Extensions \<Rightarrow> bool" where
  "extensions_is_empty e \<longleftrightarrow> ext_priority e = None \<and> request_estimates e = None \<and> denylist e = None"

record RequestorEntry =
  re_address :: address
  re_chain_id :: u64
  re_name :: string
  re_description :: "string option"
  re_tags :: "string list"
  re_extensions :: Extensions

record RequestorList =
  rl_name :: string
  rl_description :: string
  rl_schema_version :: Version
  rl_version :: Version
  rl_requestors :: "RequestorEntry list"

definition requestor_list_new :: "string \<Rightarrow> string \<Rightarrow> Version \<Rightarrow> RequestorEntry list \<Rightarrow> RequestorList" where
  "requestor_list_new name description version requestors =
     \<lparr>rl_name = name, rl_description = description, rl_schema_version = CURRENT_SCHEMA_VERSION,
      rl_version = version, rl_requestors = requestors\<rparr>"

definition validate_entry :: "RequestorEntry \<Rightarrow> ValidationError + unit" where
  "validate_entry e =
     (if trim (re_name e) = [] then Inl EmptyName
      else res_bind (case ext_priority (re_extensions e) of
          Some level \<Rightarrow> if level < MIN_PRIORITY \<or> level > MAX_PRIORITY then Inl (PriorityOutOfRange level) else Inr ()
        | None \<Rightarrow> Inr ()) (\<lambda>_.
        case request_estimates (re_extensions e) of
          Some est \<Rightarrow>
            (if estimated_mcycle_count_min est > estimated_mcycle_count_max est
             then Inl (InvalidMcycleRange (estimated_mcycle_count_min est) (estimated_mcycle_count_max est)) else Inr ())
        | None \<Rightarrow> Inr ()))"

fun validate_entries :: "(address \<times> u64) list \<Rightarrow> RequestorEntry list \<Rightarrow> ValidationError + unit" where
  "validate_entries seen [] = Inr ()"
| "validate_entries seen (e # es) =
     (if (re_address e, re_chain_id e) \<in> set seen then Inl (DuplicateAddress (re_address e))
      else res_bind (validate_entry e) (\<lambda>_. validate_entries ((re_address e, re_chain_id e) # seen) es))"

definition list_validate :: "RequestorList \<Rightarrow> ValidationError + unit" where
  "list_validate list =
     (if major (rl_schema_version list) \<noteq> major CURRENT_SCHEMA_VERSION
      then Inl (InvalidSchemaVersion CURRENT_SCHEMA_VERSION (rl_schema_version list))
      else validate_entries [] (rl_requestors list))"

record list_source =
  http_get :: "string \<Rightarrow> string + string" \<comment> \<open>the text behind a URL\<close>
  json_list :: "string \<Rightarrow> string + RequestorList"

definition list_from_json :: "list_source \<Rightarrow> string \<Rightarrow> ValidationError + RequestorList" where
  "list_from_json src json =
     (case json_list src json of
        Inl e \<Rightarrow> Inl (ListParseError e)
      | Inr list \<Rightarrow> res_bind (list_validate list) (\<lambda>_. Inr list))"

definition fetch_from_url :: "list_source \<Rightarrow> string \<Rightarrow> ValidationError + RequestorList" where
  "fetch_from_url src url =
     (case http_get src url of Inl e \<Rightarrow> Inl (FetchError e) | Inr json \<Rightarrow> list_from_json src json)"

section \<open>Handles\<close>

record CachedEntry =
  ce_entry :: RequestorEntry
  ce_source_url :: string

record requestors =
  rq_requestors :: "(address \<times> CachedEntry) list option"
  rq_chain_id :: u64

definition requestors_new :: "u64 \<Rightarrow> requestors" where
  "requestors_new chain = \<lparr>rq_requestors = Some [], rq_chain_id = chain\<rparr>"

definition static_entry :: "u64 \<Rightarrow> address \<Rightarrow> RequestorEntry" where
  "static_entry chain a =
     \<lparr>re_address = a, re_chain_id = chain, re_name = ''Static Config Requestor'', re_description = None,
      re_tags = [''static''], re_extensions = extensions_default\<rparr>"

definition get_requestor_entry :: "unit + address list option \<Rightarrow> requestors \<Rightarrow> address \<Rightarrow> RequestorEntry option" where
  "get_requestor_entry static h a =
     (case Option.bind (rq_requestors h) (\<lambda>cached. map_of cached a) of
        Some cached \<Rightarrow> Some (ce_entry cached)
      | None \<Rightarrow>
          (case static of
             Inr (Some addresses) \<Rightarrow> if a \<in> set addresses then Some (static_entry (rq_chain_id h) a) else None
           | _ \<Rightarrow> None))"

text \<open>The two handles, with the configuration as the lock yields it.\<close>

definition is_priority_requestor :: "unit + MarketConfig \<Rightarrow> requestors \<Rightarrow> address \<Rightarrow> bool" where
  "is_priority_requestor cfg h a \<longleftrightarrow>
     get_requestor_entry (res_bind cfg (\<lambda>c. Inr (cfg_priority_requestor_addresses c))) h a \<noteq> None"

definition is_allow_requestor :: "unit + MarketConfig \<Rightarrow> requestors \<Rightarrow> address \<Rightarrow> bool" where
  "is_allow_requestor cfg h a \<longleftrightarrow>
     get_requestor_entry (res_bind cfg (\<lambda>c. Inr (cfg_allow_client_addresses c))) h a \<noteq> None"

definition entry_level :: "RequestorEntry \<Rightarrow> int" where
  "entry_level e = (case ext_priority (re_extensions e) of Some level \<Rightarrow> level | None \<Rightarrow> DEFAULT_PRIORITY_LEVEL)"

definition dynamic_levels :: "requestors \<Rightarrow> (address \<times> int) list" where
  "dynamic_levels h =
     (case rq_requestors h of
        Some cached \<Rightarrow> map (\<lambda>(a, c). (a, entry_level (ce_entry c))) cached
      | None \<Rightarrow> [])"

fun insert_entries :: "u64 \<Rightarrow> string \<Rightarrow> RequestorEntry list \<Rightarrow> (address \<times> CachedEntry) list \<Rightarrow> (address \<times> CachedEntry) list" where
  "insert_entries chain url [] cached = cached"
| "insert_entries chain url (e # es) cached =
     insert_entries chain url es
       (if re_chain_id e = chain then AList.update (re_address e) \<lparr>ce_entry = e, ce_source_url = url\<rparr> cached else cached)"

definition update_from_list :: "RequestorList \<Rightarrow> string \<Rightarrow> requestors \<Rightarrow> requestors" where
  "update_from_list list url h =
     h\<lparr>rq_requestors := map_option (insert_entries (rq_chain_id h) url (rl_requestors list)) (rq_requestors h)\<rparr>"

definition clear_from_url :: "string \<Rightarrow> requestors \<Rightarrow> requestors" where
  "clear_from_url url h =
     h\<lparr>rq_requestors := map_option (filter (\<lambda>(_, c). ce_source_url c \<noteq> url)) (rq_requestors h)\<rparr>"

section \<open>Refresh\<close>

definition refresh_list :: "(string \<Rightarrow> ValidationError + RequestorList) \<Rightarrow> string \<Rightarrow> requestors \<Rightarrow> requestors" where
  "refresh_list fetch url h =
     (case fetch url of
        Inr list \<Rightarrow> update_from_list list url (clear_from_url url h)
      | Inl _ \<Rightarrow> h)"

definition refresh_lists ::
    "unit + string list option \<times> string list option \<Rightarrow> (string \<Rightarrow> ValidationError + RequestorList)
      \<Rightarrow> requestors \<times> requestors \<Rightarrow> (unit + unit) \<times> requestors \<times> requestors" where
  "refresh_lists cfg fetch s =
     (case cfg of
        Inl _ \<Rightarrow> (Inl (), s)
      | Inr (priority_urls, allowed_urls) \<Rightarrow>
          (Inr (),
           (case priority_urls of Some urls \<Rightarrow> fold (refresh_list fetch) (rev urls) (fst s) | None \<Rightarrow> fst s),
           (case allowed_urls of Some urls \<Rightarrow> fold (refresh_list fetch) urls (snd s) | None \<Rightarrow> snd s)))"

text \<open>Levels of all chains together, as the order evaluator and the order committer read them.\<close>

definition merge_level :: "address \<times> int \<Rightarrow> (address \<times> int) list \<Rightarrow> (address \<times> int) list" where
  "merge_level al merged =
     (let (a, level) = al in
      AList.update a (case map_of merged a of Some existing \<Rightarrow> max existing level | None \<Rightarrow> level) merged)"

definition collect_priority_levels :: "requestors list \<Rightarrow> address list option \<Rightarrow> (address \<times> int) list" where
  "collect_priority_levels handles static_addresses =
     fold (\<lambda>h. fold merge_level (dynamic_levels h)) handles
       (fold (\<lambda>a. AList.update a DEFAULT_PRIORITY_LEVEL) (case static_addresses of Some as \<Rightarrow> as | None \<Rightarrow> []) [])"

section \<open>Validated lists\<close>

lemma validate_entries_Inr:
  "validate_entries seen es = Inr u \<Longrightarrow>
     distinct (map (\<lambda>e. (re_address e, re_chain_id e)) es)
     \<and> (\<forall>e\<in>set es. (re_address e, re_chain_id e) \<notin> set seen \<and> validate_entry e = Inr ())"
proof (induction es arbitrary: seen)
  case (Cons e es)
  then have e: "(re_address e, re_chain_id e) \<notin> set seen" "validate_entry e = Inr ()"
    and es: "validate_entries ((re_address e, re_chain_id e) # seen) es = Inr u"
    by (auto simp: res_simps split: if_splits)
  from Cons.IH [OF es] e show ?case by force
qed simp

lemma validate_entry_level:
  assumes "validate_entry e = Inr ()"
  shows "MIN_PRIORITY \<le> entry_level e \<and> entry_level e \<le> MAX_PRIORITY"
  using assms
  by (auto simp: validate_entry_def entry_level_def res_simps DEFAULT_PRIORITY_LEVEL_def MIN_PRIORITY_def MAX_PRIORITY_def
      split: if_splits option.splits)

section \<open>The first list wins\<close>

definition entry_in :: "u64 \<Rightarrow> address \<Rightarrow> RequestorList \<Rightarrow> RequestorEntry option" where
  "entry_in chain a list = find (\<lambda>e. re_chain_id e = chain \<and> re_address e = a) (rev (rl_requestors list))"

lemma find_append: "find P (xs @ ys) = (case find P xs of Some x \<Rightarrow> Some x | None \<Rightarrow> find P ys)"
  by (induction xs) auto

lemma map_of_insert_entries:
  "map_of (insert_entries chain url es cached) a =
     (case find (\<lambda>e. re_chain_id e = chain \<and> re_address e = a) (rev es) of
        Some e \<Rightarrow> Some \<lparr>ce_entry = e, ce_source_url = url\<rparr>
      | None \<Rightarrow> map_of cached a)"
proof (induction es arbitrary: cached)
  case (Cons e es)
  then show ?case
    by (cases "find (\<lambda>e. re_chain_id e = chain \<and> re_address e = a) (rev es)") (auto simp: find_append update_conv')
qed simp

lemma distinct_insert_entries: "distinct (map fst cached) \<Longrightarrow> distinct (map fst (insert_entries chain url es cached))"
  by (induction es arbitrary: cached) (auto simp: distinct_update)

lemma map_of_filter_values:
  "distinct (map fst cached) \<Longrightarrow>
     map_of (filter (\<lambda>(_, c). P c) cached) a = (case map_of cached a of Some c \<Rightarrow> if P c then Some c else None | None \<Rightarrow> None)"
  by (induction cached) (auto simp: map_of_eq_None_iff split: option.splits)

lemma distinct_filter_fst: "distinct (map fst cached) \<Longrightarrow> distinct (map fst (filter P cached))"
  by (simp add: distinct_map_filter)

lemma refresh_all:
  assumes "\<forall>u\<in>set urls. fetch u = Inr (content u)" "distinct urls"
    and "rq_requestors h = Some cached" "distinct (map fst cached)"
  shows "\<exists>cached'. rq_requestors (fold (refresh_list fetch) (rev urls) h) = Some cached' \<and> distinct (map fst cached')
     \<and> rq_chain_id (fold (refresh_list fetch) (rev urls) h) = rq_chain_id h \<and>
     map_of cached' a =
       (case find (\<lambda>u. entry_in (rq_chain_id h) a (content u) \<noteq> None) urls of
          Some u \<Rightarrow> Some \<lparr>ce_entry = the (entry_in (rq_chain_id h) a (content u)), ce_source_url = u\<rparr>
        | None \<Rightarrow> (case map_of cached a of
                     Some c \<Rightarrow> if ce_source_url c \<in> set urls then None else Some c
                   | None \<Rightarrow> None))"
  using assms(1,2)
proof (induction urls)
  case Nil
  then show ?case using assms(3,4) by (simp split: option.split)
next
  case (Cons u us)
  let ?h = "fold (refresh_list fetch) (rev us) h" and ?has = "\<lambda>u. entry_in (rq_chain_id h) a (content u) \<noteq> None"
  from Cons obtain c1 where c1: "rq_requestors ?h = Some c1" "distinct (map fst c1)" "rq_chain_id ?h = rq_chain_id h"
    "map_of c1 a = (case find ?has us of
        Some u \<Rightarrow> Some \<lparr>ce_entry = the (entry_in (rq_chain_id h) a (content u)), ce_source_url = u\<rparr>
      | None \<Rightarrow> (case map_of cached a of Some c \<Rightarrow> if ce_source_url c \<in> set us then None else Some c | None \<Rightarrow> None))"
    by auto
  let ?c2 = "insert_entries (rq_chain_id h) u (rl_requestors (content u)) (filter (\<lambda>(_, c). ce_source_url c \<noteq> u) c1)"
  have run: "fold (refresh_list fetch) (rev (u # us)) h = ?h\<lparr>rq_requestors := Some ?c2\<rparr>"
    using Cons.prems(1) c1(1,3) by (simp add: refresh_list_def update_from_list_def clear_from_url_def)
  have d: "distinct (map fst ?c2)" by (intro distinct_insert_entries distinct_filter_fst c1(2))
  have "find ?has us = Some v \<Longrightarrow> v \<noteq> u" for v using Cons.prems(2) by (auto simp: find_Some_iff)
  then have "map_of ?c2 a = (case find ?has (u # us) of
        Some u \<Rightarrow> Some \<lparr>ce_entry = the (entry_in (rq_chain_id h) a (content u)), ce_source_url = u\<rparr>
      | None \<Rightarrow> (case map_of cached a of Some c \<Rightarrow> if ce_source_url c \<in> set (u # us) then None else Some c | None \<Rightarrow> None))"
    unfolding map_of_insert_entries map_of_filter_values [OF c1(2)] c1(4)
    by (auto simp flip: entry_in_def split: option.splits)
  then show ?case unfolding run using d c1(3) by simp
qed

text \<open>C31: when every configured list can be fetched, a requestor gets the entry of the first list, in the
  order of the configuration, that names it for this chain; entries that no list holds any more are
  gone, and entries that came from other URLs stay. The configured URLs are distinct, and the handle is the one
  of the priority requestors and holds a cache.\<close>

theorem refresh_first_list_wins:
  assumes "\<forall>u\<in>set urls. fetch u = Inr (content u)" "distinct urls"
    and "rq_requestors h = Some cached" "distinct (map fst cached)"
    and "refresh_lists (Inr (Some urls, allowed_urls)) fetch (h, allowed) = (r, h', allowed')"
  shows "\<exists>cached'. rq_requestors h' = Some cached' \<and>
     map_of cached' a =
       (case find (\<lambda>u. entry_in (rq_chain_id h) a (content u) \<noteq> None) urls of
          Some u \<Rightarrow> Some \<lparr>ce_entry = the (entry_in (rq_chain_id h) a (content u)), ce_source_url = u\<rparr>
        | None \<Rightarrow> (case map_of cached a of
                     Some c \<Rightarrow> if ce_source_url c \<in> set urls then None else Some c
                   | None \<Rightarrow> None))"
proof -
  have "h' = fold (refresh_list fetch) (rev urls) h" using assms(5) by (simp add: refresh_lists_def)
  then show ?thesis using refresh_all [OF assms(1-4)] by blast
qed

text \<open>A list that cannot be fetched keeps its entries only where no later list names the same requestor:
  the later list is read first, and takes over the entry.\<close>

lemma failed_refresh_loses_precedence:
  assumes "fetch u1 = Inl e" "fetch u2 = Inr list" "u1 \<noteq> u2"
    and "rq_requestors h = Some cached" "map_of cached a = Some c" "ce_source_url c = u1"
    and "entry_in (rq_chain_id h) a list = Some e2"
  shows "\<exists>cached'. rq_requestors (fold (refresh_list fetch) (rev [u1, u2]) h) = Some cached'
     \<and> map_of cached' a = Some \<lparr>ce_entry = e2, ce_source_url = u2\<rparr>"
  using assms
  by (simp add: refresh_list_def update_from_list_def clear_from_url_def map_of_insert_entries entry_in_def)

section \<open>Two lists\<close>

definition sample_entry :: "int option \<Rightarrow> RequestorEntry" where
  "sample_entry level = \<lparr>re_address = 7, re_chain_id = 1, re_name = ''r'', re_description = None, re_tags = [],
     re_extensions = extensions_default\<lparr>ext_priority := level\<rparr>\<rparr>"

definition sample_list :: "string \<Rightarrow> RequestorList" where
  "sample_list url = requestor_list_new ''l'' ''l'' \<lparr>major = 1, minor = 0\<rparr>
     [sample_entry (if url = ''a'' then Some 90 else None)]"

theorem refresh_first_list_wins_witness:
  "\<exists>r h' h2 cached'. refresh_lists (Inr (Some [''a'', ''b''], None)) (\<lambda>u. Inr (sample_list u)) (requestors_new 1, requestors_new 1) = (r, h', h2)
     \<and> rq_requestors h' = Some cached' \<and> map_of cached' 7 = Some \<lparr>ce_entry = sample_entry (Some 90), ce_source_url = ''a''\<rparr>"
proof -
  obtain r h' h2 where run: "refresh_lists (Inr (Some [''a'', ''b''], None)) (\<lambda>u. Inr (sample_list u)) (requestors_new 1, requestors_new 1) = (r, h', h2)"
    by (rule prod_cases3)
  have "entry_in 1 7 (sample_list u) = Some (sample_entry (if u = ''a'' then Some 90 else None))" for u
    by (simp add: entry_in_def sample_list_def requestor_list_new_def) (simp add: sample_entry_def)
  then show ?thesis
    using run refresh_first_list_wins [OF _ _ _ _ run, of sample_list "[]" 7] by (simp add: requestors_new_def)
qed

end
