(* ===== verification/Prioritization.thy ===== *)
theory Prioritization
  imports OrderTypes Pricing RequestorLists "HOL-Library.Multiset" "HOL-Library.Option_ord"
begin

text \<open>
  The order in which orders are evaluated and committed to, \<open>shared/prioritization.rs\<close>: orders of
  priority requestors first, by level, and within a level by the configured mode.

  Sorting reads the clock and the random generator: these readings are a \<open>priority_env\<close>, one for
  each group that is sorted. A division by a configured proving speed of zero panics in the code;
  then the result is \<open>None\<close>.
\<close>

section \<open>Modes\<close>

datatype UnifiedPriorityMode = ModeRandom | TimeOrdered | ModeShortestExpiry | ModePrice | ModeCyclePrice
  | ModeTightestDeadline u64

fun mode_from_pricing_priority :: "OrderPricingPriority \<Rightarrow> UnifiedPriorityMode" where
  "mode_from_pricing_priority PricingRandom = ModeRandom"
| "mode_from_pricing_priority ObservationTime = TimeOrdered"
| "mode_from_pricing_priority PricingShortestExpiry = ModeShortestExpiry"

fun from_commitment_priority :: "OrderCommitmentPriority \<Rightarrow> u64 option \<Rightarrow> UnifiedPriorityMode" where
  "from_commitment_priority CommitRandom khz = ModeRandom"
| "from_commitment_priority CommitShortestExpiry khz = ModeShortestExpiry"
| "from_commitment_priority CommitPrice khz = ModePrice"
| "from_commitment_priority CommitCyclePrice khz = ModeCyclePrice"
| "from_commitment_priority TightestDeadline khz =
     (case khz of Some peak_prove_khz \<Rightarrow> ModeTightestDeadline peak_prove_khz | None \<Rightarrow> ModeShortestExpiry)"

record priority_env =
  pe_now :: u64
  pe_shuffle :: "OrderRequest list \<Rightarrow> OrderRequest list"
  pe_factor :: "nat \<Rightarrow> u64" \<comment> \<open>drawn for the order at a position, from 200 to 1000\<close>

section \<open>Sorting\<close>

definition total_reward_amount :: "OrderRequest \<Rightarrow> u64 \<Rightarrow> u64 \<Rightarrow> u256" where
  "total_reward_amount ord now factor =
     (if fulfillment_type ord = FulfillAfterLockExpire then
        (case expected_reward_eth ord of Some r \<Rightarrow> r | None \<Rightarrow> 0) * ucast factor div 1000
      else (case price_at (offer (request ord)) now of Inr p \<Rightarrow> p | Inl _ \<Rightarrow> 0))"

text \<open>The seconds to prove a number of cycles.\<close>

definition proof_time :: "u64 \<Rightarrow> u64 \<Rightarrow> u64 option" where
  "proof_time cycles peak_prove_khz =
     (if peak_prove_khz = 0 then None else Some (div_ceil (div_ceil cycles 1000) peak_prove_khz))"

definition cycle_price :: "OrderRequest \<Rightarrow> u256 \<Rightarrow> u256" where
  "cycle_price ord amount =
     (case Option.bind (total_cycles ord) (\<lambda>cycles. checked_div amount (ucast cycles)) of Some p \<Rightarrow> p | None \<Rightarrow> 0)"

definition deadline_margin :: "u64 \<Rightarrow> u64 \<Rightarrow> OrderRequest \<Rightarrow> u64 option" where
  "deadline_margin now peak_prove_khz ord =
     map_option (saturating_sub (saturating_sub (order_expiry ord) now))
       (case total_cycles ord of Some cycles \<Rightarrow> proof_time cycles peak_prove_khz | None \<Rightarrow> Some 0)"

text \<open>\<open>sort_by_cached_key\<close>: the keys are computed first, from left to right, then a stable sort. A slice
  of fewer than two elements is returned before any key is computed, so that the one key that can panic, the
  deadline margin, does not for a single order.\<close>

definition sort_by_keys :: "'k::linorder list \<Rightarrow> 'a list \<Rightarrow> 'a list" where
  "sort_by_keys keys xs = map snd (sort_key fst (zip keys xs))"

fun sort_by_mode :: "priority_env \<Rightarrow> UnifiedPriorityMode \<Rightarrow> OrderRequest list \<Rightarrow> OrderRequest list option" where
  "sort_by_mode env ModeRandom orders = Some (pe_shuffle env orders)"
| "sort_by_mode env TimeOrdered orders = Some orders"
| "sort_by_mode env ModeShortestExpiry orders = Some (sort_key order_expiry orders)"
| "sort_by_mode env ModePrice orders =
     Some (sort_by_keys (map2 (\<lambda>i ord. - uint (total_reward_amount ord (pe_now env) (pe_factor env i))) [0..<length orders] orders) orders)"
| "sort_by_mode env ModeCyclePrice orders =
     Some (sort_by_keys (map2 (\<lambda>i ord. - uint (cycle_price ord (total_reward_amount ord (pe_now env) (pe_factor env i))))
       [0..<length orders] orders) orders)"
| "sort_by_mode env (ModeTightestDeadline khz) orders =
     (if length orders < 2 then Some orders
      else map_option (\<lambda>keys. sort_by_keys keys orders) (those (map (deadline_margin (pe_now env) khz) orders)))"

text \<open>The level of an order among the priority requestors.\<close>

definition order_level :: "(address \<times> int) list \<Rightarrow> OrderRequest \<Rightarrow> int option" where
  "order_level levels ord = map_of levels (client_address (request ord))"

fun sort_tiers ::
    "(int \<Rightarrow> priority_env) \<Rightarrow> UnifiedPriorityMode \<Rightarrow> (int \<times> OrderRequest list) list \<Rightarrow> OrderRequest list option" where
  "sort_tiers envs mode [] = Some []"
| "sort_tiers envs mode ((level, tier) # tiers) =
     Option.bind (sort_by_mode (envs level) mode tier) (\<lambda>sorted.
     Option.bind (sort_tiers envs mode tiers) (\<lambda>rest. Some (sorted @ rest)))"

text \<open>The tiers of the \<open>BTreeMap\<close>, highest level first.\<close>

definition level_tiers :: "(address \<times> int) list \<Rightarrow> OrderRequest list \<Rightarrow> (int \<times> OrderRequest list) list" where
  "level_tiers levels priority_orders =
     (let level = (\<lambda>ord. case order_level levels ord of Some l \<Rightarrow> l | None \<Rightarrow> DEFAULT_PRIORITY_LEVEL) in
      map (\<lambda>l. (l, filter (\<lambda>ord. level ord = l) priority_orders)) (rev (sort (remdups (map level priority_orders)))))"

definition sort_orders_by_priority_and_mode ::
    "(int option \<Rightarrow> priority_env) \<Rightarrow> (address \<times> int) list option \<Rightarrow> UnifiedPriorityMode \<Rightarrow> OrderRequest list \<Rightarrow> OrderRequest list option" where
  "sort_orders_by_priority_and_mode envs priority_levels mode orders =
     (case priority_levels of
        Some (l # ls) \<Rightarrow>
          (let levels = l # ls;
               (priority_orders, regular_orders) = partition (\<lambda>ord. order_level levels ord \<noteq> None) orders
           in Option.bind (sort_by_mode (envs None) mode regular_orders) (\<lambda>regular.
              Option.bind (sort_tiers (\<lambda>level. envs (Some level)) mode (level_tiers levels priority_orders)) (\<lambda>tiers.
              Some (tiers @ regular))))
      | _ \<Rightarrow> sort_by_mode (envs None) mode orders)"

section \<open>Selection\<close>

text \<open>The orders taken and those that remain.\<close>

definition prioritize ::
    "(int option \<Rightarrow> priority_env) \<Rightarrow> (address \<times> int) list option \<Rightarrow> UnifiedPriorityMode \<Rightarrow> nat \<Rightarrow> OrderRequest list
      \<Rightarrow> (OrderRequest list \<times> OrderRequest list) option" where
  "prioritize envs priority_levels mode capacity orders =
     (if orders = [] \<or> capacity = 0 then Some ([], orders)
      else map_option (\<lambda>sorted. (take (min capacity (length sorted)) sorted, drop (min capacity (length sorted)) sorted))
             (sort_orders_by_priority_and_mode envs priority_levels mode orders))"

definition prioritize_orders_to_evaluate ::
    "(int option \<Rightarrow> priority_env) \<Rightarrow> OrderPricingPriority \<Rightarrow> (address \<times> int) list option \<Rightarrow> nat \<Rightarrow> OrderRequest list
      \<Rightarrow> (OrderRequest list \<times> OrderRequest list) option" where
  "prioritize_orders_to_evaluate envs priority_mode priority_levels capacity orders =
     prioritize envs priority_levels (mode_from_pricing_priority priority_mode) capacity orders"

definition prioritize_orders_to_commit ::
    "(int option \<Rightarrow> priority_env) \<Rightarrow> OrderCommitmentPriority \<Rightarrow> (address \<times> int) list option \<Rightarrow> nat \<Rightarrow> u64 option \<Rightarrow> OrderRequest list
      \<Rightarrow> (OrderRequest list \<times> OrderRequest list) option" where
  "prioritize_orders_to_commit envs priority_mode priority_levels capacity peak_prove_khz orders =
     prioritize envs priority_levels (from_commitment_priority priority_mode peak_prove_khz) capacity orders"

section \<open>Nothing is lost, levels are respected\<close>

definition fair_shuffle :: "priority_env \<Rightarrow> bool" where
  "fair_shuffle env \<longleftrightarrow> (\<forall>xs. mset (pe_shuffle env xs) = mset xs)"

lemma mset_sort_by_keys: "length keys = length xs \<Longrightarrow> mset (sort_by_keys keys xs) = mset xs"
  by (simp add: sort_by_keys_def mset_map [symmetric] del: mset_map)
    (metis map_snd_zip mset_map mset_sort)

lemma length_those: "those xs = Some ys \<Longrightarrow> length ys = length xs"
  by (induction xs arbitrary: ys) (auto split: option.splits)

lemma sort_by_mode_mset: "sort_by_mode env mode xs = Some ys \<Longrightarrow> fair_shuffle env \<Longrightarrow> mset ys = mset xs"
  by (cases mode) (auto simp: fair_shuffle_def mset_sort_by_keys length_those split: if_splits)

text \<open>One order before another: by level, and by expiry where the mode says so.\<close>

definition ranked :: "(address \<times> int) list \<Rightarrow> UnifiedPriorityMode \<Rightarrow> OrderRequest \<Rightarrow> OrderRequest \<Rightarrow> bool" where
  "ranked levels mode a b \<longleftrightarrow> order_level levels b \<le> order_level levels a
     \<and> (mode = ModeShortestExpiry \<and> order_level levels a = order_level levels b \<longrightarrow> order_expiry a \<le> order_expiry b)"

lemma sort_by_mode_ranked:
  assumes "sort_by_mode env mode xs = Some ys" "fair_shuffle env" "\<forall>x\<in>set xs. order_level levels x = l"
  shows "sorted_wrt (ranked levels mode) ys"
proof -
  have "\<forall>y\<in>set ys. order_level levels y = l"
    using assms(3) mset_eq_setD [OF sort_by_mode_mset [OF assms(1,2)]] by simp
  moreover have "mode = ModeShortestExpiry \<Longrightarrow> sorted (map order_expiry ys)" using assms(1) by (auto split: if_splits)
  ultimately show ?thesis
    by (auto simp: ranked_def sorted_wrt_iff_nth_less sorted_iff_nth_mono_less)
qed

lemma mset_concat_classes:
  "distinct ls \<Longrightarrow> count (mset (concat (map (\<lambda>l. filter (\<lambda>x. f x = l) xs) ls))) a = (if f a \<in> set ls then count (mset xs) a else 0)"
  by (induction ls) (auto simp: mset_filter)

lemma mset_level_tiers: "mset (concat (map snd (level_tiers levels xs))) = mset xs"
proof -
  define level where "level = (\<lambda>ord. case order_level levels ord of Some l \<Rightarrow> l | None \<Rightarrow> DEFAULT_PRIORITY_LEVEL)"
  let ?ls = "rev (sort (remdups (map level xs)))"
  have "map snd (level_tiers levels xs) = map (\<lambda>l. filter (\<lambda>x. level x = l) xs) ?ls"
    by (simp add: level_tiers_def level_def comp_def)
  moreover have "count (mset (concat (map (\<lambda>l. filter (\<lambda>x. level x = l) xs) ?ls))) a = count (mset xs) a" for a
    using mset_concat_classes [of ?ls level xs a] by (auto simp: count_eq_zero_iff)
  ultimately show ?thesis by (intro multiset_eqI) simp
qed

lemma sort_tiers_sound:
  assumes "sort_tiers envs mode tiers = Some ys" "\<forall>l. fair_shuffle (envs l)"
    and "sorted_wrt (\<lambda>a b. fst b < fst a) tiers" "\<forall>(l, tier)\<in>set tiers. \<forall>x\<in>set tier. order_level levels x = Some l"
  shows "mset ys = mset (concat (map snd tiers)) \<and> sorted_wrt (ranked levels mode) ys"
  using assms
proof (induction tiers arbitrary: ys)
  case (Cons t tiers)
  obtain l tier where t: "t = (l, tier)" by (rule prod.exhaust)
  then obtain xs zs where x: "sort_by_mode (envs l) mode tier = Some xs" "sort_tiers envs mode tiers = Some zs" "ys = xs @ zs"
    using Cons.prems(1) by (auto simp: bind_eq_Some_conv)
  have IH: "mset zs = mset (concat (map snd tiers))" "sorted_wrt (ranked levels mode) zs"
    using Cons.IH [OF x(2)] Cons.prems(2-4) by auto
  have m: "mset xs = mset tier" using sort_by_mode_mset [OF x(1)] Cons.prems(2) by blast
  have lx: "order_level levels a = Some l" if "a \<in> set xs" for a
    using that mset_eq_setD [OF m] Cons.prems(4) t by auto
  have lz: "\<exists>k<l. order_level levels b = Some k" if "b \<in> set zs" for b
    using that mset_eq_setD [OF IH(1)] Cons.prems(3,4) t by fastforce
  have "ranked levels mode a b" if "a \<in> set xs" "b \<in> set zs" for a b
    using lx [OF that(1)] lz [OF that(2)] by (auto simp: ranked_def)
  moreover have "sorted_wrt (ranked levels mode) xs"
    using sort_by_mode_ranked [OF x(1)] Cons.prems(2,4) t by auto
  ultimately show ?case using IH m x(3) t by (auto simp: sorted_wrt_append)
qed simp

lemma level_tiers_sorted:
  "sorted_wrt (\<lambda>a b. fst b < fst a) (level_tiers levels xs)"
  "\<forall>x\<in>set xs. order_level levels x \<noteq> None \<Longrightarrow> \<forall>(l, tier)\<in>set (level_tiers levels xs). \<forall>x\<in>set tier. order_level levels x = Some l"
proof -
  have "sorted_wrt (<) (sort (remdups (map f xs)))" for f :: "OrderRequest \<Rightarrow> int"
    by (simp add: strict_sorted_iff)
  then show "sorted_wrt (\<lambda>a b. fst b < fst a) (level_tiers levels xs)"
    by (simp add: level_tiers_def Let_def sorted_wrt_map sorted_wrt_rev)
  show "\<forall>(l, tier)\<in>set (level_tiers levels xs). \<forall>x\<in>set tier. order_level levels x = Some l"
    if "\<forall>x\<in>set xs. order_level levels x \<noteq> None"
    using that by (fastforce simp: level_tiers_def Let_def)
qed

lemma sort_orders_sound:
  assumes "sort_orders_by_priority_and_mode envs (Some levels) mode xs = Some ys" "\<forall>k. fair_shuffle (envs k)"
  shows "mset ys = mset xs \<and> sorted_wrt (ranked levels mode) ys"
proof (cases levels)
  case Nil
  then show ?thesis
    using assms sort_by_mode_mset sort_by_mode_ranked [where levels = levels and l = None]
    by (simp add: sort_orders_by_priority_and_mode_def order_level_def)
next
  case (Cons l ls)
  define ps rs where "ps = filter (\<lambda>ord. order_level levels ord \<noteq> None) xs" and "rs = filter (\<lambda>ord. order_level levels ord = None) xs"
  obtain regular tiers where r: "sort_by_mode (envs None) mode rs = Some regular"
    and t: "sort_tiers (\<lambda>level. envs (Some level)) mode (level_tiers levels ps) = Some tiers" and ys: "ys = tiers @ regular"
    using assms(1) Cons by (auto simp: sort_orders_by_priority_and_mode_def bind_eq_Some_conv Let_def ps_def rs_def comp_def)
  have T: "mset tiers = mset ps \<and> sorted_wrt (ranked levels mode) tiers"
    using sort_tiers_sound [OF t _ level_tiers_sorted(1) level_tiers_sorted(2) [of ps levels]] assms(2) mset_level_tiers [of levels ps]
    by (auto simp: ps_def)
  have R: "mset regular = mset rs" "sorted_wrt (ranked levels mode) regular"
    using sort_by_mode_mset [OF r] sort_by_mode_ranked [OF r, where levels = levels and l = None] assms(2) by (auto simp: rs_def)
  have "ranked levels mode a b" if "a \<in> set tiers" "b \<in> set regular" for a b
    using that mset_eq_setD [OF conjunct1 [OF T]] mset_eq_setD [OF R(1)] by (auto simp: ps_def rs_def ranked_def)
  moreover have "mset ps + mset rs = mset xs" by (simp add: ps_def rs_def multiset_partition [symmetric])
  ultimately show ?thesis using T R by (auto simp: ys sorted_wrt_append)
qed

lemma prioritize_sound:
  assumes "prioritize envs (Some levels) mode capacity orders = Some (taken, rest)" "\<forall>k. fair_shuffle (envs k)"
  shows "mset taken + mset rest = mset orders \<and> length taken = min capacity (length orders)
    \<and> (\<forall>t\<in>set taken. \<forall>r\<in>set rest. ranked levels mode t r)"
proof (cases "orders = [] \<or> capacity = 0")
  case True
  then show ?thesis using assms(1) by (auto simp: prioritize_def)
next
  case False
  then obtain ys where ys: "sort_orders_by_priority_and_mode envs (Some levels) mode orders = Some ys"
    "taken = take (min capacity (length ys)) ys" "rest = drop (min capacity (length ys)) ys"
    using assms(1) by (auto simp: prioritize_def)
  note S = sort_orders_sound [OF ys(1) assms(2)]
  have "length ys = length orders" using S mset_eq_length by blast
  moreover have "mset taken + mset rest = mset ys" unfolding ys(2,3) by (metis append_take_drop_id mset_append)
  moreover have "sorted_wrt (ranked levels mode) (taken @ rest)" using S unfolding ys(2,3) by simp
  ultimately show ?thesis using S ys(2) by (auto simp: sorted_wrt_append)
qed

text \<open>C30: choosing the orders to commit to loses and duplicates none, takes as many as there is capacity
  for, and never prefers an order to one of a requestor with a higher priority level; with the
  shortest-expiry mode it takes the orders of a level that expire first.\<close>

theorem commit_priority_respected:
  assumes "prioritize_orders_to_commit envs priority_mode (Some levels) capacity khz orders = Some (taken, rest)"
    and "\<forall>k. fair_shuffle (envs k)"
  shows "mset taken + mset rest = mset orders \<and> length taken = min capacity (length orders)
    \<and> (\<forall>t\<in>set taken. \<forall>r\<in>set rest. order_level levels r \<le> order_level levels t
         \<and> (priority_mode = CommitShortestExpiry \<and> order_level levels r = order_level levels t \<longrightarrow> order_expiry t \<le> order_expiry r))"
  using prioritize_sound [OF assms(1) [unfolded prioritize_orders_to_commit_def] assms(2)] by (auto simp: ranked_def)

definition sample_priority_env :: priority_env where
  "sample_priority_env = \<lparr>pe_now = 1050, pe_shuffle = (\<lambda>xs. xs), pe_factor = (\<lambda>_. 1000)\<rparr>"

theorem commit_priority_respected_witness:
  "\<exists>taken rest. prioritize_orders_to_commit (\<lambda>_. sample_priority_env) CommitShortestExpiry
       (Some [(client_address (request (sample_order LockAndFulfill)), 90)]) 1 None
       [sample_order FulfillWithoutLocking, sample_order LockAndFulfill] = Some (taken, rest)
     \<and> mset taken + mset rest = {#sample_order FulfillWithoutLocking, sample_order LockAndFulfill#} \<and> length taken = 1"
proof -
  let ?a = "sample_order FulfillWithoutLocking" and ?b = "sample_order LockAndFulfill"
  let ?levels = "[(client_address (request ?b), 90)]"
  have sh: "\<forall>k. fair_shuffle ((\<lambda>_. sample_priority_env) k)" by (simp add: sample_priority_env_def fair_shuffle_def)
  have "request ?a = request ?b" by (simp add: sample_order_def order_request_new_def)
  then have "order_level ?levels ?a = Some 90" "order_level ?levels ?b = Some 90" by (simp_all add: order_level_def)
  then obtain taken rest where run: "prioritize_orders_to_commit (\<lambda>_. sample_priority_env) CommitShortestExpiry (Some ?levels) 1 None [?a, ?b] = Some (taken, rest)"
    by (simp add: prioritize_orders_to_commit_def prioritize_def sort_orders_by_priority_and_mode_def level_tiers_def)
  from commit_priority_respected [OF run sh] have "mset taken + mset rest = {#?a, ?b#}" "length taken = 1" by simp_all
  then show ?thesis using run by blast
qed

end
