(* ===== verification/Dispatch.thy ===== *)
theory Dispatch
  imports Prioritization Pipeline
begin

text \<open>
  What the order evaluator and the order committer share: orders wait in a list, an order that is
  handed to the service of its chain takes a slot, and both services loop over an event and a
  dispatch (the \<open>select!\<close> loops of \<open>order_evaluator/service.rs\<close> and \<open>order_committer/service.rs\<close>).

  The channels to the services of the chains are those of the tokio library: what \<open>try_send\<close>
  answers is a reading of the environment, a \<open>send_result\<close> for each attempt. The slots are a
  \<open>HashMap\<close> keyed by order identifier, an association list here. An \<open>Instant\<close> is a number of
  nanoseconds.
\<close>

section \<open>Pending orders and slots\<close>

datatype send_result = SendOk | SendFull | SendClosed

fun retain_pending :: "OrderStateChange \<Rightarrow> OrderRequest list \<Rightarrow> OrderRequest list" where
  "retain_pending (Locked rid _ chain) pending_orders =
     filter (\<lambda>ord. \<not> (request_id (request ord) = rid \<and> chain_id ord = chain \<and> fulfillment_type ord = LockAndFulfill))
       pending_orders"
| "retain_pending (Fulfilled rid chain) pending_orders =
     filter (\<lambda>ord. \<not> (request_id (request ord) = rid \<and> chain_id ord = chain)) pending_orders"

definition elapsed :: "nat \<Rightarrow> nat \<Rightarrow> nat" where
  "elapsed now since = now - since"

definition stale_slots :: "(string \<Rightarrow> nat) \<Rightarrow> ('v \<Rightarrow> nat) \<Rightarrow> u64 \<Rightarrow> (string \<times> 'v) list \<Rightarrow> string list" where
  "stale_slots now dispatched_at max_age_secs in_flight =
     map fst (filter (\<lambda>(oid, info). elapsed (now oid) (dispatched_at info) > unat max_age_secs * 10 ^ 9) in_flight)"

definition reap_slots :: "(string \<Rightarrow> nat) \<Rightarrow> ('v \<Rightarrow> nat) \<Rightarrow> u64 \<Rightarrow> (string \<times> 'v) list \<Rightarrow> (string \<times> 'v) list" where
  "reap_slots now dispatched_at max_age_secs in_flight =
     fold AList.delete (stale_slots now dispatched_at max_age_secs in_flight) in_flight"

section \<open>The loop of a service\<close>

datatype 'x loop_end = Cancelled | Faulted 'x | Panicked

fun service_loop ::
    "('ev \<Rightarrow> 's \<Rightarrow> 'x loop_end + 's) \<Rightarrow> ('env \<Rightarrow> 's \<Rightarrow> 's option) \<Rightarrow> ('ev \<times> 'env) list \<Rightarrow> 's \<Rightarrow> 'x loop_end + 's" where
  "service_loop handle dispatch [] s = Inr s"
| "service_loop handle dispatch ((ev, env) # evs) s =
     res_bind (handle ev s) (\<lambda>s1.
     res_bind (ok_or Panicked (dispatch env s1)) (\<lambda>s2.
     service_loop handle dispatch evs s2))"

section \<open>Slots are never exceeded\<close>

lemma prioritize_length: "prioritize envs levels mode capacity orders = Some (taken, rest) \<Longrightarrow> length taken \<le> capacity"
  by (auto simp: prioritize_def split: if_splits)

lemma length_delete_le: "length (AList.delete k al) \<le> length al"
  by (simp add: AList.delete_eq)

lemma length_update_le: "length (AList.update k v al) \<le> Suc (length al)"
  by (induction al) auto

lemma length_delete_update_le: "length (AList.delete k (AList.update k v al)) \<le> length al"
  by (induction al) (auto simp: AList.delete_eq intro: le_SucI order_trans [OF length_filter_le])

lemma length_fold_delete_le: "length (fold AList.delete ks al) \<le> length al"
proof (induction ks arbitrary: al)
  case (Cons k ks)
  then show ?case using order_trans [OF Cons length_delete_le] by simp
qed simp

lemma length_reap_slots_le: "length (reap_slots now f age al) \<le> length al"
  by (simp add: reap_slots_def length_fold_delete_le)

text \<open>A service that holds slots: an event frees slots and may announce a new limit, and a dispatch takes
  no slot beyond the limit.\<close>

locale capacity_service =
  fixes handle :: "'ev \<Rightarrow> 's \<Rightarrow> 'x loop_end + 's" and dispatch :: "'env \<Rightarrow> 's \<Rightarrow> 's option"
    and busy :: "'s \<Rightarrow> nat" and limit :: "'s \<Rightarrow> nat" and announced :: "'ev \<Rightarrow> nat option"
  assumes handle_busy: "handle ev s = Inr s' \<Longrightarrow> busy s' \<le> busy s"
    and handle_limit: "handle ev s = Inr s' \<Longrightarrow> limit s' = (case announced ev of Some n \<Rightarrow> n | None \<Rightarrow> limit s)"
    and dispatch_busy: "dispatch env s = Some s' \<Longrightarrow> busy s' \<le> max (busy s) (limit s)"
    and dispatch_limit: "dispatch env s = Some s' \<Longrightarrow> limit s' = limit s"
begin

lemma loop_capacity:
  assumes "service_loop handle dispatch evs s = Inr s'" "busy s \<le> N" "limit s \<le> N"
    and "\<forall>ev\<in>fst ` set evs. \<forall>n. announced ev = Some n \<longrightarrow> n \<le> N"
  shows "busy s' \<le> N"
  using assms
proof (induction evs arbitrary: s)
  case (Cons e evs)
  obtain ev env where e: "e = (ev, env)" by (rule prod.exhaust)
  then obtain s1 s2 where s: "handle ev s = Inr s1" "dispatch env s1 = Some s2" "service_loop handle dispatch evs s2 = Inr s'"
    using Cons.prems(1) by (auto simp: res_simps split: sum.splits option.splits)
  have "busy s1 \<le> N" using handle_busy [OF s(1)] Cons.prems(2) by simp
  moreover have "limit s1 \<le> N"
    using handle_limit [OF s(1)] Cons.prems(3,4) e by (auto split: option.splits)
  ultimately show ?case
    using Cons.IH [OF s(3)] dispatch_busy [OF s(2)] dispatch_limit [OF s(2)] Cons.prems(4) by simp
qed simp

end

end
