(* ===== verification/OrderEvaluator.thy ===== *)
theory OrderEvaluator
  imports Dispatch OrderPricing
begin

text \<open>
  The order evaluator, \<open>order_evaluator/service.rs\<close>: new orders of all chains wait here until one of the
  slots for preflights is free, and are then handed to the pricer of their chain.

  \<open>evaluator\<close> holds the local variables of \<open>run\<close> and the orders handed over so far. An event is one
  branch of the \<open>select!\<close>; reading the configuration fails when its lock is poisoned.
\<close>

section \<open>State\<close>

datatype OrderEvaluatorErr = EvaluatorConfigReadErr | EvaluatorStaleCapacity string u64

datatype PreflightOutcome = PreflightPriced | PreflightSkipped | PreflightFailed | PreflightCancelled

record PreflightComplete =
  pc_order_id :: string
  pc_request_id :: u256
  pc_chain_id :: u64
  pc_outcome :: PreflightOutcome

definition DEFAULT_MAX_PREFLIGHT_DURATION_SECS :: u64 where "DEFAULT_MAX_PREFLIGHT_DURATION_SECS = 3600"

record evaluator =
  ev_max_concurrent_preflights :: nat
  ev_priority_mode :: OrderPricingPriority
  ev_priority_levels :: "(address \<times> int) list"
  ev_pending_orders :: "OrderRequest list"
  ev_in_flight :: "(string \<times> nat) list"
  ev_dispatched :: "OrderRequest list"

definition evaluator_read_config ::
    "unit + MarketConfig \<Rightarrow> OrderEvaluatorErr + (nat \<times> OrderPricingPriority \<times> address list option)" where
  "evaluator_read_config lock =
     (case lock of
        Inl _ \<Rightarrow> Inl EvaluatorConfigReadErr
      | Inr cfg \<Rightarrow> Inr (unat (cfg_max_concurrent_preflights cfg), cfg_order_pricing_priority cfg,
                       cfg_priority_requestor_addresses cfg))"

section \<open>Dispatch\<close>

record evaluator_env =
  ee_chains :: "u64 list" \<comment> \<open>keys of \<open>chain_dispatchers\<close>\<close>
  ee_priority :: "int option \<Rightarrow> priority_env"
  ee_try_send :: "nat \<Rightarrow> send_result" \<comment> \<open>answer to the attempt for the order at a position\<close>
  ee_instant :: "nat \<Rightarrow> nat"

definition dispatch_order :: "id_lib \<Rightarrow> evaluator_env \<Rightarrow> nat \<Rightarrow> OrderRequest \<Rightarrow> evaluator \<Rightarrow> evaluator" where
  "dispatch_order lib env k ord s =
     (if chain_id ord \<notin> set (ee_chains env) then s
      else case ee_try_send env k of
             SendOk \<Rightarrow> s\<lparr>ev_in_flight := AList.update (order_id lib ord) (ee_instant env k) (ev_in_flight s),
                        ev_dispatched := ev_dispatched s @ [ord]\<rparr>
           | SendFull \<Rightarrow> s\<lparr>ev_pending_orders := ev_pending_orders s @ [ord]\<rparr>
           | SendClosed \<Rightarrow> s)"

fun dispatch_orders :: "id_lib \<Rightarrow> evaluator_env \<Rightarrow> nat \<Rightarrow> OrderRequest list \<Rightarrow> evaluator \<Rightarrow> evaluator" where
  "dispatch_orders lib env k [] s = s"
| "dispatch_orders lib env k (ord # orders) s = dispatch_orders lib env (Suc k) orders (dispatch_order lib env k ord s)"

definition dispatch_pending :: "id_lib \<Rightarrow> evaluator_env \<Rightarrow> evaluator \<Rightarrow> evaluator option" where
  "dispatch_pending lib env s =
     (if ev_pending_orders s = [] \<or> length (ev_in_flight s) \<ge> ev_max_concurrent_preflights s then Some s
      else map_option (\<lambda>(selected, rest). dispatch_orders lib env 0 selected (s\<lparr>ev_pending_orders := rest\<rparr>))
             (prioritize_orders_to_evaluate (ee_priority env) (ev_priority_mode s) (Some (ev_priority_levels s))
                (ev_max_concurrent_preflights s - length (ev_in_flight s)) (ev_pending_orders s)))"

section \<open>Events\<close>

definition evaluator_reap_stale_capacity :: "(string \<Rightarrow> nat) \<Rightarrow> u64 \<Rightarrow> (string \<times> nat) list \<Rightarrow> (string \<times> nat) list" where
  "evaluator_reap_stale_capacity now max_age_secs in_flight = reap_slots now (\<lambda>dispatched_at. dispatched_at) max_age_secs in_flight"

datatype evaluator_event =
    NewOrder OrderRequest
  | PricingCompletion PreflightComplete
  | EvaluatorStateChange OrderStateChange
  | EvaluatorTick "unit + MarketConfig" "requestors list" "string \<Rightarrow> nat"
  | EvaluatorCancelled

fun handle_evaluator_event :: "evaluator_event \<Rightarrow> evaluator \<Rightarrow> OrderEvaluatorErr loop_end + evaluator" where
  "handle_evaluator_event (NewOrder ord) s = Inr (s\<lparr>ev_pending_orders := ev_pending_orders s @ [ord]\<rparr>)"
| "handle_evaluator_event (PricingCompletion completion) s =
     Inr (s\<lparr>ev_in_flight := AList.delete (pc_order_id completion) (ev_in_flight s)\<rparr>)"
| "handle_evaluator_event (EvaluatorStateChange change) s =
     Inr (s\<lparr>ev_pending_orders := retain_pending change (ev_pending_orders s)\<rparr>)"
| "handle_evaluator_event (EvaluatorTick lock handles now) s =
     (case evaluator_read_config lock of
        Inl e \<Rightarrow> Inl (Faulted e)
      | Inr (capacity, mode, static_addresses) \<Rightarrow>
          Inr (s\<lparr>ev_max_concurrent_preflights := capacity, ev_priority_mode := mode,
                ev_priority_levels := collect_priority_levels handles static_addresses,
                ev_in_flight := evaluator_reap_stale_capacity now DEFAULT_MAX_PREFLIGHT_DURATION_SECS (ev_in_flight s)\<rparr>))"
| "handle_evaluator_event EvaluatorCancelled s = Inl Cancelled"

definition evaluator_start :: "unit + MarketConfig \<Rightarrow> requestors list \<Rightarrow> OrderEvaluatorErr loop_end + evaluator" where
  "evaluator_start lock handles =
     (case evaluator_read_config lock of
        Inl e \<Rightarrow> Inl (Faulted e)
      | Inr (capacity, mode, static_addresses) \<Rightarrow>
          Inr \<lparr>ev_max_concurrent_preflights = capacity, ev_priority_mode = mode,
               ev_priority_levels = collect_priority_levels handles static_addresses,
               ev_pending_orders = [], ev_in_flight = [], ev_dispatched = []\<rparr>)"

definition evaluator_run ::
    "id_lib \<Rightarrow> unit + MarketConfig \<Rightarrow> requestors list \<Rightarrow> (evaluator_event \<times> evaluator_env) list
      \<Rightarrow> OrderEvaluatorErr loop_end + evaluator" where
  "evaluator_run lib lock handles evs =
     res_bind (evaluator_start lock handles) (service_loop handle_evaluator_event (dispatch_pending lib) evs)"

section \<open>Preflights stay within the limit\<close>

lemma dispatch_order_frame [simp]:
  "ev_max_concurrent_preflights (dispatch_order lib env k ord s) = ev_max_concurrent_preflights s"
  by (simp add: dispatch_order_def split: send_result.split)

lemma dispatch_order_busy: "length (ev_in_flight (dispatch_order lib env k ord s)) \<le> Suc (length (ev_in_flight s))"
  by (simp add: dispatch_order_def length_update_le split: send_result.split)

lemma dispatch_orders_frame [simp]:
  "ev_max_concurrent_preflights (dispatch_orders lib env k orders s) = ev_max_concurrent_preflights s"
  by (induction orders arbitrary: k s) simp_all

lemma dispatch_orders_busy:
  "length (ev_in_flight (dispatch_orders lib env k orders s)) \<le> length (ev_in_flight s) + length orders"
proof (induction orders arbitrary: k s)
  case (Cons ord orders)
  show ?case using Cons [of "Suc k" "dispatch_order lib env k ord s"] dispatch_order_busy [of lib env k ord s] by simp
qed simp

lemma dispatch_pending_capacity:
  assumes "dispatch_pending lib env s = Some s'"
  shows "length (ev_in_flight s') \<le> max (length (ev_in_flight s)) (ev_max_concurrent_preflights s)"
    and "ev_max_concurrent_preflights s' = ev_max_concurrent_preflights s"
proof -
  let ?n = "ev_max_concurrent_preflights s - length (ev_in_flight s)"
  have "s' = s \<or> (\<exists>selected rest. length selected \<le> ?n \<and> length (ev_in_flight s) < ev_max_concurrent_preflights s
      \<and> s' = dispatch_orders lib env 0 selected (s\<lparr>ev_pending_orders := rest\<rparr>))"
    using assms by (auto simp: dispatch_pending_def prioritize_orders_to_evaluate_def dest: prioritize_length split: if_splits)
  then consider "s' = s" | selected rest where "length selected \<le> ?n" "length (ev_in_flight s) < ev_max_concurrent_preflights s"
      "s' = dispatch_orders lib env 0 selected (s\<lparr>ev_pending_orders := rest\<rparr>)" by blast
  then show "length (ev_in_flight s') \<le> max (length (ev_in_flight s)) (ev_max_concurrent_preflights s)"
  proof cases
    case (2 selected rest)
    then show ?thesis using dispatch_orders_busy [of lib env 0 selected "s\<lparr>ev_pending_orders := rest\<rparr>"] by simp
  qed simp
  show "ev_max_concurrent_preflights s' = ev_max_concurrent_preflights s"
    using assms by (auto simp: dispatch_pending_def split: if_splits)
qed

fun evaluator_announced :: "evaluator_event \<Rightarrow> nat option" where
  "evaluator_announced (EvaluatorTick (Inr cfg) _ _) = Some (unat (cfg_max_concurrent_preflights cfg))"
| "evaluator_announced _ = None"

lemma evaluator_event_capacity:
  assumes "handle_evaluator_event ev s = Inr s'"
  shows "length (ev_in_flight s') \<le> length (ev_in_flight s)"
    and "ev_max_concurrent_preflights s' =
      (case evaluator_announced ev of Some n \<Rightarrow> n | None \<Rightarrow> ev_max_concurrent_preflights s)"
  using assms
  by (cases ev; auto simp: length_delete_le length_reap_slots_le evaluator_reap_stale_capacity_def evaluator_read_config_def
      split: sum.splits)+

interpretation evaluator_slots: capacity_service handle_evaluator_event "dispatch_pending lib"
    "\<lambda>s. length (ev_in_flight s)" ev_max_concurrent_preflights evaluator_announced for lib
  by unfold_locales (use evaluator_event_capacity dispatch_pending_capacity in auto)

text \<open>C29: however events and dispatches interleave and whatever the channels answer, the preflights in
  flight never exceed the largest \<open>max_concurrent_preflights\<close> the configuration had.\<close>

theorem preflights_within_limit:
  assumes "evaluator_run lib (Inr cfg) handles evs = Inr s"
    and "unat (cfg_max_concurrent_preflights cfg) \<le> N"
    and "\<forall>ev\<in>fst ` set evs. \<forall>n. evaluator_announced ev = Some n \<longrightarrow> n \<le> N"
  shows "length (ev_in_flight s) \<le> N"
proof -
  obtain s0 :: evaluator where "evaluator_start (Inr cfg) handles = Inr s0"
    and loop: "service_loop handle_evaluator_event (dispatch_pending lib) evs s0 = Inr s"
    using assms(1) by (auto simp: evaluator_run_def res_simps)
  then have "ev_in_flight s0 = []" "ev_max_concurrent_preflights s0 = unat (cfg_max_concurrent_preflights cfg)"
    by (auto simp: evaluator_start_def evaluator_read_config_def)
  then show ?thesis using evaluator_slots.loop_capacity [OF loop _ _ assms(3)] assms(2) by simp
qed

definition sample_evaluator_env :: evaluator_env where
  "sample_evaluator_env = \<lparr>ee_chains = [1], ee_priority = (\<lambda>_. sample_priority_env), ee_try_send = (\<lambda>_. SendOk), ee_instant = (\<lambda>k. k)\<rparr>"

theorem preflights_within_limit_witness:
  "\<exists>s. evaluator_run sample_lib (Inr (sample_config\<lparr>cfg_max_concurrent_preflights := 1\<rparr>)) []
         [(NewOrder (sample_order LockAndFulfill), sample_evaluator_env),
          (NewOrder (sample_order FulfillWithoutLocking), sample_evaluator_env)] = Inr s
     \<and> ev_dispatched s = [sample_order LockAndFulfill] \<and> length (ev_in_flight s) \<le> 1"
proof -
  let ?evs = "[(NewOrder (sample_order LockAndFulfill), sample_evaluator_env),
          (NewOrder (sample_order FulfillWithoutLocking), sample_evaluator_env)]"
  let ?cfg = "sample_config\<lparr>cfg_max_concurrent_preflights := 1\<rparr>"
  obtain s where s: "evaluator_run sample_lib (Inr ?cfg) [] ?evs = Inr s" "ev_dispatched s = [sample_order LockAndFulfill]"
    by (auto simp: evaluator_run_def evaluator_start_def evaluator_read_config_def res_simps dispatch_pending_def
        prioritize_orders_to_evaluate_def prioritize_def sort_orders_by_priority_and_mode_def collect_priority_levels_def
        sample_config_def sample_evaluator_env_def sample_priority_env_def dispatch_order_def sample_order_def order_request_new_def ok_or_def)
  then show ?thesis using preflights_within_limit [OF s(1), of 1] by auto
qed

end
