(* ===== verification/OrderCommitter.thy ===== *)
theory OrderCommitter
  imports Dispatch OrderPricing
begin

text \<open>
  The order committer, \<open>order_committer/service.rs\<close> and \<open>state.rs\<close>: priced orders of all chains wait here
  until their target time is reached and proving capacity is free, and are then handed to the locker
  of their chain.

  \<open>committer\<close> holds the local variables of \<open>run\<close>, the orders handed over so far and the skips reported to
  telemetry. \<open>commit_orders\<close> is \<open>None\<close> where the code panics, on a division by a proving speed of zero.
\<close>

section \<open>State\<close>

datatype OrderCommitterErr = CommitterConfigReadErr | CommitterStaleCapacity string u64

record InFlightOrder =
  if_dispatched_at :: nat
  if_total_cycles :: "u64 option"
  if_additional_proof_cycles :: u64
  if_proving_started_at :: "u64 option"

record CommitterConfig =
  cc_max_concurrent_proofs :: nat
  cc_max_commitment_duration_secs :: u64
  cc_peak_prove_khz :: "u64 option"
  cc_additional_proof_cycles :: u64
  cc_batch_buffer_time_secs :: u64
  cc_order_commitment_priority :: OrderCommitmentPriority
  cc_priority_addresses :: "address list option"

definition MAX_PROVING_BATCH_SIZE :: nat where "MAX_PROVING_BATCH_SIZE = 10"

record committer =
  oc_config :: CommitterConfig
  oc_priority_levels :: "(address \<times> int) list"
  oc_pending_orders :: "OrderRequest list"
  oc_in_flight :: "(string \<times> InFlightOrder) list"
  oc_dispatched :: "OrderRequest list"
  oc_skipped :: "(OrderRequest \<times> string) list"

text \<open>The configuration is read under one lock, the market section and the buffer of the batcher section.\<close>

definition committer_read_config :: "unit + MarketConfig \<times> u64 \<Rightarrow> OrderCommitterErr + CommitterConfig" where
  "committer_read_config lock =
     (case lock of
        Inl _ \<Rightarrow> Inl CommitterConfigReadErr
      | Inr (cfg, block_deadline_buffer_secs) \<Rightarrow>
          Inr \<lparr>cc_max_concurrent_proofs = unat (cfg_max_concurrent_proofs cfg),
               cc_max_commitment_duration_secs = cfg_max_commitment_duration_secs cfg,
               cc_peak_prove_khz = cfg_peak_prove_khz cfg,
               cc_additional_proof_cycles = cfg_additional_proof_cycles cfg,
               cc_batch_buffer_time_secs = block_deadline_buffer_secs,
               cc_order_commitment_priority = cfg_order_commitment_priority cfg,
               cc_priority_addresses = cfg_priority_requestor_addresses cfg\<rparr>)"

section \<open>The schedule of the prover\<close>

definition committed_cycles :: "InFlightOrder list \<Rightarrow> u64" where
  "committed_cycles infos =
     sum_list (List.map_filter (\<lambda>info. map_option (\<lambda>c. c + if_additional_proof_cycles info) (if_total_cycles info)) infos)"

definition started_proving_at :: "u64 \<Rightarrow> InFlightOrder list \<Rightarrow> u64" where
  "started_proving_at now infos =
     (case List.map_filter if_proving_started_at infos of [] \<Rightarrow> now | t # ts \<Rightarrow> fold min ts t)"

definition estimate_prover_available_at :: "u64 \<Rightarrow> (string \<times> InFlightOrder) list \<Rightarrow> u64 \<Rightarrow> u64 option" where
  "estimate_prover_available_at now in_flight peak_prove_khz =
     (if in_flight = [] then Some now
      else map_option (\<lambda>proof_time_seconds.
             let prover_available_at = started_proving_at now (map snd in_flight) + proof_time_seconds
             in if prover_available_at < now then now else prover_available_at)
           (proof_time (committed_cycles (map snd in_flight)) peak_prove_khz))"

definition order_additional_cycles :: "CommitterConfig \<Rightarrow> OrderRequest \<Rightarrow> u64" where
  "order_additional_cycles cfg ord =
     (case additional_proof_cycles ord of Some a \<Rightarrow> a | None \<Rightarrow> cc_additional_proof_cycles cfg)"

text \<open>The orders to keep, to queue again and to skip for good.\<close>

fun filter_by_schedule ::
    "CommitterConfig \<Rightarrow> u64 \<Rightarrow> u64 \<Rightarrow> u64 \<Rightarrow> OrderRequest list
      \<Rightarrow> (OrderRequest list \<times> OrderRequest list \<times> OrderRequest list) option" where
  "filter_by_schedule cfg peak_prove_khz now prover_available_at [] = Some ([], [], [])"
| "filter_by_schedule cfg peak_prove_khz now prover_available_at (ord # orders) =
     (case total_cycles ord of
        None \<Rightarrow> map_option (\<lambda>(kept, requeued, skipped). (ord # kept, requeued, skipped))
                  (filter_by_schedule cfg peak_prove_khz now prover_available_at orders)
      | Some order_cycles \<Rightarrow>
          Option.bind (proof_time (order_cycles + order_additional_cycles cfg ord) peak_prove_khz) (\<lambda>proof_time_seconds.
            let completion_time = prover_available_at + proof_time_seconds; expiration = order_expiry ord
            in if completion_time + cc_batch_buffer_time_secs cfg > expiration then
                 map_option (\<lambda>(kept, requeued, skipped).
                     if now + proof_time_seconds > expiration then (kept, requeued, ord # skipped)
                     else (kept, ord # requeued, skipped))
                   (filter_by_schedule cfg peak_prove_khz now prover_available_at orders)
               else
                 map_option (\<lambda>(kept, requeued, skipped). (ord # kept, requeued, skipped))
                   (filter_by_schedule cfg peak_prove_khz now completion_time orders)))"

section \<open>Committing\<close>

record commit_env =
  ce_chains :: "u64 list" \<comment> \<open>keys of \<open>locker_dispatchers\<close>\<close>
  ce_now :: u64
  ce_priority :: "int option \<Rightarrow> priority_env"
  ce_now_estimate :: u64
  ce_now_schedule :: u64
  ce_try_send :: "nat \<Rightarrow> send_result"
  ce_instant :: "nat \<Rightarrow> nat"
  ce_now_dispatch :: "nat \<Rightarrow> u64"

definition commit_order :: "id_lib \<Rightarrow> commit_env \<Rightarrow> nat \<Rightarrow> OrderRequest \<Rightarrow> committer \<Rightarrow> committer" where
  "commit_order lib env k ord s =
     (let oid = order_id lib ord in
      if chain_id ord \<notin> set (ce_chains env) then s
      else let slots = AList.update oid
                 \<lparr>if_dispatched_at = ce_instant env k, if_total_cycles = total_cycles ord,
                  if_additional_proof_cycles = order_additional_cycles (oc_config s) ord,
                  if_proving_started_at = Some (ce_now_dispatch env k)\<rparr> (oc_in_flight s)
           in case ce_try_send env k of
                SendOk \<Rightarrow> s\<lparr>oc_in_flight := slots, oc_dispatched := oc_dispatched s @ [ord]\<rparr>
              | SendFull \<Rightarrow> s\<lparr>oc_in_flight := AList.delete oid slots, oc_pending_orders := oc_pending_orders s @ [ord]\<rparr>
              | SendClosed \<Rightarrow> s\<lparr>oc_in_flight := AList.delete oid slots, oc_skipped := oc_skipped s @ [(ord, ''[B-OC-003]'')]\<rparr>)"

fun commit_each :: "id_lib \<Rightarrow> commit_env \<Rightarrow> nat \<Rightarrow> OrderRequest list \<Rightarrow> committer \<Rightarrow> committer" where
  "commit_each lib env k [] s = s"
| "commit_each lib env k (ord # orders) s = commit_each lib env (Suc k) orders (commit_order lib env k ord s)"

definition is_ready :: "u64 \<Rightarrow> OrderRequest \<Rightarrow> bool" where
  "is_ready now ord = (case target_timestamp ord of None \<Rightarrow> True | Some t \<Rightarrow> t \<le> now)"

definition schedule_selected :: "commit_env \<Rightarrow> OrderRequest list \<Rightarrow> committer \<Rightarrow> (OrderRequest list \<times> committer) option" where
  "schedule_selected env selected s =
     (case cc_peak_prove_khz (oc_config s) of
        None \<Rightarrow> Some (selected, s)
      | Some peak_prove_khz \<Rightarrow>
          Option.bind (estimate_prover_available_at (ce_now_estimate env) (oc_in_flight s) peak_prove_khz) (\<lambda>prover_available_at.
          map_option (\<lambda>(kept, requeued, skipped).
              (kept, s\<lparr>oc_pending_orders := oc_pending_orders s @ requeued,
                      oc_skipped := oc_skipped s @ map (\<lambda>ord. (ord, ''[B-OC-005]'')) skipped\<rparr>))
            (filter_by_schedule (oc_config s) peak_prove_khz (ce_now_schedule env) prover_available_at selected)))"

definition commit_orders :: "id_lib \<Rightarrow> commit_env \<Rightarrow> committer \<Rightarrow> committer option" where
  "commit_orders lib env s =
     (if oc_pending_orders s = [] then Some s
      else if length (oc_in_flight s) \<ge> cc_max_concurrent_proofs (oc_config s) then Some s
      else let (ready, not_ready) = partition (is_ready (ce_now env)) (oc_pending_orders s)
           in if ready = [] then Some (s\<lparr>oc_pending_orders := not_ready\<rparr>)
              else Option.bind (prioritize_orders_to_commit (ce_priority env) (cc_order_commitment_priority (oc_config s))
                       (Some (oc_priority_levels s))
                       (min (cc_max_concurrent_proofs (oc_config s) - length (oc_in_flight s)) MAX_PROVING_BATCH_SIZE)
                       (cc_peak_prove_khz (oc_config s)) ready) (\<lambda>(selected, rest).
                   map_option (\<lambda>(kept, s1). commit_each lib env 0 kept s1)
                     (schedule_selected env selected (s\<lparr>oc_pending_orders := not_ready @ rest\<rparr>))))"

section \<open>Events\<close>

definition committer_reap_stale_capacity ::
    "(string \<Rightarrow> nat) \<Rightarrow> u64 \<Rightarrow> (string \<times> InFlightOrder) list \<Rightarrow> (string \<times> InFlightOrder) list" where
  "committer_reap_stale_capacity now max_age_secs in_flight = reap_slots now if_dispatched_at max_age_secs in_flight"

datatype committer_event =
    PricedOrder OrderRequest
  | ProvingCompletion CommitmentComplete
  | CommitterStateChange OrderStateChange
  | CommitterTick "unit + MarketConfig \<times> u64" "requestors list" "string \<Rightarrow> nat"
  | CommitterCancelled

fun handle_committer_event :: "committer_event \<Rightarrow> committer \<Rightarrow> OrderCommitterErr loop_end + committer" where
  "handle_committer_event (PricedOrder ord) s = Inr (s\<lparr>oc_pending_orders := oc_pending_orders s @ [ord]\<rparr>)"
| "handle_committer_event (ProvingCompletion completion) s =
     Inr (s\<lparr>oc_in_flight := AList.delete (cc_order_id completion) (oc_in_flight s)\<rparr>)"
| "handle_committer_event (CommitterStateChange change) s =
     Inr (s\<lparr>oc_pending_orders := retain_pending change (oc_pending_orders s)\<rparr>)"
| "handle_committer_event (CommitterTick lock handles now) s =
     (case committer_read_config lock of
        Inl e \<Rightarrow> Inl (Faulted e)
      | Inr cfg \<Rightarrow>
          Inr (s\<lparr>oc_config := cfg\<lparr>cc_priority_addresses := None\<rparr>,
                oc_priority_levels := collect_priority_levels handles (cc_priority_addresses cfg),
                oc_in_flight := committer_reap_stale_capacity now (cc_max_commitment_duration_secs cfg) (oc_in_flight s)\<rparr>))"
| "handle_committer_event CommitterCancelled s = Inl Cancelled"

definition committer_start :: "unit + MarketConfig \<times> u64 \<Rightarrow> requestors list \<Rightarrow> OrderCommitterErr loop_end + committer" where
  "committer_start lock handles =
     (case committer_read_config lock of
        Inl e \<Rightarrow> Inl (Faulted e)
      | Inr cfg \<Rightarrow>
          Inr \<lparr>oc_config = cfg\<lparr>cc_priority_addresses := None\<rparr>,
               oc_priority_levels = collect_priority_levels handles (cc_priority_addresses cfg),
               oc_pending_orders = [], oc_in_flight = [], oc_dispatched = [], oc_skipped = []\<rparr>)"

definition committer_run ::
    "id_lib \<Rightarrow> unit + MarketConfig \<times> u64 \<Rightarrow> requestors list \<Rightarrow> (committer_event \<times> commit_env) list
      \<Rightarrow> OrderCommitterErr loop_end + committer" where
  "committer_run lib lock handles evs =
     res_bind (committer_start lock handles) (service_loop handle_committer_event (commit_orders lib) evs)"

section \<open>What committing leaves alone\<close>

lemma commit_order_frame [simp]: "oc_config (commit_order lib env k ord s) = oc_config s"
  by (simp add: commit_order_def Let_def split: send_result.split)

lemma commit_each_frame [simp]: "oc_config (commit_each lib env k orders s) = oc_config s"
  by (induction orders arbitrary: k s) simp_all

lemma schedule_selected_frame:
  "schedule_selected env selected s = Some (kept, s1) \<Longrightarrow> oc_config s1 = oc_config s \<and> oc_in_flight s1 = oc_in_flight s
     \<and> oc_dispatched s1 = oc_dispatched s"
  by (auto simp: schedule_selected_def bind_eq_Some_conv split: option.splits)

lemma commit_order_busy: "length (oc_in_flight (commit_order lib env k ord s)) \<le> Suc (length (oc_in_flight s))"
  by (simp add: commit_order_def Let_def length_update_le le_SucI [OF length_delete_update_le] split: send_result.split)

lemma commit_each_busy: "length (oc_in_flight (commit_each lib env k orders s)) \<le> length (oc_in_flight s) + length orders"
proof (induction orders arbitrary: k s)
  case (Cons ord orders)
  show ?case using Cons [of "Suc k" "commit_order lib env k ord s"] commit_order_busy [of lib env k ord s] by simp
qed simp

text \<open>The schedule splits the orders it is given.\<close>

lemma filter_by_schedule_splits:
  "filter_by_schedule cfg khz now avail orders = Some (kept, requeued, skipped) \<Longrightarrow>
     mset kept + mset requeued + mset skipped = mset orders"
  by (induction cfg khz now avail orders arbitrary: kept requeued skipped rule: filter_by_schedule.induct)
    (fastforce simp: bind_eq_Some_conv Let_def split: option.splits if_splits)+

lemma schedule_selected_splits:
  assumes "schedule_selected env selected s = Some (kept, s1)"
  shows "mset kept + mset (oc_pending_orders s1) + mset (map fst (oc_skipped s1))
    = mset selected + mset (oc_pending_orders s) + mset (map fst (oc_skipped s))"
proof (cases "cc_peak_prove_khz (oc_config s)")
  case None
  then show ?thesis using assms by (simp add: schedule_selected_def)
next
  case (Some khz)
  then obtain avail requeued skipped where f: "filter_by_schedule (oc_config s) khz (ce_now_schedule env) avail selected = Some (kept, requeued, skipped)"
    and s1: "s1 = s\<lparr>oc_pending_orders := oc_pending_orders s @ requeued,
                     oc_skipped := oc_skipped s @ map (\<lambda>ord. (ord, ''[B-OC-005]'')) skipped\<rparr>"
    using assms by (auto simp: schedule_selected_def bind_eq_Some_conv)
  show ?thesis using filter_by_schedule_splits [OF f, symmetric] by (simp add: s1 comp_def)
qed

lemma schedule_selected_length: "schedule_selected env selected s = Some (kept, s1) \<Longrightarrow> length kept \<le> length selected"
proof -
  have "filter_by_schedule cfg khz now avail orders = Some (ks, rs, ss) \<Longrightarrow> length ks \<le> length orders" for cfg khz now avail orders ks rs ss
    using arg_cong [OF filter_by_schedule_splits, of cfg khz now avail orders ks rs ss size] by simp
  then show "schedule_selected env selected s = Some (kept, s1) \<Longrightarrow> length kept \<le> length selected"
    by (auto simp: schedule_selected_def bind_eq_Some_conv split: option.splits)
qed

text \<open>A call of \<open>commit_orders\<close> that does not panic either leaves the state alone or goes
  through selection, scheduling and hand-over.\<close>

lemma commit_orders_cases:
  assumes "commit_orders lib env s = Some s'"
  obtains (idle) "s' = s"
  | (hand_over) selected rest kept s1 where
      "length (oc_in_flight s) < cc_max_concurrent_proofs (oc_config s)"
      "prioritize_orders_to_commit (ce_priority env) (cc_order_commitment_priority (oc_config s)) (Some (oc_priority_levels s))
         (min (cc_max_concurrent_proofs (oc_config s) - length (oc_in_flight s)) MAX_PROVING_BATCH_SIZE)
         (cc_peak_prove_khz (oc_config s)) (filter (is_ready (ce_now env)) (oc_pending_orders s)) = Some (selected, rest)"
      "schedule_selected env selected (s\<lparr>oc_pending_orders := filter (Not \<circ> is_ready (ce_now env)) (oc_pending_orders s) @ rest\<rparr>) = Some (kept, s1)"
      "s' = commit_each lib env 0 kept s1"
proof -
  have "filter (Not \<circ> is_ready (ce_now env)) (oc_pending_orders s) = oc_pending_orders s"
    if "filter (is_ready (ce_now env)) (oc_pending_orders s) = []"
    using that by (simp add: filter_empty_conv)
  then show thesis using assms that
    by (auto simp: commit_orders_def bind_eq_Some_conv not_le split: if_splits)
qed

section \<open>Proofs stay within the limit\<close>

lemma commit_orders_capacity:
  assumes "commit_orders lib env s = Some s'"
  shows "length (oc_in_flight s') \<le> max (length (oc_in_flight s)) (cc_max_concurrent_proofs (oc_config s))"
    and "oc_config s' = oc_config s"
proof -
  have "length (oc_in_flight s') \<le> max (length (oc_in_flight s)) (cc_max_concurrent_proofs (oc_config s)) \<and> oc_config s' = oc_config s"
    using assms
  proof (cases rule: commit_orders_cases)
    case (hand_over selected rest kept s1)
    have "length kept \<le> cc_max_concurrent_proofs (oc_config s) - length (oc_in_flight s)"
      using schedule_selected_length [OF hand_over(3)] prioritize_length [OF hand_over(2) [unfolded prioritize_orders_to_commit_def]] by simp
    then show ?thesis
      using hand_over(1,4) schedule_selected_frame [OF hand_over(3)] commit_each_busy [of lib env 0 kept s1] by simp
  qed simp
  then show "length (oc_in_flight s') \<le> max (length (oc_in_flight s)) (cc_max_concurrent_proofs (oc_config s))"
    and "oc_config s' = oc_config s" by simp_all
qed

fun committer_announced :: "committer_event \<Rightarrow> nat option" where
  "committer_announced (CommitterTick (Inr (cfg, _)) _ _) = Some (unat (cfg_max_concurrent_proofs cfg))"
| "committer_announced _ = None"

lemma committer_event_capacity:
  assumes "handle_committer_event ev s = Inr s'"
  shows "length (oc_in_flight s') \<le> length (oc_in_flight s)"
    and "cc_max_concurrent_proofs (oc_config s') =
      (case committer_announced ev of Some n \<Rightarrow> n | None \<Rightarrow> cc_max_concurrent_proofs (oc_config s))"
  using assms
  by (cases ev; auto simp: length_delete_le length_reap_slots_le committer_reap_stale_capacity_def committer_read_config_def
      split: sum.splits)+

interpretation committer_slots: capacity_service handle_committer_event "commit_orders lib"
    "\<lambda>s. length (oc_in_flight s)" "\<lambda>s. cc_max_concurrent_proofs (oc_config s)" committer_announced for lib
  by unfold_locales (use committer_event_capacity commit_orders_capacity in auto)

text \<open>C13: however events and commitments interleave and whatever the channels answer, the orders in flight
  to be proved never exceed the largest \<open>max_concurrent_proofs\<close> the configuration had.\<close>

theorem proofs_within_limit:
  assumes "committer_run lib (Inr (cfg, buffer)) handles evs = Inr s"
    and "unat (cfg_max_concurrent_proofs cfg) \<le> N"
    and "\<forall>ev\<in>fst ` set evs. \<forall>n. committer_announced ev = Some n \<longrightarrow> n \<le> N"
  shows "length (oc_in_flight s) \<le> N"
proof -
  obtain s0 :: committer where "committer_start (Inr (cfg, buffer)) handles = Inr s0"
    and loop: "service_loop handle_committer_event (commit_orders lib) evs s0 = Inr s"
    using assms(1) by (auto simp: committer_run_def res_simps)
  then have "oc_in_flight s0 = []" "cc_max_concurrent_proofs (oc_config s0) = unat (cfg_max_concurrent_proofs cfg)"
    by (auto simp: committer_start_def committer_read_config_def)
  then show ?thesis using committer_slots.loop_capacity [OF loop _ _ assms(3)] assms(2) by simp
qed

section \<open>No order is lost\<close>

definition all_orders :: "committer \<Rightarrow> OrderRequest multiset" where
  "all_orders s = mset (oc_pending_orders s) + mset (oc_dispatched s) + mset (map fst (oc_skipped s))"

lemma commit_each_accounts:
  "all_orders (commit_each lib env k orders s) + {#ord \<in># mset orders. chain_id ord \<notin> set (ce_chains env)#} = all_orders s + mset orders"
proof (induction orders arbitrary: k s)
  case (Cons ord orders)
  have "all_orders (commit_order lib env k ord s) = all_orders s + (if chain_id ord \<in> set (ce_chains env) then {#ord#} else {#})"
    by (simp add: commit_order_def all_orders_def Let_def split: send_result.split)
  then show ?case using Cons [of "Suc k" "commit_order lib env k ord s"] by (simp split: if_splits)
qed simp

lemma commit_order_prefix:
  "prefix (oc_dispatched s) (oc_dispatched (commit_order lib env k ord s)) \<and> prefix (oc_skipped s) (oc_skipped (commit_order lib env k ord s))"
  by (simp add: commit_order_def Let_def split: send_result.split)

lemma commit_each_prefix:
  "prefix (oc_dispatched s) (oc_dispatched (commit_each lib env k orders s)) \<and> prefix (oc_skipped s) (oc_skipped (commit_each lib env k orders s))"
proof (induction orders arbitrary: k s)
  case (Cons ord orders)
  show ?case using Cons [of "commit_order lib env k ord s" "Suc k"] commit_order_prefix [of s lib env k ord]
    by (auto intro: prefix_order.trans)
qed simp

lemma schedule_selected_prefix:
  "schedule_selected env selected s = Some (kept, s1) \<Longrightarrow> oc_dispatched s1 = oc_dispatched s \<and> prefix (oc_skipped s) (oc_skipped s1)"
  by (auto simp: schedule_selected_def bind_eq_Some_conv split: option.splits)

text \<open>C15: committing accounts for every order: each one that was pending is still pending, was handed to
  the locker of its chain, or was skipped and reported; the one exception is an order of a chain that
  has no locker. Orders handed over or reported before stay so.\<close>

theorem commit_accounts_for_orders:
  assumes "commit_orders lib env s = Some s'" and "\<forall>k. fair_shuffle (ce_priority env k)"
  shows "(\<exists>unroutable. all_orders s' + unroutable = all_orders s \<and> (\<forall>ord\<in>#unroutable. chain_id ord \<notin> set (ce_chains env)))
    \<and> prefix (oc_dispatched s) (oc_dispatched s') \<and> prefix (oc_skipped s) (oc_skipped s')"
  using assms(1)
proof (cases rule: commit_orders_cases)
  case idle
  then show ?thesis by (auto intro: exI [of _ "{#}"])
next
  case (hand_over selected rest kept s1)
  let ?p = "is_ready (ce_now env)" and ?u = "{#ord \<in># mset kept. chain_id ord \<notin> set (ce_chains env)#}"
  have sel: "mset selected + mset rest = filter_mset ?p (mset (oc_pending_orders s))"
    using prioritize_sound [OF hand_over(2) [unfolded prioritize_orders_to_commit_def] assms(2)] by simp
  have "mset selected + mset (filter (Not \<circ> ?p) (oc_pending_orders s) @ rest) =
      (mset selected + mset rest) + {#x \<in># mset (oc_pending_orders s). \<not> ?p x#}" by (simp add: comp_def)
  also have "\<dots> = mset (oc_pending_orders s)" unfolding sel by (simp add: multiset_partition [symmetric])
  finally have "all_orders s1 + mset kept = all_orders s"
    using schedule_selected_splits [OF hand_over(3)] schedule_selected_frame [OF hand_over(3)]
    by (simp add: all_orders_def ac_simps)
  then have "all_orders s' + ?u = all_orders s" using commit_each_accounts [of lib env 0 kept s1] hand_over(4) by simp
  then have "\<exists>u. all_orders s' + u = all_orders s \<and> (\<forall>ord\<in>#u. chain_id ord \<notin> set (ce_chains env))" by (intro exI [of _ ?u]) simp
  then show ?thesis using commit_each_prefix [of s1 lib env 0 kept] schedule_selected_prefix [OF hand_over(3)] hand_over(4)
    by (auto intro: prefix_order.trans)
qed

section \<open>Orders are handed over only if they can be proved in time\<close>

text \<open>The reference schedule, over the natural numbers: the prover works off the orders one after the other
  from a time on, and each is proved and batched before it expires.\<close>

definition proving_cycles :: "CommitterConfig \<Rightarrow> OrderRequest \<Rightarrow> nat" where
  "proving_cycles cfg ord = (case total_cycles ord of None \<Rightarrow> 0 | Some c \<Rightarrow> unat c + unat (order_additional_cycles cfg ord))"

definition proving_secs :: "CommitterConfig \<Rightarrow> u64 \<Rightarrow> OrderRequest \<Rightarrow> nat" where
  "proving_secs cfg khz ord =
     (if total_cycles ord = None then 0 else ((proving_cycles cfg ord + 999) div 1000 + unat khz - 1) div unat khz)"

fun on_schedule :: "CommitterConfig \<Rightarrow> u64 \<Rightarrow> nat \<Rightarrow> OrderRequest list \<Rightarrow> bool" where
  "on_schedule cfg khz t [] \<longleftrightarrow> True"
| "on_schedule cfg khz t (ord # orders) \<longleftrightarrow>
     (total_cycles ord \<noteq> None \<longrightarrow> t + proving_secs cfg khz ord + unat (cc_batch_buffer_time_secs cfg) \<le> unat (order_expiry ord))
     \<and> on_schedule cfg khz (t + proving_secs cfg khz ord) orders"

lemma on_schedule_earlier: "on_schedule cfg khz t orders \<Longrightarrow> t' \<le> t \<Longrightarrow> on_schedule cfg khz t' orders"
proof (induction orders arbitrary: t t')
  case (Cons ord orders)
  then show ?case using Cons.IH [of "t + proving_secs cfg khz ord" "t' + proving_secs cfg khz ord"] by auto
qed simp

lemma on_schedule_subseq: "subseq xs ys \<Longrightarrow> on_schedule cfg khz t ys \<Longrightarrow> on_schedule cfg khz t xs"
proof (induction arbitrary: t rule: list_emb.induct)
  case (list_emb_Cons xs ys y)
  then show ?case using on_schedule_earlier [of cfg khz "t + proving_secs cfg khz y" ys t] by simp
qed auto

lemma unat_proof_time:
  assumes "total_cycles ord = Some c" "proof_time (c + order_additional_cycles cfg ord) khz = Some secs" "proving_cycles cfg ord < 2 ^ 64"
  shows "unat secs = proving_secs cfg khz ord"
proof -
  have "khz \<noteq> 0" and secs: "secs = div_ceil (div_ceil (c + order_additional_cycles cfg ord) 1000) khz"
    using assms(2) by (auto simp: proof_time_def split: if_splits)
  moreover have "unat (c + order_additional_cycles cfg ord) = proving_cycles cfg ord"
    using assms(1,3) by (simp add: proving_cycles_def unat_add_lem [THEN iffD1])
  ultimately show ?thesis using assms(1) by (simp add: unat_div_ceil proving_secs_def add.commute [of 999])
qed

lemma filter_by_schedule_on_schedule:
  assumes "filter_by_schedule cfg khz now avail orders = Some (kept, requeued, skipped)"
    and "\<forall>ord\<in>set orders. proving_cycles cfg ord < 2 ^ 64"
    and "unat avail + unat (cc_batch_buffer_time_secs cfg) + sum_list (map (proving_secs cfg khz) orders) < 2 ^ 64"
  shows "on_schedule cfg khz (unat avail) kept"
  using assms
proof (induction orders arbitrary: avail kept requeued skipped)
  case (Cons ord orders)
  show ?case
  proof (cases "total_cycles ord")
    case None
    then show ?thesis using Cons by (auto simp: proving_secs_def)
  next
    case (Some c)
    then obtain secs where secs: "proof_time (c + order_additional_cycles cfg ord) khz = Some secs"
      using Cons.prems(1) by (auto simp: bind_eq_Some_conv)
    have u: "unat secs = proving_secs cfg khz ord" using unat_proof_time [OF Some secs] Cons.prems(2) by simp
    have a: "unat (avail + secs) = unat avail + unat secs" "unat (avail + secs + cc_batch_buffer_time_secs cfg)
        = unat avail + unat secs + unat (cc_batch_buffer_time_secs cfg)"
      using Cons.prems(3) u by (simp_all add: unat_word_ariths)
    show ?thesis
    proof (cases "avail + secs + cc_batch_buffer_time_secs cfg > order_expiry ord")
      case True
      then obtain rs ss where "filter_by_schedule cfg khz now avail orders = Some (kept, rs, ss)"
        using Cons.prems(1) Some secs by (auto simp: Let_def split: if_splits)
      then show ?thesis using Cons.IH Cons.prems(2,3) by simp
    next
      case False
      then obtain ks where f: "filter_by_schedule cfg khz now (avail + secs) orders = Some (ks, requeued, skipped)" "kept = ord # ks"
        using Cons.prems(1) Some secs by (auto simp: Let_def)
      have "on_schedule cfg khz (unat (avail + secs)) ks" using Cons.IH [OF f(1)] Cons.prems(2,3) a u by simp
      then show ?thesis using False f(2) a u by (simp add: not_less word_le_nat_alt)
    qed
  qed
qed simp

lemma commit_each_sends:
  "\<exists>new. oc_dispatched (commit_each lib env k orders s) = oc_dispatched s @ new \<and> subseq new orders"
proof (induction orders arbitrary: k s)
  case (Cons ord orders)
  obtain new where new: "oc_dispatched (commit_each lib env (Suc k) orders (commit_order lib env k ord s))
      = oc_dispatched (commit_order lib env k ord s) @ new" "subseq new orders" using Cons by blast
  have "oc_dispatched (commit_order lib env k ord s) \<in> {oc_dispatched s, oc_dispatched s @ [ord]}"
    by (simp add: commit_order_def Let_def split: send_result.split)
  then show ?case using new by auto
qed simp

text \<open>C14: with a configured proving speed, the orders handed over in one round can all be proved in the
  order they are handed over, after the work already in flight, and each in time to be batched before
  it expires.\<close>

theorem dispatched_on_schedule:
  assumes "commit_orders lib env s = Some s'" and "\<forall>k. fair_shuffle (ce_priority env k)"
    and "cc_peak_prove_khz (oc_config s) = Some khz"
    and "estimate_prover_available_at (ce_now_estimate env) (oc_in_flight s) khz = Some avail"
    and "\<forall>ord\<in>set (oc_pending_orders s). proving_cycles (oc_config s) ord < 2 ^ 64"
    and "unat avail + unat (cc_batch_buffer_time_secs (oc_config s))
      + sum_list (map (proving_secs (oc_config s) khz) (oc_pending_orders s)) < 2 ^ 64"
  shows "\<exists>new. oc_dispatched s' = oc_dispatched s @ new \<and> on_schedule (oc_config s) khz (unat avail) new"
  using assms(1)
proof (cases rule: commit_orders_cases)
  case (hand_over selected rest kept s1)
  let ?f = "proving_secs (oc_config s) khz" and ?p = "is_ready (ce_now env)"
  obtain requeued skipped where f: "filter_by_schedule (oc_config s) khz (ce_now_schedule env) avail selected = Some (kept, requeued, skipped)"
    using hand_over(3) assms(3,4) by (auto simp: schedule_selected_def)
  have sel: "mset selected + mset rest = filter_mset ?p (mset (oc_pending_orders s))"
    using prioritize_sound [OF hand_over(2) [unfolded prioritize_orders_to_commit_def] assms(2)] by simp
  then have sub: "mset selected \<subseteq># mset (oc_pending_orders s)"
    by (metis mset_subset_eq_add_left multiset_filter_subset subset_mset.order_trans)
  then obtain others where "mset (oc_pending_orders s) = mset selected + others" by (auto simp: mset_subset_eq_exists_conv)
  then have "sum_mset (image_mset ?f (mset (oc_pending_orders s))) = sum_mset (image_mset ?f (mset selected)) + sum_mset (image_mset ?f others)" by simp
  then have "sum_list (map ?f selected) \<le> sum_list (map ?f (oc_pending_orders s))"
    by (simp add: sum_mset_sum_list flip: mset_map)
  then have on: "on_schedule (oc_config s) khz (unat avail) kept"
    using filter_by_schedule_on_schedule [OF f] assms(5,6) set_mset_mono [OF sub] by auto
  obtain new where "oc_dispatched s' = oc_dispatched s1 @ new" "subseq new kept"
    using commit_each_sends [of lib env 0 kept s1] hand_over(4) by blast
  then show ?thesis using on_schedule_subseq [OF _ on] schedule_selected_frame [OF hand_over(3)] by auto
qed simp

text \<open>A proving speed of zero stops the service: the first ready order with a cycle count divides by it.\<close>

lemma zero_speed_panics:
  assumes "cc_peak_prove_khz (oc_config s) = Some 0" "cc_max_concurrent_proofs (oc_config s) > 0" "oc_in_flight s = []"
    and "oc_pending_orders s = [ord]" "is_ready (ce_now env) ord" "total_cycles ord = Some c" "\<forall>k. fair_shuffle (ce_priority env k)"
  shows "commit_orders lib env s = None"
proof (rule ccontr)
  assume "commit_orders lib env s \<noteq> None"
  then obtain s' where run: "commit_orders lib env s = Some s'" by blast
  then obtain selected rest kept s1 where
    sel: "prioritize_orders_to_commit (ce_priority env) (cc_order_commitment_priority (oc_config s)) (Some (oc_priority_levels s))
         (min (cc_max_concurrent_proofs (oc_config s)) MAX_PROVING_BATCH_SIZE) (Some 0) [ord] = Some (selected, rest)"
    and sch: "schedule_selected env selected (s\<lparr>oc_pending_orders := rest\<rparr>) = Some (kept, s1)"
    using assms by (auto simp: commit_orders_def bind_eq_Some_conv)
  have "mset selected + mset rest = {#ord#} \<and> length selected = 1"
    using prioritize_sound [OF sel [unfolded prioritize_orders_to_commit_def] assms(7)] assms(2) by (simp add: MAX_PROVING_BATCH_SIZE_def)
  then have "selected = [ord]" by (cases selected) auto
  then show False using sch assms by (auto simp: schedule_selected_def estimate_prover_available_at_def proof_time_def bind_eq_Some_conv)
qed

section \<open>An example\<close>

definition sample_commit_env :: commit_env where
  "sample_commit_env =
     \<lparr>ce_chains = [1], ce_now = 1050, ce_priority = (\<lambda>_. sample_priority_env), ce_now_estimate = 1050,
      ce_now_schedule = 1050, ce_try_send = (\<lambda>_. SendOk), ce_instant = (\<lambda>k. k), ce_now_dispatch = (\<lambda>_. 1050)\<rparr>"

definition sample_priced_order :: OrderRequest where
  "sample_priced_order = (sample_order LockAndFulfill)\<lparr>total_cycles := Some 2000000, target_timestamp := Some 1040\<rparr>"

definition sample_committer :: committer where
  "sample_committer =
     \<lparr>oc_config = \<lparr>cc_max_concurrent_proofs = 2, cc_max_commitment_duration_secs = 14400, cc_peak_prove_khz = Some 100,
        cc_additional_proof_cycles = 100, cc_batch_buffer_time_secs = 60, cc_order_commitment_priority = CommitShortestExpiry,
        cc_priority_addresses = None\<rparr>,
      oc_priority_levels = [], oc_pending_orders = [sample_priced_order], oc_in_flight = [], oc_dispatched = [], oc_skipped = []\<rparr>"

lemmas sample_committer_simps = sample_committer_def sample_commit_env_def sample_priority_env_def sample_priced_order_def
  sample_order_def order_request_new_def order_expiry_def lock_expires_at_def

lemma sample_commits:
  "\<exists>s. commit_orders sample_lib sample_commit_env sample_committer = Some s \<and> oc_dispatched s = [sample_priced_order]"
  by (simp add: commit_orders_def is_ready_def prioritize_orders_to_commit_def prioritize_def
      sort_orders_by_priority_and_mode_def schedule_selected_def estimate_prover_available_at_def proof_time_def
      order_additional_cycles_def div_ceil_def Let_def commit_order_def MAX_PROVING_BATCH_SIZE_def sample_committer_simps)

lemma sample_commit_fair: "\<forall>k. fair_shuffle (ce_priority sample_commit_env k)"
  by (simp add: sample_commit_env_def sample_priority_env_def fair_shuffle_def)

theorem commit_accounts_for_orders_witness:
  "\<exists>s. commit_orders sample_lib sample_commit_env sample_committer = Some s \<and> oc_dispatched s = [sample_priced_order]
     \<and> (\<exists>unroutable. all_orders s + unroutable = all_orders sample_committer \<and> (\<forall>ord\<in>#unroutable. chain_id ord \<notin> {1}))"
proof -
  obtain s :: committer where s: "commit_orders sample_lib sample_commit_env sample_committer = Some s" "oc_dispatched s = [sample_priced_order]"
    using sample_commits by blast
  from commit_accounts_for_orders [OF s(1) sample_commit_fair] show ?thesis
    using s by (auto simp: sample_commit_env_def)
qed

theorem dispatched_on_schedule_witness:
  "\<exists>s. commit_orders sample_lib sample_commit_env sample_committer = Some s
     \<and> oc_dispatched s = [sample_priced_order] \<and> on_schedule (oc_config sample_committer) 100 1050 (oc_dispatched s)"
proof -
  obtain s :: committer where s: "commit_orders sample_lib sample_commit_env sample_committer = Some s" "oc_dispatched s = [sample_priced_order]"
    using sample_commits by blast
  have "estimate_prover_available_at (ce_now_estimate sample_commit_env) (oc_in_flight sample_committer) 100 = Some 1050"
    by (simp add: estimate_prover_available_at_def sample_committer_simps)
  from dispatched_on_schedule [OF s(1) sample_commit_fair _ this] show ?thesis
    using s by (simp add: sample_committer_simps proving_cycles_def proving_secs_def order_additional_cycles_def)
qed

theorem proofs_within_limit_witness:
  "\<exists>s. committer_run sample_lib (Inr (sample_config\<lparr>cfg_max_concurrent_proofs := 1\<rparr>, 60)) []
         [(PricedOrder sample_priced_order, sample_commit_env),
          (PricedOrder (sample_priced_order\<lparr>fulfillment_type := FulfillWithoutLocking\<rparr>), sample_commit_env)] = Inr s
     \<and> oc_dispatched s = [sample_priced_order] \<and> length (oc_in_flight s) \<le> 1"
proof -
  let ?evs = "[(PricedOrder sample_priced_order, sample_commit_env),
          (PricedOrder (sample_priced_order\<lparr>fulfillment_type := FulfillWithoutLocking\<rparr>), sample_commit_env)]"
  let ?cfg = "sample_config\<lparr>cfg_max_concurrent_proofs := 1\<rparr>"
  obtain s where s: "committer_run sample_lib (Inr (?cfg, 60)) [] ?evs = Inr s" "oc_dispatched s = [sample_priced_order]"
    by (simp add: committer_run_def committer_start_def committer_read_config_def sample_config_def collect_priority_levels_def
      commit_orders_def is_ready_def prioritize_orders_to_commit_def prioritize_def ok_or_def
      sort_orders_by_priority_and_mode_def schedule_selected_def estimate_prover_available_at_def proof_time_def
      order_additional_cycles_def div_ceil_def Let_def commit_order_def MAX_PROVING_BATCH_SIZE_def sample_committer_simps)
  then show ?thesis using proofs_within_limit [OF s(1), of 1] by auto
qed

end
