(* ===== verification/OrderLocker.thy ===== *)
theory OrderLocker
  imports Dispatch OrderPricing DynamicGas
begin

text \<open>
  The order locker of a chain, \<open>order_locker/service.rs\<close> with the gas helpers of \<open>utils/helpers.rs\<close> and the
  status query of the market client: an order handed over by the committer is checked against the
  database and the chain, its gas is set against the balance, and it is locked on chain, or accepted
  without a lock, and stored for the proving pipeline. An order that is not accepted frees its slot; one
  that gas prices make unprofitable for now is tried again with the next block.

  Answers of the chain and readings of the clock are a \<open>lock_env\<close> for each order, and a \<open>locker_env\<close> for the
  orders that are processed together. \<open>lk_locked\<close> lists the orders whose lock transaction succeeded. The
  texts of errors, which only the log and telemetry read, are left out.
\<close>

section \<open>Types\<close>

datatype OrderLockerErr = LockTxFailed | LockTxNotConfirmed | LockInsufficientBalance | AlreadyLocked
  | LockRpcErr | LockUnexpectedError | PreLockCheckRetry

record OrderLockerConfig =
  ol_min_deadline :: u64
  ol_peak_prove_khz :: "u64 option"
  ol_max_concurrent_proofs :: "u32 option"
  ol_additional_proof_cycles :: u64

datatype RequestStatus = StatusExpired | StatusLocked | StatusFulfilled | StatusUnknown

record market_view =
  mv_timestamp :: "unit + u64"
  mv_is_fulfilled :: "unit + bool"
  mv_is_locked :: "unit + bool"
  mv_deadline :: "unit + u64"

text \<open>The errors of \<open>lock_request\<close> that are told apart, the others with their text.\<close>

datatype LockMarketError = TxnRequestIsLocked | TxnOther | MarketRequestAlreadyLocked | MarketTxnConfirmation
  | MarketLockRevert | MarketAnyError string | MarketOther string

record lock_env =
  le_is_fulfilled :: "unit + bool"
  le_now_deadline :: u64
  le_erc1271_gas :: u64
  le_market :: market_view
  le_collateral_balance :: "unit + u256"
  le_skip_gas_check :: "unit + bool"
  le_gas_price :: "unit + u128"
  le_now :: u64
  le_lock_request :: "LockMarketError + u64"
  le_block_timestamp :: "u64 \<Rightarrow> nat \<Rightarrow> unit + u64" \<comment> \<open>of a block, at an attempt\<close>
  le_now_insert :: "u64 \<times> u64"

record locker_env =
  lv_listen_only :: bool
  lv_chain_id :: u64
  lv_prover_addr :: string
  lv_signer_addr :: string
  lv_retry_count :: u64
  lv_backend :: BackendRouter
  lv_config :: "unit + MarketConfig"
  lv_gas_price :: "unit + u128"
  lv_balance :: "unit + u256"
  lv_order :: "OrderRequest \<Rightarrow> lock_env"

record locker =
  lk_pipe :: pipeline
  lk_locked :: "OrderRequest list"
  lk_retry_orders :: "OrderRequest list"
  lk_last_block :: u64
  lk_gas_mode :: PriorityMode
  lk_estimation_mode :: PriorityMode
  lk_cached_gas_mode :: "PriorityMode option"
  lk_cached_estimation_mode :: "PriorityMode option"

type_synonym 'a lock_result = "(OrderLockerErr loop_end + 'a) \<times> locker"

definition lk_db :: "(broker_db \<Rightarrow> 'a db_result) \<Rightarrow> locker \<Rightarrow> (DbError + 'a) \<times> locker" where
  "lk_db op s = (let (r, p) = in_db op (lk_pipe s) in (r, s\<lparr>lk_pipe := p\<rparr>))"

definition with_err :: "'e \<Rightarrow> ('x + 'a) \<times> 's \<Rightarrow> ('e + 'a) \<times> 's" where
  "with_err e m = (case fst m of Inl _ \<Rightarrow> Inl e | Inr x \<Rightarrow> Inr x, snd m)"

definition send_completion :: "id_lib \<Rightarrow> locker_env \<Rightarrow> OrderRequest \<Rightarrow> CommitmentOutcome \<Rightarrow> locker \<Rightarrow> locker" where
  "send_completion lib env ord outcome s =
     s\<lparr>lk_pipe := try_send \<lparr>cc_order_id = order_id lib ord, cc_chain_id = lv_chain_id env, cc_outcome = outcome\<rparr> (lk_pipe s)\<rparr>"

section \<open>Locking\<close>

definition get_status :: "market_view \<Rightarrow> u64 option \<Rightarrow> unit + RequestStatus" where
  "get_status mv expiry =
     res_bind (mv_timestamp mv) (\<lambda>timestamp.
     res_bind (mv_is_fulfilled mv) (\<lambda>fulfilled.
     if fulfilled then Inr StatusFulfilled
     else if (case expiry of Some e \<Rightarrow> timestamp > e | None \<Rightarrow> False) then Inr StatusExpired
     else res_bind (mv_is_locked mv) (\<lambda>locked.
       if locked then res_bind (mv_deadline mv) (\<lambda>deadline.
         Inr (if timestamp > deadline \<and> deadline > 0 then StatusExpired else StatusLocked))
       else Inr StatusUnknown)))"

definition ascii_lower :: "char \<Rightarrow> char" where
  "ascii_lower c = (let n = of_char c :: nat in if 65 \<le> n \<and> n \<le> 90 then char_of (n + 32) else c)"

fun remove_0x :: "string \<Rightarrow> string" where
  "remove_0x (a # b # rest) = (if a = CHR ''0'' \<and> b = CHR ''x'' then remove_0x rest else a # remove_0x (b # rest))"
| "remove_0x text = text"

fun trim_start_0x :: "string \<Rightarrow> string" where
  "trim_start_0x (a # b # rest) = (if a = CHR ''0'' \<and> b = CHR ''x'' then trim_start_0x rest else a # b # rest)"
| "trim_start_0x text = text"

fun lock_request_err :: "string \<Rightarrow> LockMarketError \<Rightarrow> OrderLockerErr" where
  "lock_request_err prover_addr TxnRequestIsLocked = AlreadyLocked"
| "lock_request_err prover_addr TxnOther = LockTxFailed"
| "lock_request_err prover_addr MarketRequestAlreadyLocked = AlreadyLocked"
| "lock_request_err prover_addr MarketTxnConfirmation = LockTxNotConfirmed"
| "lock_request_err prover_addr MarketLockRevert = LockTxFailed"
| "lock_request_err prover_addr (MarketAnyError e) =
     (if sublist ''InsufficientBalance'' e then
        (if sublist (remove_0x (map ascii_lower prover_addr)) (map ascii_lower e) then LockInsufficientBalance else LockTxFailed)
      else if sublist ''RequestIsLocked'' e then AlreadyLocked
      else if sublist ''replacement transaction underpriced'' e then LockRpcErr
      else LockUnexpectedError)"
| "lock_request_err prover_addr (MarketOther e) =
     (if sublist ''RequestIsLocked'' e then AlreadyLocked
      else if sublist ''replacement transaction underpriced'' e then LockRpcErr
      else LockUnexpectedError)"

text \<open>The comparison of gas and reward just before the lock.\<close>

definition pre_lock_check :: "lock_env \<Rightarrow> OrderRequest \<Rightarrow> OrderLockerErr + unit" where
  "pre_lock_check le ord =
     (if (case le_skip_gas_check le of Inr off \<Rightarrow> off | Inl _ \<Rightarrow> False) then Inr ()
      else case gas_estimate ord of
        None \<Rightarrow> Inr ()
      | Some gas \<Rightarrow>
          (case le_gas_price le of
             Inl _ \<Rightarrow> Inl PreLockCheckRetry
           | Inr gas_price \<Rightarrow>
               (case price_at (offer (request ord)) (le_now le) of
                  Inl _ \<Rightarrow> Inl PreLockCheckRetry
                | Inr reward \<Rightarrow> if ucast gas_price * ucast gas > reward then Inl PreLockCheckRetry else Inr ())))"

definition fetch_lock_timestamp :: "u64 \<Rightarrow> lock_env \<Rightarrow> u64 \<Rightarrow> unit + u64" where
  "fetch_lock_timestamp retry_count le lock_block =
     fst (retry_impl retry_count None (\<lambda>k. (le_block_timestamp le lock_block k, Suc k)) 0)"

definition lock_order :: "locker_env \<Rightarrow> OrderRequest \<Rightarrow> locker \<Rightarrow> (OrderLockerErr + u256) \<times> locker" where
  "lock_order env ord s =
     (let le = lv_order env ord; rid = request_id (request ord) in
      case get_status (le_market le) (Some (expires_at (request ord))) of
        Inl _ \<Rightarrow> (Inl LockRpcErr, s)
      | Inr status \<Rightarrow>
        if status \<noteq> StatusUnknown then (Inl AlreadyLocked, s)
        else db_bind (with_err LockUnexpectedError (lk_db (is_request_locked rid) s)) (\<lambda>is_locked s.
          if is_locked then (Inl AlreadyLocked, s)
          else case le_collateral_balance le of
            Inl _ \<Rightarrow> (Inl LockUnexpectedError, s)
          | Inr balance \<Rightarrow>
            if balance < lockCollateral (offer (request ord)) then (Inl LockInsufficientBalance, s)
            else case pre_lock_check le ord of
              Inl e \<Rightarrow> (Inl e, s)
            | Inr _ \<Rightarrow>
              (case le_lock_request le of
                 Inl e \<Rightarrow> (Inl (lock_request_err (lv_prover_addr env) e), s)
               | Inr lock_block \<Rightarrow>
                   (let s = s\<lparr>lk_locked := lk_locked s @ [ord]\<rparr> in
                    case fetch_lock_timestamp (lv_retry_count env) le lock_block of
                      Inl _ \<Rightarrow> (Inl LockUnexpectedError, s)
                    | Inr lock_timestamp \<Rightarrow>
                        (case price_at (offer (request ord)) lock_timestamp of
                           Inl _ \<Rightarrow> (Inl LockUnexpectedError, s)
                         | Inr lock_price \<Rightarrow> (Inr lock_price, s))))))"

section \<open>Validation\<close>

definition estimate_proving_time_no_load :: "u64 option \<Rightarrow> u64 \<Rightarrow> OrderLockerConfig \<Rightarrow> u64 option option" where
  "estimate_proving_time_no_load order_cycles additional cfg =
     (case (order_cycles, ol_peak_prove_khz cfg) of
        (Some cycles, Some khz) \<Rightarrow> map_option Some (proof_time (cycles + additional) khz)
      | _ \<Rightarrow> Some None)"

definition no_load_time :: "OrderLockerConfig \<Rightarrow> OrderRequest \<Rightarrow> u64 option option" where
  "no_load_time cfg ord =
     estimate_proving_time_no_load (total_cycles ord)
       (case additional_proof_cycles ord of Some a \<Rightarrow> a | None \<Rightarrow> ol_additional_proof_cycles cfg) cfg"

definition skip_order :: "id_lib \<Rightarrow> locker_env \<Rightarrow> OrderLockerConfig \<Rightarrow> OrderRequest \<Rightarrow> locker \<Rightarrow> unit lock_result" where
  "skip_order lib env cfg ord s =
     (let s = snd (lk_db get_committed_orders s) in
      case no_load_time cfg ord of
        None \<Rightarrow> (Inl Panicked, s)
      | Some _ \<Rightarrow> (Inr (), send_completion lib env ord CommitmentSkipped s))"

definition is_within_deadline :: "lock_env \<Rightarrow> u64 \<Rightarrow> u64 \<Rightarrow> OrderRequest \<Rightarrow> bool" where
  "is_within_deadline le current_block_timestamp min_deadline ord \<longleftrightarrow>
     \<not> order_expiry ord < current_block_timestamp
     \<and> \<not> saturating_sub (order_expiry ord) (le_now_deadline le) < min_deadline"

text \<open>Whether the order is a candidate; otherwise it has been skipped.\<close>

definition validate_order :: "id_lib \<Rightarrow> locker_env \<Rightarrow> OrderLockerConfig \<Rightarrow> u64 \<Rightarrow> OrderRequest \<Rightarrow> locker \<Rightarrow> bool lock_result" where
  "validate_order lib env cfg ts ord s =
     (let le = lv_order env ord; rid = request_id (request ord);
          skip_it = (\<lambda>s. db_bind (skip_order lib env cfg ord s) (\<lambda>_ s. (Inr False, s)));
          unexpected = Faulted LockUnexpectedError in
      if fulfillment_type ord \<noteq> LockAndFulfill then
        db_bind (with_err unexpected (lk_db (is_request_fulfilled rid) s)) (\<lambda>is_fulfilled s.
          if is_fulfilled then skip_it s
          else if \<not> is_within_deadline le ts (ol_min_deadline cfg) ord then skip_it s
          else case le_is_fulfilled le of
                 Inl _ \<Rightarrow> (Inl unexpected, s)
               | Inr fulfilled \<Rightarrow> if fulfilled then skip_it s else (Inr True, s))
      else if lock_expires_at (request ord) < ts then skip_it s
      else db_bind (with_err unexpected (lk_db (get_request_locked rid) s)) (\<lambda>locked s.
          case locked of
            Some (locker, _) \<Rightarrow>
              if trim_start_0x (map ascii_lower locker) \<noteq> trim_start_0x (map ascii_lower (lv_signer_addr env))
              then skip_it s else (Inr True, s)
          | None \<Rightarrow> if \<not> is_within_deadline le ts (ol_min_deadline cfg) ord then skip_it s else (Inr True, s)))"

fun validate_orders ::
    "id_lib \<Rightarrow> locker_env \<Rightarrow> OrderLockerConfig \<Rightarrow> u64 \<Rightarrow> OrderRequest list \<Rightarrow> locker \<Rightarrow> OrderRequest list lock_result" where
  "validate_orders lib env cfg ts [] s = (Inr [], s)"
| "validate_orders lib env cfg ts (ord # orders) s =
     db_bind (validate_order lib env cfg ts ord s) (\<lambda>ok s.
     db_bind (validate_orders lib env cfg ts orders s) (\<lambda>rest s.
     (Inr (if ok then ord # rest else rest), s)))"

section \<open>Gas\<close>

definition fulfill_gas_units :: "u64 \<Rightarrow> unit + MarketConfig \<Rightarrow> ProofRequest \<Rightarrow> nat option \<Rightarrow> unit + u64" where
  "fulfill_gas_units base lock req journal =
     res_bind lock (\<lambda>cfg.
     let journal_gas =
       (if predicateType (predicate (requirements req)) \<noteq> ClaimDigestMatchType
        then of_nat (case journal of Some n \<Rightarrow> n | None \<Rightarrow> cfg_max_journal_bytes cfg) * cfg_fulfill_journal_gas_per_byte cfg
        else 0)
     in case callback_gas req of Inl _ \<Rightarrow> Inl () | Inr cb \<Rightarrow> Inr (base + journal_gas + cb))"

definition estimate_gas_to_lock :: "unit + MarketConfig \<Rightarrow> lock_env \<Rightarrow> unit + u64" where
  "estimate_gas_to_lock lock le = res_bind lock (\<lambda>cfg. Inr (cfg_lockin_gas_estimate cfg + le_erc1271_gas le))"

definition fulfill_gas :: "locker_env \<Rightarrow> ProofRequest \<Rightarrow> nat option \<Rightarrow> unit + u64" where
  "fulfill_gas env req journal =
     (case router_fulfillment_gas (lv_backend env) req of
        Inl _ \<Rightarrow> Inl () | Inr base \<Rightarrow> fulfill_gas_units base (lv_config env) req journal)"

definition calculate_order_gas_cost_wei :: "locker_env \<Rightarrow> u128 \<Rightarrow> OrderRequest \<Rightarrow> unit + u256" where
  "calculate_order_gas_cost_wei env gas_price ord =
     res_bind (fulfill_gas env (request ord) (journal_bytes ord)) (\<lambda>fulfill_gas.
     res_bind (if fulfillment_type ord = LockAndFulfill
               then res_bind (estimate_gas_to_lock (lv_config env) (lv_order env ord)) (\<lambda>lock_gas.
                    Inr (saturating_add (ucast lock_gas) (ucast fulfill_gas)))
               else Inr (ucast fulfill_gas)) (\<lambda>order_gas_units.
     Inr (ucast gas_price * order_gas_units)))"

fun committed_gas :: "locker_env \<Rightarrow> Order list \<Rightarrow> unit + u64" where
  "committed_gas env [] = Inr 0"
| "committed_gas env (ord # ords) =
     res_bind (fulfill_gas env (db_request ord) (db_journal_bytes ord)) (\<lambda>g.
     res_bind (committed_gas env ords) (\<lambda>rest. Inr (g + rest)))"

fun select_affordable ::
    "id_lib \<Rightarrow> locker_env \<Rightarrow> OrderLockerConfig \<Rightarrow> u128 \<Rightarrow> u256 \<Rightarrow> OrderRequest list \<Rightarrow> locker \<Rightarrow> OrderRequest list lock_result" where
  "select_affordable lib env cfg gas_price remaining [] s = (Inr [], s)"
| "select_affordable lib env cfg gas_price remaining (ord # orders) s =
     (case calculate_order_gas_cost_wei env gas_price ord of
        Inl _ \<Rightarrow> (Inl (Faulted LockUnexpectedError), s)
      | Inr cost \<Rightarrow>
          if cost > remaining then
            db_bind (skip_order lib env cfg ord s) (\<lambda>_ s. select_affordable lib env cfg gas_price remaining orders s)
          else if no_load_time cfg ord = None then (Inl Panicked, s)
          else db_bind (select_affordable lib env cfg gas_price (remaining - cost) orders s) (\<lambda>rest s. (Inr (ord # rest), s)))"

definition available_balance_wei :: "locker_env \<Rightarrow> unit + u256" where
  "available_balance_wei env = (if lv_listen_only env then Inr (- 1) else lv_balance env)"

definition apply_gas_limits :: "id_lib \<Rightarrow> locker_env \<Rightarrow> OrderLockerConfig \<Rightarrow> OrderRequest list \<Rightarrow> locker \<Rightarrow> OrderRequest list lock_result" where
  "apply_gas_limits lib env cfg orders s =
     (let unexpected = Faulted LockUnexpectedError in
      case lv_gas_price env of
        Inl _ \<Rightarrow> (Inl unexpected, s)
      | Inr gas_price \<Rightarrow>
        (case available_balance_wei env of
           Inl _ \<Rightarrow> (Inl unexpected, s)
         | Inr available \<Rightarrow>
           db_bind (with_err unexpected (lk_db get_committed_orders s)) (\<lambda>committed s.
           case committed_gas env committed of
             Inl _ \<Rightarrow> (Inl unexpected, s)
           | Inr units \<Rightarrow>
               (let committed_cost = ucast gas_price * ucast units in
                if committed_cost > available then (Inr [], s)
                else select_affordable lib env cfg gas_price (available - committed_cost) orders s))))"

section \<open>Acceptance\<close>

definition store_accepted :: "id_lib \<Rightarrow> locker_env \<Rightarrow> OrderRequest \<Rightarrow> u256 \<Rightarrow> locker \<Rightarrow> locker" where
  "store_accepted lib env ord lock_price s =
     (let (now, now') = le_now_insert (lv_order env ord)
      in snd (lk_db (insert_accepted_request lib now now' ord lock_price) s))"

text \<open>The order if it is to be tried again.\<close>

definition lock_and_prove_order :: "id_lib \<Rightarrow> locker_env \<Rightarrow> OrderRequest \<Rightarrow> locker \<Rightarrow> OrderRequest list \<times> locker" where
  "lock_and_prove_order lib env ord s =
     (if lv_listen_only env then ([], send_completion lib env ord CommitmentSkipped s)
      else if fulfillment_type ord = LockAndFulfill then
        (case lock_order env ord s of
           (Inr lock_price, s) \<Rightarrow> ([], store_accepted lib env ord lock_price s)
         | (Inl err, s) \<Rightarrow>
             if err = PreLockCheckRetry then ([ord], s) else ([], send_completion lib env ord CommitmentSkipped s))
      else ([], store_accepted lib env ord 0 s))"

fun lock_and_prove_orders :: "id_lib \<Rightarrow> locker_env \<Rightarrow> OrderRequest list \<Rightarrow> locker \<Rightarrow> OrderRequest list \<times> locker" where
  "lock_and_prove_orders lib env [] s = ([], s)"
| "lock_and_prove_orders lib env (ord # orders) s =
     (let (retry, s) = lock_and_prove_order lib env ord s;
          (retries, s) = lock_and_prove_orders lib env orders s
      in (retry @ retries, s))"

definition process_orders :: "id_lib \<Rightarrow> locker_env \<Rightarrow> OrderLockerConfig \<Rightarrow> u64 \<Rightarrow> OrderRequest list \<Rightarrow> locker \<Rightarrow> unit lock_result" where
  "process_orders lib env cfg block_timestamp orders s =
     db_bind (validate_orders lib env cfg block_timestamp orders s) (\<lambda>valid s.
     if valid = [] then (Inr (), s)
     else db_bind (apply_gas_limits lib env cfg valid s) (\<lambda>affordable s.
       if affordable = [] then (Inr (), s)
       else let (retries, s) = lock_and_prove_orders lib env affordable s
            in (Inr (), s\<lparr>lk_retry_orders := lk_retry_orders s @ retries\<rparr>)))"

section \<open>The loop\<close>

definition locker_config :: "MarketConfig \<Rightarrow> OrderLockerConfig" where
  "locker_config c =
     \<lparr>ol_min_deadline = cfg_min_deadline c, ol_peak_prove_khz = cfg_peak_prove_khz c,
      ol_max_concurrent_proofs = Some (cfg_max_concurrent_proofs c), ol_additional_proof_cycles = cfg_additional_proof_cycles c\<rparr>"

definition update_gas_modes :: "PriorityMode \<Rightarrow> PriorityMode \<Rightarrow> locker \<Rightarrow> locker" where
  "update_gas_modes gas_mode estimation_mode s =
     (let s = (if lk_cached_gas_mode s \<noteq> Some gas_mode
               then s\<lparr>lk_gas_mode := gas_mode, lk_cached_gas_mode := Some gas_mode\<rparr> else s)
      in if lk_cached_estimation_mode s \<noteq> Some estimation_mode
         then s\<lparr>lk_estimation_mode := estimation_mode, lk_cached_estimation_mode := Some estimation_mode\<rparr> else s)"

text \<open>A branch of the \<open>select!\<close>; the chain head is a block number and a timestamp.\<close>

datatype locker_event =
    LockerOrder OrderRequest "unit + u64 \<times> u64" "unit + MarketConfig"
  | LockerTick "unit + u64 \<times> u64" "unit + MarketConfig \<times> PriorityMode \<times> PriorityMode" bool
  | LockerCancelled

fun handle_locker_event :: "id_lib \<Rightarrow> locker_env \<Rightarrow> locker_event \<Rightarrow> locker \<Rightarrow> unit lock_result" where
  "handle_locker_event lib env (LockerOrder ord head config) s =
     (case (head, config) of
        (Inr (_, block_timestamp), Inr c) \<Rightarrow> process_orders lib env (locker_config c) block_timestamp [ord] s
      | _ \<Rightarrow> (Inl (Faulted LockUnexpectedError), s))"
| "handle_locker_event lib env (LockerTick head config cancelled) s =
     (case head of
        Inl _ \<Rightarrow> (Inl (Faulted LockUnexpectedError), s)
      | Inr (block_number, block_timestamp) \<Rightarrow>
          if block_number = lk_last_block s then (Inr (), s)
          else let s = s\<lparr>lk_last_block := block_number\<rparr> in
            (case config of
               Inl _ \<Rightarrow> (Inl (Faulted LockUnexpectedError), s)
             | Inr (c, gas_mode, estimation_mode) \<Rightarrow>
                 (let s = update_gas_modes gas_mode estimation_mode s; retries = lk_retry_orders s in
                  if retries = [] then (Inr (), s)
                  else let s = s\<lparr>lk_retry_orders := []\<rparr> in
                    if cancelled then (Inl Cancelled, s)
                    else process_orders lib env (locker_config c) block_timestamp retries s)))"
| "handle_locker_event lib env LockerCancelled s = (Inl Cancelled, s)"

fun start_monitor :: "id_lib \<Rightarrow> (locker_event \<times> locker_env) list \<Rightarrow> locker \<Rightarrow> unit lock_result" where
  "start_monitor lib [] s = (Inr (), s)"
| "start_monitor lib ((ev, env) # evs) s =
     db_bind (handle_locker_event lib env ev s) (\<lambda>_ s. start_monitor lib evs s)"

section \<open>What an operation leaves alone\<close>

lemma lk_db_eq: "lk_db op s = (fst (op (pl_db (lk_pipe s))), s\<lparr>lk_pipe := (lk_pipe s)\<lparr>pl_db := snd (op (pl_db (lk_pipe s)))\<rparr>\<rparr>)"
  by (simp add: lk_db_def in_db_def split: prod.split)

lemma db_locked_statement: "(\<And>db. db_locked (snd (sql db)) = db_locked db) \<Longrightarrow> db_locked (snd (statement sql db)) = db_locked db"
  by (auto simp: statement_def split: list.split option.split)

lemma db_locked_reads [simp]:
  "db_locked (snd (is_request_locked rid db)) = db_locked db" "db_locked (snd (get_request_locked rid db)) = db_locked db"
  "db_locked (snd (is_request_fulfilled rid db)) = db_locked db" "db_locked (snd (get_committed_orders db)) = db_locked db"
  by (simp_all add: is_request_locked_def get_request_locked_def is_request_fulfilled_def get_committed_orders_def db_locked_statement)

lemma snd_db_bind_return [simp]: "snd (db_bind m (\<lambda>_ s. (Inr x, s))) = snd m"
  by (cases m; cases "fst m") auto

lemma db_locked_insert [simp]: "db_locked (snd (insert_accepted_request lib now now' req price db)) = db_locked db"
  by (simp add: insert_accepted_request_def insert_accepted_order_def db_locked_statement Let_def)

lemma statement_fst_Inr: "fst (statement (\<lambda>db. (Inr (f db), db)) db) = Inr x \<Longrightarrow> (\<And>fs. f (db\<lparr>db_faults := fs\<rparr>) = f db) \<Longrightarrow> x = f db"
  by (auto simp: statement_def split: list.splits option.splits)

lemma lock_reads_Inr:
  "fst (is_request_locked rid db) = Inr b \<Longrightarrow> b = (db_locked db rid \<noteq> None)"
  "fst (get_request_locked rid db) = Inr l \<Longrightarrow> l = db_locked db rid"
  unfolding is_request_locked_def get_request_locked_def by (drule statement_fst_Inr; simp)+

text \<open>The locks taken between two states.\<close>

definition locks_only :: "(OrderRequest \<Rightarrow> bool) \<Rightarrow> locker \<Rightarrow> locker \<Rightarrow> bool" where
  "locks_only Q s s' \<longleftrightarrow> db_locked (pl_db (lk_pipe s')) = db_locked (pl_db (lk_pipe s))
     \<and> (\<exists>new. lk_locked s' = lk_locked s @ new \<and> (\<forall>ord\<in>set new. Q ord))"

lemma locks_only_refl [simp]: "locks_only Q s s"
  by (simp add: locks_only_def)

lemma locks_only_trans: "locks_only Q s s1 \<Longrightarrow> locks_only Q s1 s2 \<Longrightarrow> locks_only Q s s2"
  by (fastforce simp: locks_only_def)

lemma locks_only_same: "db_locked (pl_db (lk_pipe s')) = db_locked (pl_db (lk_pipe s)) \<Longrightarrow> lk_locked s' = lk_locked s \<Longrightarrow> locks_only Q s s'"
  by (simp add: locks_only_def)

lemma locks_only_bind:
  assumes "locks_only Q s (snd m)" "\<And>x s1. m = (Inr x, s1) \<Longrightarrow> locks_only Q s1 (snd (f x s1))"
  shows "locks_only Q s (snd (db_bind m f))"
proof (cases "fst m")
  case (Inl e)
  then show ?thesis using assms(1) by (cases m) auto
next
  case (Inr x)
  then have m: "m = (Inr x, snd m)" by (simp add: prod_eq_iff)
  have "db_bind m f = f x (snd m)" by (subst m) simp
  then show ?thesis using locks_only_trans [OF assms(1) assms(2) [OF m]] by simp
qed

lemma try_send_db [simp]: "pl_db (try_send c p) = pl_db p"
  by (simp add: try_send_def split: nat.split)

lemma locks_only_steps [simp]:
  "locks_only Q s (send_completion lib env ord oc s)" "locks_only Q s (store_accepted lib env ord price s)"
  "locks_only Q s (snd (skip_order lib env cfg ord s))"
  by (auto intro!: locks_only_same simp: send_completion_def store_accepted_def skip_order_def lk_db_eq Let_def split: prod.split option.split)

lemma locks_only_db:
  "(\<And>db. db_locked (snd (op db)) = db_locked db) \<Longrightarrow> locks_only Q s (snd (with_err e (lk_db op s)))"
  by (rule locks_only_same) (simp_all add: with_err_def lk_db_eq)

lemmas locks_only_intros = locks_only_bind locks_only_db

section \<open>Orders are locked only when it pays\<close>

text \<open>What holds of an order at the moment its lock transaction is sent.\<close>

definition lock_justified :: "locker_env \<Rightarrow> (u256 \<rightharpoonup> string \<times> u64) \<Rightarrow> OrderRequest \<Rightarrow> bool" where
  "lock_justified env locked ord \<longleftrightarrow>
     (let le = lv_order env ord; off = offer (request ord) in
      \<not> lv_listen_only env \<and> fulfillment_type ord = LockAndFulfill
      \<and> locked (request_id (request ord)) = None \<and> get_status (le_market le) (Some (expires_at (request ord))) = Inr StatusUnknown
      \<and> (\<exists>balance. le_collateral_balance le = Inr balance \<and> lockCollateral off \<le> balance)
      \<and> (le_skip_gas_check le \<noteq> Inr True \<longrightarrow> (\<forall>gas. gas_estimate ord = Some gas \<longrightarrow>
           (\<exists>gas_price reward. le_gas_price le = Inr gas_price \<and> price_at off (le_now le) = Inr reward
              \<and> ucast gas_price * ucast gas \<le> reward))))"

lemma pre_lock_check_Inr:
  "pre_lock_check le ord = Inr u \<Longrightarrow> le_skip_gas_check le \<noteq> Inr True \<Longrightarrow> gas_estimate ord = Some gas \<Longrightarrow>
     \<exists>gas_price reward. le_gas_price le = Inr gas_price \<and> price_at (offer (request ord)) (le_now le) = Inr reward
       \<and> ucast gas_price * ucast gas \<le> reward"
  by (auto simp: pre_lock_check_def not_less split: sum.splits if_splits bool.splits)

lemma lock_order_locks:
  assumes "\<not> lv_listen_only env" "fulfillment_type ord = LockAndFulfill"
  shows "locks_only (\<lambda>x. x = ord \<and> lock_justified env (db_locked (pl_db (lk_pipe s))) x) s (snd (lock_order env ord s))"
proof -
  let ?le = "lv_order env ord" and ?D = "db_locked (pl_db (lk_pipe s))"
  let ?Q = "\<lambda>x. x = ord \<and> lock_justified env ?D x"
  let ?m = "with_err LockUnexpectedError (lk_db (is_request_locked (request_id (request ord))) s)"
  have add: "locks_only ?Q s1 (s1\<lparr>lk_locked := lk_locked s1 @ [ord]\<rparr>)"
    if "?m = (Inr False, s1)" "get_status (le_market ?le) (Some (expires_at (request ord))) = Inr StatusUnknown"
      "le_collateral_balance ?le = Inr balance" "\<not> balance < lockCollateral (offer (request ord))" "pre_lock_check ?le ord = Inr u" for s1 balance u
  proof -
    have "fst (is_request_locked (request_id (request ord)) (pl_db (lk_pipe s))) = Inr False"
      using that(1) by (auto simp: with_err_def lk_db_eq split: sum.splits)
    then have "?D (request_id (request ord)) = None" using lock_reads_Inr(1) by fastforce
    then have "lock_justified env ?D ord"
      using assms that(2-4) pre_lock_check_Inr [OF that(5)] by (simp add: lock_justified_def Let_def not_less)
    then show ?thesis by (simp add: locks_only_def)
  qed
  show ?thesis
  proof (cases "get_status (le_market ?le) (Some (expires_at (request ord)))")
    case (Inr status)
    show ?thesis
    proof (cases "status = StatusUnknown")
      case True
      show ?thesis
        unfolding lock_order_def Let_def Inr using True
        by (auto intro!: locks_only_bind locks_only_db add [OF _ Inr [unfolded True]] split: sum.split)
    qed (simp add: lock_order_def Inr Let_def)
  qed (simp add: lock_order_def Let_def)
qed

text \<open>What holds of an order that passed validation.\<close>

definition lock_timely :: "locker_env \<Rightarrow> OrderLockerConfig \<Rightarrow> u64 \<Rightarrow> (u256 \<rightharpoonup> string \<times> u64) \<Rightarrow> OrderRequest \<Rightarrow> bool" where
  "lock_timely env cfg ts locked ord \<longleftrightarrow> fulfillment_type ord = LockAndFulfill \<longrightarrow>
     ts \<le> lock_expires_at (request ord)
     \<and> (locked (request_id (request ord)) = None \<longrightarrow> is_within_deadline (lv_order env ord) ts (ol_min_deadline cfg) ord)"

lemma db_bind_InrE:
  assumes "db_bind m f = (Inr y, s2)"
  obtains x s1 where "m = (Inr x, s1)" "f x s1 = (Inr y, s2)"
  using assms by (auto simp: db_bind_Inr)

lemma validate_order_locks: "locks_only Q s (snd (validate_order lib env cfg ts ord s))"
  unfolding validate_order_def Let_def
  by (auto intro!: locks_only_intros split: sum.split option.split prod.split)

lemma validate_order_True:
  assumes "validate_order lib env cfg ts ord s = (Inr True, s1)"
  shows "lock_timely env cfg ts (db_locked (pl_db (lk_pipe s))) ord"
  unfolding lock_timely_def
proof (intro impI)
  assume ft: "fulfillment_type ord = LockAndFulfill"
  have ns: "db_bind (skip_order lib env cfg ord q) (\<lambda>_ s. (Inr False, s)) \<noteq> (Inr True, s1)" for q
    by (cases "skip_order lib env cfg ord q" rule: prod.exhaust; cases "fst (skip_order lib env cfg ord q)") auto
  show "ts \<le> lock_expires_at (request ord)
     \<and> (db_locked (pl_db (lk_pipe s)) (request_id (request ord)) = None \<longrightarrow>
          is_within_deadline (lv_order env ord) ts (ol_min_deadline cfg) ord)"
  proof (cases "lock_expires_at (request ord) < ts")
    case True
    then show ?thesis using assms ft ns [of s] by (simp add: validate_order_def)
  next
    case False
    have run: "db_bind (with_err (Faulted LockUnexpectedError) (lk_db (get_request_locked (request_id (request ord))) s)) (\<lambda>locked s.
          case locked of
            Some (locker, _) \<Rightarrow>
              if trim_start_0x (map ascii_lower locker) \<noteq> trim_start_0x (map ascii_lower (lv_signer_addr env))
              then db_bind (skip_order lib env cfg ord s) (\<lambda>_ s. (Inr False, s)) else (Inr True, s)
          | None \<Rightarrow> if \<not> is_within_deadline (lv_order env ord) ts (ol_min_deadline cfg) ord
              then db_bind (skip_order lib env cfg ord s) (\<lambda>_ s. (Inr False, s)) else (Inr True, s)) = (Inr True, s1)"
      using assms False ft by (simp add: validate_order_def Let_def)
    obtain l q where l: "with_err (Faulted LockUnexpectedError) (lk_db (get_request_locked (request_id (request ord))) s) = (Inr l, q)"
      and rest: "(case l of
            Some (locker, _) \<Rightarrow>
              if trim_start_0x (map ascii_lower locker) \<noteq> trim_start_0x (map ascii_lower (lv_signer_addr env))
              then db_bind (skip_order lib env cfg ord q) (\<lambda>_ s. (Inr False, s)) else (Inr True, q)
          | None \<Rightarrow> if \<not> is_within_deadline (lv_order env ord) ts (ol_min_deadline cfg) ord
              then db_bind (skip_order lib env cfg ord q) (\<lambda>_ s. (Inr False, s)) else (Inr True, q)) = (Inr True, s1)"
      by (rule db_bind_InrE [OF run])
    have "l = db_locked (pl_db (lk_pipe s)) (request_id (request ord))"
      using l lock_reads_Inr(2) by (auto simp: with_err_def lk_db_eq split: sum.splits)
    then show ?thesis using rest False ns [of q] by (auto split: if_splits option.splits)
  qed
qed

lemma validate_orders_locks: "locks_only Q s (snd (validate_orders lib env cfg ts orders s))"
  by (induction orders arbitrary: s) (auto intro!: locks_only_bind validate_order_locks)

lemma db_locked_snd: "locks_only Q s s1 \<Longrightarrow> db_locked (pl_db (lk_pipe s1)) = db_locked (pl_db (lk_pipe s))"
  by (simp add: locks_only_def)

lemma validate_orders_subset: "validate_orders lib env cfg ts orders s = (Inr valid, s1) \<Longrightarrow> set valid \<subseteq> set orders"
  by (induction orders arbitrary: s valid s1) (fastforce elim!: db_bind_InrE split: if_splits)+

lemma validate_orders_timely:
  "validate_orders lib env cfg ts orders s = (Inr valid, s1) \<Longrightarrow> \<forall>ord\<in>set valid. lock_timely env cfg ts (db_locked (pl_db (lk_pipe s))) ord"
proof (induction orders arbitrary: s valid s1)
  case (Cons ord orders)
  obtain ok q where v: "validate_order lib env cfg ts ord s = (Inr ok, q)"
    and r: "db_bind (validate_orders lib env cfg ts orders q) (\<lambda>rest s. (Inr (if ok then ord # rest else rest), s)) = (Inr valid, s1)"
    by (rule db_bind_InrE [OF Cons.prems [unfolded validate_orders.simps]])
  obtain rest q' where w: "validate_orders lib env cfg ts orders q = (Inr rest, q')" "valid = (if ok then ord # rest else rest)"
    by (rule db_bind_InrE [OF r]) simp
  have "db_locked (pl_db (lk_pipe q)) = db_locked (pl_db (lk_pipe s))"
    using db_locked_snd [OF validate_order_locks [of _ s lib env cfg ts ord]] v by simp
  then show ?case using Cons.IH [OF w(1)] w(2) validate_order_True [of lib env cfg ts ord s q] v by (auto split: if_splits)
qed simp

lemma select_affordable_locks: "locks_only Q s (snd (select_affordable lib env cfg gp rem orders s))"
  by (induction orders arbitrary: rem s) (auto intro!: locks_only_bind split: sum.split)

lemma apply_gas_limits_locks: "locks_only Q s (snd (apply_gas_limits lib env cfg orders s))"
  unfolding apply_gas_limits_def Let_def
  by (auto intro!: locks_only_intros select_affordable_locks split: sum.split)

lemma select_affordable_subseq: "select_affordable lib env cfg gp rem orders s = (Inr xs, s1) \<Longrightarrow> subseq xs orders"
proof (induction orders arbitrary: rem s xs)
  case (Cons ord orders)
  obtain cost where c: "calculate_order_gas_cost_wei env gp ord = Inr cost"
    using Cons.prems by (auto split: sum.splits)
  show ?case
  proof (cases "cost > rem")
    case True
    then have run: "db_bind (skip_order lib env cfg ord s) (\<lambda>_ s. select_affordable lib env cfg gp rem orders s) = (Inr xs, s1)"
      using Cons.prems c by simp
    show ?thesis by (rule db_bind_InrE [OF run]) (auto dest: Cons.IH)
  next
    case False
    then have run: "db_bind (select_affordable lib env cfg gp (rem - cost) orders s) (\<lambda>rest s. (Inr (ord # rest), s)) = (Inr xs, s1)"
      using Cons.prems c by (auto split: if_splits)
    show ?thesis by (rule db_bind_InrE [OF run]) (auto dest: Cons.IH)
  qed
qed simp

lemma apply_gas_limits_subseq: "apply_gas_limits lib env cfg orders s = (Inr xs, s1) \<Longrightarrow> subseq xs orders"
  by (auto simp: apply_gas_limits_def Let_def split: sum.splits if_splits elim!: db_bind_InrE dest!: select_affordable_subseq)

lemma lock_and_prove_order_locks:
  "locks_only (\<lambda>x. x = ord \<and> lock_justified env (db_locked (pl_db (lk_pipe s))) x) s (snd (lock_and_prove_order lib env ord s))"
proof (cases "lv_listen_only env \<or> fulfillment_type ord \<noteq> LockAndFulfill")
  case True
  then show ?thesis by (auto simp: lock_and_prove_order_def)
next
  case False
  obtain r q where q: "lock_order env ord s = (r, q)" by (rule prod.exhaust)
  have l: "locks_only (\<lambda>x. x = ord \<and> lock_justified env (db_locked (pl_db (lk_pipe s))) x) s q"
    using lock_order_locks [of env ord s] False q by simp
  show ?thesis using False q l
    by (cases r) (auto simp: lock_and_prove_order_def intro: locks_only_trans [OF l])
qed

lemma locks_only_mono: "locks_only P s s' \<Longrightarrow> (\<And>x. P x \<Longrightarrow> Q x) \<Longrightarrow> locks_only Q s s'"
  by (auto simp: locks_only_def)

lemma lock_and_prove_orders_locks:
  "locks_only (\<lambda>x. x \<in> set orders \<and> lock_justified env (db_locked (pl_db (lk_pipe s))) x) s (snd (lock_and_prove_orders lib env orders s))"
proof (induction orders arbitrary: s)
  case (Cons ord orders)
  obtain r q where q: "lock_and_prove_order lib env ord s = (r, q)" by (rule prod.exhaust)
  have 1: "locks_only (\<lambda>x. x = ord \<and> lock_justified env (db_locked (pl_db (lk_pipe s))) x) s q"
    using lock_and_prove_order_locks [of ord env s lib] q by simp
  have "locks_only (\<lambda>x. x \<in> set orders \<and> lock_justified env (db_locked (pl_db (lk_pipe s))) x) q (snd (lock_and_prove_orders lib env orders q))"
    using Cons [of q] db_locked_snd [OF 1] by simp
  then show ?case
    using locks_only_trans [OF locks_only_mono [OF 1] locks_only_mono] q by (fastforce simp: Let_def split: prod.split)
qed simp

text \<open>C17: an order is locked on chain only if it was offered to the locker to be locked, the request is open
  on chain and not known as locked, there is time enough to prove it, the collateral is there, and the
  gas is not worth more than the reward at that moment unless this check is switched off; whatever the
  chain and the database answer, and never in listen-only mode.\<close>

theorem locked_only_when_justified:
  assumes "process_orders lib env cfg ts orders s = (r, s')"
  shows "\<exists>new. lk_locked s' = lk_locked s @ new \<and> (\<forall>ord\<in>set new. ord \<in> set orders \<and> lock_justified env (db_locked (pl_db (lk_pipe s))) ord
    \<and> ts \<le> lock_expires_at (request ord) \<and> is_within_deadline (lv_order env ord) ts (ol_min_deadline cfg) ord)"
proof -
  let ?D = "db_locked (pl_db (lk_pipe s))"
  let ?Q = "\<lambda>ord. ord \<in> set orders \<and> lock_justified env ?D ord \<and> lock_timely env cfg ts ?D ord"
  have "locks_only ?Q s (snd (process_orders lib env cfg ts orders s))"
    unfolding process_orders_def
  proof (intro locks_only_bind validate_orders_locks)
    fix valid s1
    assume v: "validate_orders lib env cfg ts orders s = (Inr valid, s1)"
    have D1: "db_locked (pl_db (lk_pipe s1)) = ?D" using db_locked_snd [OF validate_orders_locks [of _ s lib env cfg ts orders]] v by simp
    have "locks_only ?Q s2 (snd (let (retries, s) = lock_and_prove_orders lib env aff s2 in (Inr (), s\<lparr>lk_retry_orders := lk_retry_orders s @ retries\<rparr>)))"
      if a: "apply_gas_limits lib env cfg valid s1 = (Inr aff, s2)" for aff s2
    proof -
      have D2: "db_locked (pl_db (lk_pipe s2)) = ?D" using db_locked_snd [OF apply_gas_limits_locks [of _ s1 lib env cfg valid]] a D1 by simp
      have "set aff \<subseteq> set valid"
        using apply_gas_limits_subseq [OF a] by (auto dest: list_emb_set)
      then have "\<forall>ord\<in>set aff. ord \<in> set orders \<and> lock_timely env cfg ts ?D ord"
        using validate_orders_timely [OF v] validate_orders_subset [OF v] by blast
      then have "locks_only ?Q s2 (snd (lock_and_prove_orders lib env aff s2))"
        using lock_and_prove_orders_locks [of aff env s2 lib] D2 by (auto elim: locks_only_mono)
      then show ?thesis by (cases "lock_and_prove_orders lib env aff s2") (simp add: locks_only_def)
    qed
    then show "locks_only ?Q s1 (snd (if valid = [] then (Inr (), s1)
       else db_bind (apply_gas_limits lib env cfg valid s1) (\<lambda>affordable s.
         if affordable = [] then (Inr (), s)
         else let (retries, s) = lock_and_prove_orders lib env affordable s
              in (Inr (), s\<lparr>lk_retry_orders := lk_retry_orders s @ retries\<rparr>))))"
      by (auto intro!: locks_only_bind apply_gas_limits_locks)
  qed
  then obtain new where "lk_locked s' = lk_locked s @ new" "\<forall>ord\<in>set new. ?Q ord" using assms by (auto simp: locks_only_def)
  then show ?thesis by (intro exI [of _ new]) (auto simp: lock_justified_def lock_timely_def Let_def)
qed

section \<open>Gas stays within the balance\<close>

lemma select_affordable_budget:
  "select_affordable lib env cfg gp rem orders s = (Inr xs, s1) \<Longrightarrow>
     \<exists>costs. map (calculate_order_gas_cost_wei env gp) xs = map Inr costs \<and> (\<Sum>c\<leftarrow>costs. unat c) \<le> unat rem"
proof (induction orders arbitrary: rem s xs s1)
  case (Cons ord orders)
  obtain cost where c: "calculate_order_gas_cost_wei env gp ord = Inr cost"
    using Cons.prems by (auto split: sum.splits)
  show ?case
  proof (cases "cost > rem")
    case True
    then have run: "db_bind (skip_order lib env cfg ord s) (\<lambda>_ s. select_affordable lib env cfg gp rem orders s) = (Inr xs, s1)"
      using Cons.prems c by simp
    show ?thesis by (rule db_bind_InrE [OF run]) (rule Cons.IH)
  next
    case False
    then have run: "db_bind (select_affordable lib env cfg gp (rem - cost) orders s) (\<lambda>rest s. (Inr (ord # rest), s)) = (Inr xs, s1)"
      using Cons.prems c by (auto split: if_splits)
    obtain rest q where r: "select_affordable lib env cfg gp (rem - cost) orders s = (Inr rest, q)" "xs = ord # rest"
      by (rule db_bind_InrE [OF run]) simp
    obtain costs where "map (calculate_order_gas_cost_wei env gp) rest = map Inr costs" "(\<Sum>c\<leftarrow>costs. unat c) \<le> unat (rem - cost)"
      using Cons.IH [OF r(1)] by blast
    moreover have "unat (rem - cost) + unat cost = unat rem" using False by (simp add: unat_sub word_le_nat_alt not_less)
    ultimately show ?thesis using c r(2) by (intro exI [of _ "cost # costs"]) simp
  qed
qed simp

text \<open>C20: the orders that pass the gas limits can be paid for together: the gas of the orders already
  committed to and of all orders that pass, at the current gas price, is within the balance.\<close>

theorem gas_within_balance:
  assumes "apply_gas_limits lib env cfg orders s = (Inr passed, s')" "passed \<noteq> []"
  shows "\<exists>gas_price available units committed costs. lv_gas_price env = Inr gas_price \<and> available_balance_wei env = Inr available
    \<and> fst (get_committed_orders (pl_db (lk_pipe s))) = Inr committed \<and> committed_gas env committed = Inr units
    \<and> map (calculate_order_gas_cost_wei env gas_price) passed = map Inr costs
    \<and> unat gas_price * unat units + (\<Sum>c\<leftarrow>costs. unat c) \<le> unat available"
proof -
  obtain gp av where g: "lv_gas_price env = Inr gp" "available_balance_wei env = Inr av"
    using assms(1) by (auto simp: apply_gas_limits_def Let_def split: sum.splits)
  have run: "db_bind (with_err (Faulted LockUnexpectedError) (lk_db get_committed_orders s)) (\<lambda>committed s.
           case committed_gas env committed of
             Inl _ \<Rightarrow> (Inl (Faulted LockUnexpectedError), s)
           | Inr units \<Rightarrow>
                if ucast gp * ucast units > av then (Inr [], s)
                else select_affordable lib env cfg gp (av - ucast gp * ucast units) orders s) = (Inr passed, s')"
    using assms(1) g unfolding apply_gas_limits_def Let_def by simp
  obtain committed q where c: "with_err (Faulted LockUnexpectedError) (lk_db get_committed_orders s) = (Inr committed, q)"
    and rest: "(case committed_gas env committed of
             Inl _ \<Rightarrow> (Inl (Faulted LockUnexpectedError), q)
           | Inr units \<Rightarrow>
                if ucast gp * ucast units > av then (Inr [], q)
                else select_affordable lib env cfg gp (av - ucast gp * ucast units) orders q) = (Inr passed, s')"
    by (rule db_bind_InrE [OF run])
  have com: "fst (get_committed_orders (pl_db (lk_pipe s))) = Inr committed"
    using c by (auto simp: with_err_def lk_db_eq split: sum.splits)
  obtain units where u: "committed_gas env committed = Inr units" "\<not> av < ucast gp * ucast units"
    "select_affordable lib env cfg gp (av - ucast gp * ucast units) orders q = (Inr passed, s')"
    using rest assms(2) by (auto split: sum.splits if_splits)
  have mul: "unat (ucast gp * ucast units :: u256) = unat gp * unat units" by (rule unat_gas_product)
  obtain costs where "map (calculate_order_gas_cost_wei env gp) passed = map Inr costs"
    "(\<Sum>c\<leftarrow>costs. unat c) \<le> unat (av - ucast gp * ucast units)" using select_affordable_budget [OF u(3)] by blast
  moreover have "unat (av - ucast gp * ucast units) + unat gp * unat units = unat av"
    using u(2) mul by (simp add: unat_sub word_le_nat_alt not_less)
  ultimately show ?thesis using g com u(1) by auto
qed

section \<open>Every order is accounted for\<close>

abbreviation healthy_db :: "locker \<Rightarrow> bool" where
  "healthy_db s \<equiv> db_faults (pl_db (lk_pipe s)) = []"

definition skipped_message :: "u64 \<Rightarrow> string \<Rightarrow> CommitmentComplete" where
  "skipped_message chain i = \<lparr>cc_order_id = i, cc_chain_id = chain, cc_outcome = CommitmentSkipped\<rparr>"

text \<open>The slots of some orders released, and nothing else changed.\<close>

definition released :: "u64 \<Rightarrow> string list \<Rightarrow> locker \<Rightarrow> locker" where
  "released chain ids s =
     s\<lparr>lk_pipe := (lk_pipe s)\<lparr>pl_sent := pl_sent (lk_pipe s) @ map (skipped_message chain) ids,
                               pl_room := pl_room (lk_pipe s) - length ids\<rparr>\<rparr>"

lemma released_Nil [simp]: "released chain [] s = s"
  by (simp add: released_def)

lemma released_released [simp]: "released chain js (released chain is s) = released chain (is @ js) s"
  by (simp add: released_def)

lemma released_sel [simp]:
  "pl_db (lk_pipe (released chain ids s)) = pl_db (lk_pipe s)" "lk_retry_orders (released chain ids s) = lk_retry_orders s"
  "pl_room (lk_pipe (released chain ids s)) = pl_room (lk_pipe s) - length ids"
  "pl_sent (lk_pipe (released chain ids s)) = pl_sent (lk_pipe s) @ map (skipped_message chain) ids"
  by (simp_all add: released_def)

lemma healthy_reads [simp]:
  assumes "healthy_db s"
  shows "lk_db (is_request_locked rid) s = (Inr (db_locked (pl_db (lk_pipe s)) rid \<noteq> None), s)"
    "lk_db (get_request_locked rid) s = (Inr (db_locked (pl_db (lk_pipe s)) rid), s)"
    "lk_db (is_request_fulfilled rid) s = (Inr (db_fulfilled (pl_db (lk_pipe s)) rid \<noteq> None), s)"
    "snd (lk_db get_committed_orders s) = s"
  using assms by (simp_all add: lk_db_eq is_request_locked_def get_request_locked_def is_request_fulfilled_def get_committed_orders_def statement_def)

lemma with_err_Inr [simp]: "with_err e (Inr x, s) = (Inr x, s)"
  by (simp add: with_err_def)

lemma send_completion_released:
  "pl_room (lk_pipe s) > 0 \<Longrightarrow> send_completion lib env ord CommitmentSkipped s = released (lv_chain_id env) [order_id lib ord] s"
  by (cases "pl_room (lk_pipe s)") (simp_all add: send_completion_def try_send_def released_def skipped_message_def)

lemma skip_order_released:
  assumes "skip_order lib env cfg ord s = (Inr u, s1)" "healthy_db s" "pl_room (lk_pipe s) > 0"
  shows "s1 = released (lv_chain_id env) [order_id lib ord] s"
  using assms by (auto simp: skip_order_def Let_def send_completion_released split: option.splits)

lemma validate_order_released:
  assumes "validate_order lib env cfg ts ord s = (Inr ok, s1)" "healthy_db s" "pl_room (lk_pipe s) > 0"
  shows "s1 = (if ok then s else released (lv_chain_id env) [order_id lib ord] s)"
proof -
  have sk: "\<not> b \<and> s1 = released (lv_chain_id env) [order_id lib ord] s"
    if run: "db_bind (skip_order lib env cfg ord s) (\<lambda>_ s. (Inr False, s)) = (Inr b, s1)" for b
    by (rule db_bind_InrE [OF run]) (auto dest: skip_order_released [OF _ assms(2,3)])
  show ?thesis
    using assms(1,2) by (auto simp: validate_order_def Let_def split: if_splits sum.splits option.splits dest!: sk)
qed

lemma validate_orders_released:
  "validate_orders lib env cfg ts orders s = (Inr valid, s1) \<Longrightarrow> healthy_db s \<Longrightarrow> length orders \<le> pl_room (lk_pipe s) \<Longrightarrow>
     \<exists>ids. s1 = released (lv_chain_id env) ids s \<and> mset ids + mset (map (order_id lib) valid) = mset (map (order_id lib) orders)
       \<and> set valid \<subseteq> set orders"
proof (induction orders arbitrary: s valid)
  case Nil
  then show ?case by (intro exI [of _ "[]"]) simp
next
  case (Cons ord orders)
  obtain ok q where v: "validate_order lib env cfg ts ord s = (Inr ok, q)"
    and r: "db_bind (validate_orders lib env cfg ts orders q) (\<lambda>rest s. (Inr (if ok then ord # rest else rest), s)) = (Inr valid, s1)"
    by (rule db_bind_InrE [OF Cons.prems(1) [unfolded validate_orders.simps]])
  obtain rest where w: "validate_orders lib env cfg ts orders q = (Inr rest, s1)" "valid = (if ok then ord # rest else rest)"
    by (rule db_bind_InrE [OF r]) simp
  have q: "q = (if ok then s else released (lv_chain_id env) [order_id lib ord] s)"
    using validate_order_released [OF v] Cons.prems(2,3) by simp
  have "healthy_db q" "length orders \<le> pl_room (lk_pipe q)" using q Cons.prems(2,3) by auto
  then obtain ids where ids: "s1 = released (lv_chain_id env) ids q"
    "mset ids + mset (map (order_id lib) rest) = mset (map (order_id lib) orders)" "set rest \<subseteq> set orders"
    using Cons.IH [OF w(1)] by blast
  then show ?case using q w(2)
    by (intro exI [of _ "if ok then ids else order_id lib ord # ids"]) auto
qed

lemma select_affordable_released:
  "select_affordable lib env cfg gp rem orders s = (Inr xs, s1) \<Longrightarrow> healthy_db s \<Longrightarrow> length orders \<le> pl_room (lk_pipe s) \<Longrightarrow>
     \<exists>ids. s1 = released (lv_chain_id env) ids s \<and> mset ids + mset (map (order_id lib) xs) = mset (map (order_id lib) orders)"
proof (induction orders arbitrary: rem s xs)
  case Nil
  then show ?case by (intro exI [of _ "[]"]) simp
next
  case (Cons ord orders)
  obtain cost where c: "calculate_order_gas_cost_wei env gp ord = Inr cost"
    using Cons.prems(1) by (auto split: sum.splits)
  show ?case
  proof (cases "cost > rem")
    case True
    then have run: "db_bind (skip_order lib env cfg ord s) (\<lambda>_ s. select_affordable lib env cfg gp rem orders s) = (Inr xs, s1)"
      using Cons.prems(1) c by simp
    obtain u q where q: "skip_order lib env cfg ord s = (Inr u, q)" "select_affordable lib env cfg gp rem orders q = (Inr xs, s1)"
      by (rule db_bind_InrE [OF run])
    have e: "q = released (lv_chain_id env) [order_id lib ord] s" using skip_order_released [OF q(1)] Cons.prems(2,3) by simp
    then obtain ids where "s1 = released (lv_chain_id env) ids q" "mset ids + mset (map (order_id lib) xs) = mset (map (order_id lib) orders)"
      using Cons.IH [OF q(2)] Cons.prems(2,3) by fastforce
    then show ?thesis using e by (intro exI [of _ "order_id lib ord # ids"]) simp
  next
    case False
    then have run: "db_bind (select_affordable lib env cfg gp (rem - cost) orders s) (\<lambda>rest s. (Inr (ord # rest), s)) = (Inr xs, s1)"
      using Cons.prems(1) c by (auto split: if_splits)
    obtain rest where r: "select_affordable lib env cfg gp (rem - cost) orders s = (Inr rest, s1)" "xs = ord # rest"
      by (rule db_bind_InrE [OF run]) simp
    then show ?thesis using Cons.IH [OF r(1)] Cons.prems(2,3) by auto
  qed
qed

text \<open>The balance does not cover the orders committed to already.\<close>

definition overcommitted :: "locker_env \<Rightarrow> locker \<Rightarrow> bool" where
  "overcommitted env s \<longleftrightarrow>
     (case (lv_gas_price env, available_balance_wei env,
            committed_gas env (map snd (rows_where (\<lambda>_ ord. db_status ord \<in> committed_statuses) (db_orders (pl_db (lk_pipe s)))))) of
        (Inr gp, Inr available, Inr units) \<Rightarrow> available < ucast gp * ucast units
      | _ \<Rightarrow> False)"

lemma apply_gas_limits_healthy:
  assumes "healthy_db s" "lv_gas_price env = Inr gp" "available_balance_wei env = Inr av"
    and "committed_gas env (map snd (rows_where (\<lambda>_ ord. db_status ord \<in> committed_statuses) (db_orders (pl_db (lk_pipe s))))) = Inr units"
  shows "apply_gas_limits lib env cfg orders s =
    (if av < ucast gp * ucast units then (Inr [], s) else select_affordable lib env cfg gp (av - ucast gp * ucast units) orders s)"
proof -
  have "lk_db get_committed_orders s =
      (Inr (map snd (rows_where (\<lambda>_ ord. db_status ord \<in> committed_statuses) (db_orders (pl_db (lk_pipe s))))), s)"
    using assms(1) by (simp add: lk_db_eq get_committed_orders_def statement_def)
  then show ?thesis using assms(2-4) by (simp add: apply_gas_limits_def Let_def)
qed

text \<open>When the balance no longer covers the orders committed to, the orders at hand are dropped: none is
  stored, kept for the next block or reported, so their slots stay taken until they are stale.\<close>

lemma overcommitted_drops_orders:
  assumes "healthy_db s" "overcommitted env s"
  shows "apply_gas_limits lib env cfg orders s = (Inr [], s)"
proof -
  obtain gp av units where "lv_gas_price env = Inr gp" "available_balance_wei env = Inr av" "av < ucast gp * ucast units"
    "committed_gas env (map snd (rows_where (\<lambda>_ ord. db_status ord \<in> committed_statuses) (db_orders (pl_db (lk_pipe s))))) = Inr units"
    using assms(2) by (auto simp: overcommitted_def split: sum.splits)
  then show ?thesis using apply_gas_limits_healthy [OF assms(1)] by simp
qed

lemma apply_gas_limits_released:
  assumes run: "apply_gas_limits lib env cfg orders s = (Inr xs, s1)" and h: "healthy_db s" "length orders \<le> pl_room (lk_pipe s)"
    and "\<not> overcommitted env s"
  shows "\<exists>ids. s1 = released (lv_chain_id env) ids s \<and> mset ids + mset (map (order_id lib) xs) = mset (map (order_id lib) orders)"
proof -
  let ?com = "map snd (rows_where (\<lambda>_ ord. db_status ord \<in> committed_statuses) (db_orders (pl_db (lk_pipe s))))"
  have get: "lk_db get_committed_orders s = (Inr ?com, s)"
    using h(1) by (simp add: lk_db_eq get_committed_orders_def statement_def)
  obtain gp av units where g: "lv_gas_price env = Inr gp" "available_balance_wei env = Inr av" "committed_gas env ?com = Inr units"
    using run get by (auto simp: apply_gas_limits_def Let_def split: sum.splits)
  then have "select_affordable lib env cfg gp (av - ucast gp * ucast units) orders s = (Inr xs, s1)"
    using run apply_gas_limits_healthy [OF h(1) g] assms(4) by (simp add: overcommitted_def)
  then show ?thesis using select_affordable_released h by blast
qed

lemma order_id_proving_order: "db_order_id lib (proving_order_from_request t t' req price) = order_id lib req"
  by (simp add: db_order_id_def proving_order_from_request_def order_from_request_def format_order_id_def order_id_def request_digest_def)

text \<open>What the last phase does with an order.\<close>

definition proving_row_of :: "id_lib \<Rightarrow> OrderRequest \<Rightarrow> string \<times> Order \<Rightarrow> bool" where
  "proving_row_of lib ord row \<longleftrightarrow> fst row = order_id lib ord \<and> (\<exists>t t' price. snd row = proving_order_from_request t t' ord price)"

definition settles :: "id_lib \<Rightarrow> u64 \<Rightarrow> OrderRequest list \<Rightarrow> OrderRequest list \<Rightarrow> locker \<Rightarrow> locker \<Rightarrow> bool" where
  "settles lib chain orders retries s s' \<longleftrightarrow> healthy_db s' \<and> lk_retry_orders s' = lk_retry_orders s \<and> set retries \<subseteq> set orders
     \<and> (\<exists>rows ids. db_orders (pl_db (lk_pipe s')) = db_orders (pl_db (lk_pipe s)) @ rows
          \<and> pl_sent (lk_pipe s') = pl_sent (lk_pipe s) @ map (skipped_message chain) ids
          \<and> pl_room (lk_pipe s) = pl_room (lk_pipe s') + length ids
          \<and> (\<forall>row\<in>set rows. \<exists>ord\<in>set orders. proving_row_of lib ord row)
          \<and> mset (map fst rows) + mset ids + mset (map (order_id lib) retries) = mset (map (order_id lib) orders))"

lemma settles_append:
  assumes "settles lib chain xs rs s s1" "settles lib chain ys qs s1 s2"
  shows "settles lib chain (xs @ ys) (rs @ qs) s s2"
proof -
  obtain rows ids where 1: "db_orders (pl_db (lk_pipe s1)) = db_orders (pl_db (lk_pipe s)) @ rows"
    "pl_sent (lk_pipe s1) = pl_sent (lk_pipe s) @ map (skipped_message chain) ids" "pl_room (lk_pipe s) = pl_room (lk_pipe s1) + length ids"
    "\<forall>row\<in>set rows. \<exists>ord\<in>set xs. proving_row_of lib ord row"
    "mset (map fst rows) + mset ids + mset (map (order_id lib) rs) = mset (map (order_id lib) xs)"
    using assms(1) unfolding settles_def by blast
  obtain rows' ids' where 2: "db_orders (pl_db (lk_pipe s2)) = db_orders (pl_db (lk_pipe s1)) @ rows'"
    "pl_sent (lk_pipe s2) = pl_sent (lk_pipe s1) @ map (skipped_message chain) ids'" "pl_room (lk_pipe s1) = pl_room (lk_pipe s2) + length ids'"
    "\<forall>row\<in>set rows'. \<exists>ord\<in>set ys. proving_row_of lib ord row"
    "mset (map fst rows') + mset ids' + mset (map (order_id lib) qs) = mset (map (order_id lib) ys)"
    using assms(2) unfolding settles_def by blast
  have "mset (map fst (rows @ rows')) + mset (ids @ ids') + mset (map (order_id lib) (rs @ qs)) = mset (map (order_id lib) (xs @ ys))"
    using arg_cong2 [OF 1(5) 2(5), of "(+)"] by (simp add: ac_simps)
  then show ?thesis unfolding settles_def
    using assms 1(1-4) 2(1-4) by (intro conjI exI [of _ "rows @ rows'"] exI [of _ "ids @ ids'"]) (auto simp: settles_def)
qed

lemma store_accepted_settles:
  assumes "healthy_db s" "map_of (db_orders (pl_db (lk_pipe s))) (order_id lib ord) = None"
  shows "settles lib chain [ord] [] s (store_accepted lib env ord price s)"
proof -
  obtain now now' where n: "le_now_insert (lv_order env ord) = (now, now')" by (rule prod.exhaust)
  let ?row = "(order_id lib ord, proving_order_from_request now now' ord price)"
  have "store_accepted lib env ord price s =
      s\<lparr>lk_pipe := (lk_pipe s)\<lparr>pl_db := (pl_db (lk_pipe s))\<lparr>db_orders := db_orders (pl_db (lk_pipe s)) @ [?row]\<rparr>\<rparr>\<rparr>"
    using assms n by (simp add: store_accepted_def lk_db_eq insert_accepted_request_def insert_accepted_order_def Let_def
        statement_no_fault order_id_proving_order)
  then show ?thesis using assms(1) unfolding settles_def
    by (intro conjI exI [of _ "[?row]"] exI [of _ "[]"]) (auto simp: proving_row_of_def)
qed

lemma released_settles:
  "healthy_db s \<Longrightarrow> pl_room (lk_pipe s) > 0 \<Longrightarrow> settles lib chain [ord] [] s (released chain [order_id lib ord] s)"
  unfolding settles_def by (intro conjI exI [of _ "[]"] exI [of _ "[order_id lib ord]"]) auto

lemma settles_locked: "settles lib chain xs rs (s\<lparr>lk_locked := l\<rparr>) s' \<longleftrightarrow> settles lib chain xs rs s s'"
  by (simp add: settles_def)

lemma lock_order_state:
  assumes "healthy_db s"
  shows "\<exists>l. snd (lock_order env ord s) = s\<lparr>lk_locked := l\<rparr>"
proof -
  have "\<exists>l. s = s\<lparr>lk_locked := l\<rparr>" by (intro exI [of _ "lk_locked s"]) simp
  then show ?thesis using assms by (auto simp: lock_order_def Let_def split: sum.split)
qed

lemma lock_and_prove_order_settles:
  assumes "healthy_db s" "pl_room (lk_pipe s) > 0" "map_of (db_orders (pl_db (lk_pipe s))) (order_id lib ord) = None"
    and "lock_and_prove_order lib env ord s = (retry, s1)"
  shows "settles lib (lv_chain_id env) [ord] retry s s1"
proof (cases "lv_listen_only env \<or> fulfillment_type ord \<noteq> LockAndFulfill")
  case True
  then show ?thesis
    using assms released_settles [OF assms(1,2)] store_accepted_settles [OF assms(1,3)]
    by (auto simp: lock_and_prove_order_def send_completion_released split: if_splits)
next
  case False
  obtain r q where q: "lock_order env ord s = (r, q)" by (rule prod.exhaust)
  obtain l where l: "q = s\<lparr>lk_locked := l\<rparr>" using lock_order_state [OF assms(1), of env ord] q by auto
  have h: "healthy_db q" "pl_room (lk_pipe q) > 0" "map_of (db_orders (pl_db (lk_pipe q))) (order_id lib ord) = None"
    using assms(1-3) l by simp_all
  have "settles lib (lv_chain_id env) [ord] [ord] s q"
    using assms(1) l unfolding settles_def by (intro conjI exI [of _ "[]"]) auto
  moreover have "settles lib (lv_chain_id env) [ord] [] s (store_accepted lib env ord price q)" for price
    using store_accepted_settles [OF h(1,3), of "lv_chain_id env" env price] settles_locked [where s = s and l = l] l by simp
  moreover have "settles lib (lv_chain_id env) [ord] [] s (released (lv_chain_id env) [order_id lib ord] q)"
    using released_settles [OF h(1,2), of lib "lv_chain_id env" ord] settles_locked [where s = s and l = l] l by simp
  ultimately show ?thesis
    using False q assms(4) send_completion_released [OF h(2)]
    by (auto simp: lock_and_prove_order_def split: sum.splits if_splits)
qed

lemma lock_and_prove_orders_settles:
  assumes "healthy_db s" "length orders \<le> pl_room (lk_pipe s)" "distinct (map (order_id lib) orders)"
    and "\<forall>ord\<in>set orders. map_of (db_orders (pl_db (lk_pipe s))) (order_id lib ord) = None"
    and "lock_and_prove_orders lib env orders s = (retries, s1)"
  shows "settles lib (lv_chain_id env) orders retries s s1"
  using assms
proof (induction orders arbitrary: s retries)
  case Nil
  then show ?case unfolding settles_def by (intro conjI exI [of _ "[]"]) auto
next
  case (Cons ord orders)
  obtain r q where q: "lock_and_prove_order lib env ord s = (r, q)" by (rule prod.exhaust)
  obtain rs where rs: "lock_and_prove_orders lib env orders q = (rs, s1)" "retries = r @ rs"
    using Cons.prems(5) q by (auto simp: Let_def split: prod.splits)
  have one: "settles lib (lv_chain_id env) [ord] r s q"
    using lock_and_prove_order_settles [OF Cons.prems(1) _ _ q] Cons.prems(2,4) by fastforce
  then obtain rows ids where e: "db_orders (pl_db (lk_pipe q)) = db_orders (pl_db (lk_pipe s)) @ rows"
    "pl_room (lk_pipe s) = pl_room (lk_pipe q) + length ids" "\<forall>row\<in>set rows. proving_row_of lib ord row"
    "mset (map fst rows) + mset ids + mset (map (order_id lib) r) = {#order_id lib ord#}"
    unfolding settles_def by auto
  have "length ids \<le> 1" using arg_cong [OF e(4), of size] by simp
  moreover have "map_of (db_orders (pl_db (lk_pipe q))) (order_id lib x) = None" if "x \<in> set orders" for x
  proof -
    have "order_id lib x \<noteq> order_id lib ord" using that Cons.prems(3) by (auto simp: image_iff)
    then have "order_id lib x \<notin> fst ` set rows" using e(3) by (auto simp: proving_row_of_def)
    then show ?thesis using that Cons.prems(4) e(1) by (simp add: map_of_eq_None_iff)
  qed
  moreover have "healthy_db q" using one by (simp add: settles_def)
  ultimately have "settles lib (lv_chain_id env) orders rs q s1"
    using Cons.IH [OF _ _ _ _ rs(1)] Cons.prems(2,3) e(2) by simp
  then show ?case using settles_append [OF one] rs(2) by simp
qed

lemma distinct_part: "mset xs + mset ys = mset zs \<Longrightarrow> distinct zs \<Longrightarrow> distinct ys"
  using mset_eq_imp_distinct_iff [of "xs @ ys" zs] by simp

text \<open>What became of the orders: rows stored, slots released, orders kept for the next block, orders dropped.\<close>

definition accounted ::
    "id_lib \<Rightarrow> u64 \<Rightarrow> OrderRequest list \<Rightarrow> locker \<Rightarrow> locker \<Rightarrow> (string \<times> Order) list \<Rightarrow> string list \<Rightarrow> OrderRequest list
      \<Rightarrow> string list \<Rightarrow> bool" where
  "accounted lib chain orders s s' rows ids retries dropped \<longleftrightarrow>
     db_orders (pl_db (lk_pipe s')) = db_orders (pl_db (lk_pipe s)) @ rows
   \<and> pl_sent (lk_pipe s') = pl_sent (lk_pipe s) @ map (skipped_message chain) ids
   \<and> lk_retry_orders s' = lk_retry_orders s @ retries
   \<and> (\<forall>row\<in>set rows. \<exists>ord\<in>set orders. proving_row_of lib ord row)
   \<and> mset (map fst rows) + mset ids + mset (map (order_id lib) retries) + mset dropped = mset (map (order_id lib) orders)"

lemma accounted_released:
  assumes "accounted lib chain valid (released chain ids s) s' rows js retries dropped" "set valid \<subseteq> set orders"
    "mset ids + mset (map (order_id lib) valid) = mset (map (order_id lib) orders)"
  shows "accounted lib chain orders s s' rows (ids @ js) retries dropped"
proof -
  have "mset (map fst rows) + mset (ids @ js) + mset (map (order_id lib) retries) + mset dropped
      = mset ids + (mset (map fst rows) + mset js + mset (map (order_id lib) retries) + mset dropped)" by simp
  also have "\<dots> = mset (map (order_id lib) orders)"
    using assms(1,3) by (metis accounted_def)
  finally have "mset (map fst rows) + mset (ids @ js) + mset (map (order_id lib) retries) + mset dropped
      = mset (map (order_id lib) orders)" .
  moreover have "\<forall>row\<in>set rows. \<exists>ord\<in>set orders. proving_row_of lib ord row"
    using assms(1,2) unfolding accounted_def by blast
  ultimately show ?thesis using assms(1) by (simp add: accounted_def)
qed

text \<open>The orders that pass the validation are all dropped if the balance does not cover what is committed.\<close>

definition dropped_ids :: "id_lib \<Rightarrow> locker_env \<Rightarrow> locker \<Rightarrow> OrderRequest list \<Rightarrow> string list" where
  "dropped_ids lib env s valid = (if overcommitted env s then map (order_id lib) valid else [])"

lemma valid_orders_accounted:
  assumes run: "db_bind (apply_gas_limits lib env cfg valid s) (\<lambda>affordable s.
       if affordable = [] then (Inr (), s)
       else let (retries, s) = lock_and_prove_orders lib env affordable s
            in (Inr (), s\<lparr>lk_retry_orders := lk_retry_orders s @ retries\<rparr>)) = (Inr (), s')"
    and s: "healthy_db s" "length valid \<le> pl_room (lk_pipe s)" "\<not> overcommitted env s" "distinct (map (order_id lib) valid)"
    and fresh: "\<forall>ord\<in>set valid. map_of (db_orders (pl_db (lk_pipe s))) (order_id lib ord) = None"
  shows "\<exists>rows ids retries. accounted lib (lv_chain_id env) valid s s' rows ids retries []"
proof -
  obtain aff s2 where a: "apply_gas_limits lib env cfg valid s = (Inr aff, s2)"
    and run2: "(if aff = [] then (Inr (), s2)
      else let (retries, s) = lock_and_prove_orders lib env aff s2
          in (Inr (), s\<lparr>lk_retry_orders := lk_retry_orders s @ retries\<rparr>)) = ((Inr (), s') :: unit lock_result)"
    by (rule db_bind_InrE [OF run])
  obtain js where j: "s2 = released (lv_chain_id env) js s" "mset js + mset (map (order_id lib) aff) = mset (map (order_id lib) valid)"
    using apply_gas_limits_released [OF a] s by blast
  have len: "length js + length aff = length valid" using arg_cong [OF j(2), of size] by simp
  have sub: "set aff \<subseteq> set valid" using apply_gas_limits_subseq [OF a] by (auto dest: list_emb_set)
  obtain retries s3 where l: "lock_and_prove_orders lib env aff s2 = (retries, s3)" by (rule prod.exhaust)
  have "settles lib (lv_chain_id env) aff retries s2 s3"
    using lock_and_prove_orders_settles [OF _ _ _ _ l] distinct_part [OF j(2) s(4)] s(1,2) fresh j(1) len sub by (auto simp: subset_iff)
  then obtain rows ks where "db_orders (pl_db (lk_pipe s3)) = db_orders (pl_db (lk_pipe s2)) @ rows"
    "pl_sent (lk_pipe s3) = pl_sent (lk_pipe s2) @ map (skipped_message (lv_chain_id env)) ks" "lk_retry_orders s3 = lk_retry_orders s2"
    "\<forall>row\<in>set rows. \<exists>ord\<in>set aff. proving_row_of lib ord row"
    "mset (map fst rows) + mset ks + mset (map (order_id lib) retries) = mset (map (order_id lib) aff)"
    unfolding settles_def by blast
  moreover have "s' = s3\<lparr>lk_retry_orders := lk_retry_orders s3 @ retries\<rparr>" using run2 l by (cases "aff = []") auto
  ultimately have "accounted lib (lv_chain_id env) aff (released (lv_chain_id env) js s) s' rows ks retries []"
    by (simp add: accounted_def j(1))
  from accounted_released [OF this sub j(2)] show ?thesis by blast
qed

lemma process_orders_accounted:
  assumes "process_orders lib env cfg ts orders s = (Inr (), s')" "healthy_db s" "length orders \<le> pl_room (lk_pipe s)"
    and "distinct (map (order_id lib) orders)"
    and "\<forall>ord\<in>set orders. map_of (db_orders (pl_db (lk_pipe s))) (order_id lib ord) = None"
  shows "\<exists>valid s1 rows ids retries. validate_orders lib env cfg ts orders s = (Inr valid, s1)
     \<and> accounted lib (lv_chain_id env) orders s s' rows ids retries (dropped_ids lib env s valid)
     \<and> (overcommitted env s \<longrightarrow> rows = [] \<and> retries = [])"
proof -
  obtain valid s1 where v: "validate_orders lib env cfg ts orders s = (Inr valid, s1)"
    and run: "(if valid = [] then (Inr (), s1)
     else db_bind (apply_gas_limits lib env cfg valid s1) (\<lambda>affordable s.
       if affordable = [] then (Inr (), s)
       else let (retries, s) = lock_and_prove_orders lib env affordable s
            in (Inr (), s\<lparr>lk_retry_orders := lk_retry_orders s @ retries\<rparr>))) = (Inr (), s')"
    by (rule db_bind_InrE [OF assms(1) [unfolded process_orders_def]])
  obtain ids where i: "s1 = released (lv_chain_id env) ids s" "mset ids + mset (map (order_id lib) valid) = mset (map (order_id lib) orders)"
    "set valid \<subseteq> set orders" using validate_orders_released [OF v assms(2,3)] by blast
  have len: "length ids + length valid = length orders" using arg_cong [OF i(2), of size] by simp
  have over: "overcommitted env s1 \<longleftrightarrow> overcommitted env s" by (simp add: i(1) overcommitted_def)
  have h1: "healthy_db s1" using assms(2) i(1) by simp
  have "\<exists>rows js retries. accounted lib (lv_chain_id env) valid s1 s' rows js retries (dropped_ids lib env s valid)
      \<and> (overcommitted env s \<longrightarrow> rows = [] \<and> retries = [])"
  proof (cases "valid = [] \<or> overcommitted env s")
    case True
    have "s' = s1"
      using run True overcommitted_drops_orders [OF h1] over by (cases "valid = []") auto
    then show ?thesis
      using True by (intro exI [of _ "[]"]) (auto simp: accounted_def dropped_ids_def)
  next
    case False
    then have ne: "valid \<noteq> []" and no: "\<not> overcommitted env s" by auto
    have "\<exists>rows js retries. accounted lib (lv_chain_id env) valid s1 s' rows js retries []"
      by (rule valid_orders_accounted [OF trans [OF if_not_P [OF ne, symmetric] run]])
        (use assms(2,3,5) no over len i distinct_part [OF i(2) assms(4)] in auto)
    then show ?thesis using no by (simp add: dropped_ids_def)
  qed
  then obtain rows js retries where a: "accounted lib (lv_chain_id env) valid s1 s' rows js retries (dropped_ids lib env s valid)"
    and o: "overcommitted env s \<longrightarrow> rows = [] \<and> retries = []" by blast
  show ?thesis
    by (intro exI conjI, rule v, rule accounted_released [OF a [unfolded i(1)] i(3,2)], rule o)
qed

text \<open>C18: the locker accounts for every order it is handed. Each is stored once for the proving pipeline, with its own
  request and terms, or its slot is released by exactly one message, or it is kept for the next block, or
  it is dropped; nothing else is stored or sent. Orders are dropped only if the balance does not cover the
  gas of the orders committed to already, and then all that passed the validation are, with none stored or kept.
  The hypotheses: the pass returns without an error, the database works, the completion channel has room for a
  message per order, the orders have distinct ids and none of them is stored yet.\<close>

theorem locker_accounts_for_orders:
  assumes "process_orders lib env cfg ts orders s = (Inr (), s')" "healthy_db s" "length orders \<le> pl_room (lk_pipe s)"
    and "distinct (map (order_id lib) orders)"
    and "\<forall>ord\<in>set orders. map_of (db_orders (pl_db (lk_pipe s))) (order_id lib ord) = None"
  shows "\<exists>valid s1 rows ids retries dropped. validate_orders lib env cfg ts orders s = (Inr valid, s1)
    \<and> db_orders (pl_db (lk_pipe s')) = db_orders (pl_db (lk_pipe s)) @ rows
    \<and> pl_sent (lk_pipe s') = pl_sent (lk_pipe s) @ map (skipped_message (lv_chain_id env)) ids
    \<and> lk_retry_orders s' = lk_retry_orders s @ retries
    \<and> (\<forall>row\<in>set rows. \<exists>ord\<in>set orders. proving_row_of lib ord row)
    \<and> mset (map fst rows) + mset ids + mset (map (order_id lib) retries) + mset dropped = mset (map (order_id lib) orders)
    \<and> (if overcommitted env s then dropped = map (order_id lib) valid \<and> rows = [] \<and> retries = [] else dropped = [])"
proof -
  obtain valid s1 rows ids retries where v: "validate_orders lib env cfg ts orders s = (Inr valid, s1)"
    and a: "accounted lib (lv_chain_id env) orders s s' rows ids retries (dropped_ids lib env s valid)"
    and o: "overcommitted env s \<longrightarrow> rows = [] \<and> retries = []"
    using process_orders_accounted [OF assms] by blast
  show ?thesis
    by (rule exI [of _ valid], rule exI [of _ s1], rule exI [of _ rows], rule exI [of _ ids], rule exI [of _ retries],
        rule exI [of _ "dropped_ids lib env s valid"])
      (use v a o in \<open>auto simp: accounted_def dropped_ids_def\<close>)
qed

section \<open>The locker stays well formed\<close>

text \<open>Between two events the database is well formed and only orders to be locked wait for the next block.\<close>

definition locker_ok :: "id_lib \<Rightarrow> locker \<Rightarrow> bool" where
  "locker_ok lib s \<longleftrightarrow> db_ok lib (pl_db (lk_pipe s)) \<and> (\<forall>ord\<in>set (lk_retry_orders s). fulfillment_type ord = LockAndFulfill)"

definition lk_grows :: "id_lib \<Rightarrow> locker \<Rightarrow> locker \<Rightarrow> bool" where
  "lk_grows lib s s' \<longleftrightarrow> db_grows lib (pl_db (lk_pipe s)) (pl_db (lk_pipe s')) \<and> lk_retry_orders s' = lk_retry_orders s"

lemma lk_grows_refl [simp]: "lk_grows lib s s"
  by (simp add: lk_grows_def)

lemma lk_grows_trans: "lk_grows lib s s1 \<Longrightarrow> lk_grows lib s1 s2 \<Longrightarrow> lk_grows lib s s2"
  by (auto simp: lk_grows_def intro: db_grows_trans)

lemma lk_grows_bind:
  assumes "lk_grows lib s (snd m)" "\<And>x s1. lk_grows lib s1 (snd (f x s1))"
  shows "lk_grows lib s (snd (db_bind m f))"
  using assms lk_grows_trans [of lib s "snd m"] by (cases m; cases "fst m") auto

lemma grows_reads [simp]:
  "db_grows lib db (snd (is_request_locked rid db))" "db_grows lib db (snd (get_request_locked rid db))"
  "db_grows lib db (snd (is_request_fulfilled rid db))" "db_grows lib db (snd (get_committed_orders db))"
  by (simp_all add: is_request_locked_def get_request_locked_def is_request_fulfilled_def get_committed_orders_def grows_read)

lemma lk_grows_steps [simp]:
  "lk_grows lib s (send_completion lib' env ord oc s)" "lk_grows lib s (store_accepted lib env ord price s)"
  "lk_grows lib s (snd (skip_order lib' env cfg ord s))" "lk_grows lib s (s\<lparr>lk_locked := l\<rparr>)"
  by (auto simp: lk_grows_def send_completion_def store_accepted_def skip_order_def lk_db_eq grows_insert_request Let_def
      split: prod.split option.split)

lemma lk_grows_db: "(\<And>db. db_grows lib db (snd (op db))) \<Longrightarrow> lk_grows lib s (snd (with_err e (lk_db op s)))"
  by (simp add: lk_grows_def with_err_def lk_db_eq)

lemmas lk_grows_intros = lk_grows_bind lk_grows_db

lemma lk_grows_phases:
  "lk_grows lib s (snd (lock_order env ord s))" "lk_grows lib s (snd (validate_order lib env cfg ts ord s))"
  unfolding lock_order_def validate_order_def Let_def
  by (auto intro!: lk_grows_intros split: sum.split option.split prod.split)

lemma validate_orders_grows: "lk_grows lib s (snd (validate_orders lib env cfg ts orders s))"
  by (induction orders arbitrary: s) (auto intro!: lk_grows_bind lk_grows_phases)

lemma select_affordable_grows: "lk_grows lib s (snd (select_affordable lib env cfg gp rem orders s))"
  by (induction orders arbitrary: rem s) (auto intro!: lk_grows_bind split: sum.split)

lemma apply_gas_limits_grows: "lk_grows lib s (snd (apply_gas_limits lib env cfg orders s))"
  unfolding apply_gas_limits_def Let_def
  by (auto intro!: lk_grows_intros select_affordable_grows split: sum.split)

lemma lock_and_prove_order_grows:
  assumes "lock_and_prove_order lib env ord s = (retries, s')"
  shows "lk_grows lib s s' \<and> (\<forall>x\<in>set retries. fulfillment_type x = LockAndFulfill)"
proof -
  obtain r q where q: "lock_order env ord s = (r, q)" by (rule prod.exhaust)
  have "lk_grows lib s q" using lk_grows_phases(1) [of lib s env ord] q by simp
  then show ?thesis using assms q
    by (auto simp: lock_and_prove_order_def intro: lk_grows_trans split: if_splits sum.splits)
qed

lemma lock_and_prove_orders_grows:
  "lock_and_prove_orders lib env orders s = (retries, s') \<Longrightarrow>
     lk_grows lib s s' \<and> (\<forall>x\<in>set retries. fulfillment_type x = LockAndFulfill)"
  by (induction orders arbitrary: s retries s')
    (fastforce simp: Let_def split: prod.splits dest: lock_and_prove_order_grows intro: lk_grows_trans)+

lemma locker_ok_grows: "locker_ok lib s \<Longrightarrow> lk_grows lib s s' \<Longrightarrow> locker_ok lib s'"
  by (auto simp: locker_ok_def lk_grows_def db_grows_def)

text \<open>The orders an event leaves in the database.\<close>

definition keeps_orders :: "id_lib \<Rightarrow> locker \<Rightarrow> locker \<Rightarrow> bool" where
  "keeps_orders lib s s' \<longleftrightarrow> (locker_ok lib s \<longrightarrow> locker_ok lib s') \<and> prefix (order_log (pl_db (lk_pipe s))) (order_log (pl_db (lk_pipe s')))"

lemma keeps_orders_refl [simp]: "keeps_orders lib s s"
  by (simp add: keeps_orders_def)

lemma keeps_orders_bind:
  assumes "keeps_orders lib s (snd m)" "\<And>x s1. keeps_orders lib s1 (snd (f x s1))"
  shows "keeps_orders lib s (snd (db_bind m f))"
proof -
  have "keeps_orders lib s (snd (f x (snd m)))" for x
    using assms(1) assms(2) [of "snd m" x] by (auto simp: keeps_orders_def intro: prefix_order.trans)
  then show ?thesis using assms(1) by (cases m; cases "fst m") auto
qed

lemma keeps_orders_grows: "lk_grows lib s s' \<Longrightarrow> keeps_orders lib s s'"
  using locker_ok_grows by (auto simp: keeps_orders_def lk_grows_def db_grows_def)

lemma keeps_lock_phase:
  assumes "lock_and_prove_orders lib env orders s = (retries, q)"
  shows "keeps_orders lib s (q\<lparr>lk_retry_orders := lk_retry_orders q @ retries\<rparr>)"
proof -
  have g: "lk_grows lib s q" "\<forall>x\<in>set retries. fulfillment_type x = LockAndFulfill"
    using lock_and_prove_orders_grows [OF assms] by auto
  show ?thesis using keeps_orders_grows [OF g(1)] g(2) by (auto simp: keeps_orders_def locker_ok_def)
qed

lemma process_orders_keeps: "keeps_orders lib s (snd (process_orders lib env cfg ts orders s))"
  unfolding process_orders_def
  by (auto intro!: keeps_orders_bind keeps_orders_grows [OF validate_orders_grows] keeps_orders_grows [OF apply_gas_limits_grows]
      simp: Let_def keeps_lock_phase split: prod.splits)

lemma keeps_orders_settings:
  assumes "keeps_orders lib q s'" "pl_db (lk_pipe q) = pl_db (lk_pipe s)" "set (lk_retry_orders q) \<subseteq> set (lk_retry_orders s)"
  shows "keeps_orders lib s s'"
  using assms by (auto simp: keeps_orders_def locker_ok_def)

lemmas keeps_orders_same = keeps_orders_settings [OF keeps_orders_refl]

lemma update_gas_modes_sel [simp]:
  "lk_pipe (update_gas_modes g e s) = lk_pipe s" "lk_retry_orders (update_gas_modes g e s) = lk_retry_orders s"
  by (simp_all add: update_gas_modes_def Let_def)

lemma handle_locker_event_keeps: "keeps_orders lib s (snd (handle_locker_event lib env ev s))"
proof (cases ev)
  case (LockerTick head config cancelled)
  then show ?thesis
    by (auto simp: Let_def intro: keeps_orders_same keeps_orders_settings [OF process_orders_keeps] split: sum.split prod.split)
qed (auto intro: process_orders_keeps split: sum.split prod.split)

text \<open>C21: whatever happens to the locker - any orders, blocks, configurations and answers of the chain, any
  failing statements, at any point of its loop - the database stays well formed with the orders
  accepted before unchanged in it, and only orders that are to be locked wait for the next block.\<close>

theorem locker_stays_well_formed:
  assumes "locker_ok lib s"
  shows "locker_ok lib (snd (start_monitor lib evs s))
    \<and> prefix (order_log (pl_db (lk_pipe s))) (order_log (pl_db (lk_pipe (snd (start_monitor lib evs s)))))"
proof -
  have "keeps_orders lib s (snd (start_monitor lib evs s))" for s
    by (induction evs arbitrary: s) (auto intro!: keeps_orders_bind handle_locker_event_keeps)
  then show ?thesis using assms by (simp add: keeps_orders_def)
qed

section \<open>Orders the locker gives up\<close>

text \<open>A request the broker holds the lock of itself passes validation, to be proved, but is then refused as
  already locked.\<close>

lemma own_lock_refused:
  assumes "healthy_db s" "fulfillment_type ord = LockAndFulfill" "\<not> lock_expires_at (request ord) < ts"
    and "db_locked (pl_db (lk_pipe s)) (request_id (request ord)) = Some (lv_signer_addr env, block)"
  shows "validate_order lib env cfg ts ord s = (Inr True, s)" "fst (lock_order env ord s) \<in> {Inl LockRpcErr, Inl AlreadyLocked}"
  using assms by (simp_all add: validate_order_def lock_order_def Let_def split: sum.split)

text \<open>An order that was locked on chain is given up when the block of the lock cannot be read: its slot is
  released and it is never stored, although the collateral is at stake.\<close>

lemma locked_order_given_up:
  assumes "\<not> lv_listen_only env" "fulfillment_type ord = LockAndFulfill" "lock_order env ord s = (Inl LockUnexpectedError, s1)"
    and "lk_locked s1 = lk_locked s @ [ord]" "healthy_db s" "pl_room (lk_pipe s) > 0"
  shows "lock_and_prove_order lib env ord s = ([], released (lv_chain_id env) [order_id lib ord] s1)"
proof -
  have "pl_room (lk_pipe s1) > 0" using lock_order_state [OF assms(5), of env ord] assms(3,6) by auto
  then show ?thesis using assms by (simp add: lock_and_prove_order_def send_completion_released)
qed

section \<open>An example\<close>

definition sample_lock_env :: lock_env where
  "sample_lock_env =
     \<lparr>le_is_fulfilled = Inr False, le_now_deadline = 1050, le_erc1271_gas = 0,
      le_market = \<lparr>mv_timestamp = Inr 1050, mv_is_fulfilled = Inr False, mv_is_locked = Inr False, mv_deadline = Inr 0\<rparr>,
      le_collateral_balance = Inr 10, le_skip_gas_check = Inr False, le_gas_price = Inr 1, le_now = 1050,
      le_lock_request = Inr 7, le_block_timestamp = (\<lambda>_ _. Inr 1051), le_now_insert = (1052, 1052)\<rparr>"

definition sample_gas_router :: BackendRouter where
  "sample_gas_router = \<lparr>backends = [''sample'' \<mapsto> backend_entry_new sample_backend], routes = [0 \<mapsto> ''sample'']\<rparr>"

definition sample_locker_env :: locker_env where
  "sample_locker_env =
     \<lparr>lv_listen_only = False, lv_chain_id = 1, lv_prover_addr = ''0xab'', lv_signer_addr = ''0xab'', lv_retry_count = 0,
      lv_backend = sample_gas_router, lv_config = Inr sample_config, lv_gas_price = Inr 1, lv_balance = Inr 100000,
      lv_order = (\<lambda>_. sample_lock_env)\<rparr>"

definition sample_lockable :: OrderRequest where
  "sample_lockable = (sample_order LockAndFulfill)\<lparr>gas_estimate := Some 50\<rparr>"

definition sample_locker :: locker where
  "sample_locker =
     \<lparr>lk_pipe = sample_pipeline db_empty router_new, lk_locked = [], lk_retry_orders = [], lk_last_block = 0, lk_gas_mode = Medium,
      lk_estimation_mode = Medium, lk_cached_gas_mode = None, lk_cached_estimation_mode = None\<rparr>"

lemma sample_locker_sel [simp]:
  "pl_db (lk_pipe sample_locker) = db_empty" "lk_locked sample_locker = []" "pl_room (lk_pipe sample_locker) = 10"
  "db_faults db_empty = []" "db_orders db_empty = []" "db_locked db_empty = Map.empty"
  by (simp_all add: sample_locker_def sample_pipeline_def db_empty_def)

lemma sample_lockable_sel [simp]:
  "fulfillment_type sample_lockable = LockAndFulfill" "request sample_lockable = request (sample_order LockAndFulfill)"
  "total_cycles sample_lockable = None" "gas_estimate sample_lockable = Some 50" "journal_bytes sample_lockable = None"
  by (simp_all add: sample_lockable_def sample_order_def order_request_new_def)

lemma sample_request_sel [simp]:
  "lock_expires_at (request (sample_order LockAndFulfill)) = 1200" "expires_at (request (sample_order LockAndFulfill)) = 1300"
  "lockCollateral (offer (request (sample_order LockAndFulfill))) = 7"
  "price_at (offer (request (sample_order LockAndFulfill))) 1050 = Inr 60"
  by (simp_all add: sample_order_def order_request_new_def lock_expires_at_def expires_at_def price_at_def price_at_time_def)

lemma sample_fulfill_gas: "fulfill_gas sample_locker_env (request (sample_order LockAndFulfill)) None = Inr 201"
  by (simp add: fulfill_gas_def router_fulfillment_gas_def backend_for_selector_def ok_or_def sample_locker_env_def sample_gas_router_def
      sample_backend_def backend_entry_new_def sample_order_def order_request_new_def requirements_new_def UNSPECIFIED_SELECTOR_def
      fulfill_gas_units_def request_predicate_from.simps sample_config_def callback_gas_def callback_as_option_def callback_is_none_def
      callback_none_def narrow_def)

lemma sample_order_gas [simp]:
  "calculate_order_gas_cost_wei sample_locker_env 1 sample_lockable = Inr 204"
  "no_load_time cfg sample_lockable = Some None"
proof -
  have "estimate_gas_to_lock (lv_config sample_locker_env) (lv_order sample_locker_env sample_lockable) = Inr 3"
    by (simp add: estimate_gas_to_lock_def sample_locker_env_def sample_lock_env_def sample_config_def)
  then show "calculate_order_gas_cost_wei sample_locker_env 1 sample_lockable = Inr 204"
    by (simp add: calculate_order_gas_cost_wei_def sample_fulfill_gas saturating_add_def)
  show "no_load_time cfg sample_lockable = Some None"
    by (simp add: no_load_time_def estimate_proving_time_no_load_def)
qed

lemma sample_not_overcommitted: "\<not> overcommitted sample_locker_env sample_locker"
  by (simp add: overcommitted_def rows_where_def sample_locker_env_def available_balance_wei_def)

lemma sample_gas_passes:
  "apply_gas_limits sample_lib sample_locker_env cfg [sample_lockable] sample_locker = (Inr [sample_lockable], sample_locker)"
proof -
  have "lv_gas_price sample_locker_env = Inr 1" "available_balance_wei sample_locker_env = Inr 100000"
    by (simp_all add: sample_locker_env_def available_balance_wei_def)
  moreover have "committed_gas sample_locker_env (map snd (rows_where (\<lambda>_ ord. db_status ord \<in> committed_statuses) (db_orders (pl_db (lk_pipe sample_locker))))) = Inr 0"
    by (simp add: rows_where_def)
  ultimately show ?thesis using apply_gas_limits_healthy [of sample_locker sample_locker_env 1 100000 0] by simp
qed

lemma sample_validates:
  "validate_orders sample_lib sample_locker_env (locker_config sample_config) 1050 [sample_lockable] sample_locker = (Inr [sample_lockable], sample_locker)"
  by (simp add: validate_order_def is_within_deadline_def order_expiry_def locker_config_def sample_config_def sample_locker_env_def
      sample_lock_env_def saturating_sub_def)

lemma sample_locks:
  "\<exists>price. lock_order sample_locker_env sample_lockable sample_locker = (Inr price, sample_locker\<lparr>lk_locked := [sample_lockable]\<rparr>)"
  by (simp add: lock_order_def get_status_def pre_lock_check_def fetch_lock_timestamp_def retry_impl_def price_at_def [of _ 1051]
      sample_locker_env_def sample_lock_env_def Let_def)

lemma sample_processed:
  "\<exists>s'. process_orders sample_lib sample_locker_env (locker_config sample_config) 1050 [sample_lockable] sample_locker = (Inr (), s')
     \<and> lk_locked s' = [sample_lockable] \<and> length (db_orders (pl_db (lk_pipe s'))) = 1"
proof -
  obtain price where l: "lock_order sample_locker_env sample_lockable sample_locker = (Inr price, sample_locker\<lparr>lk_locked := [sample_lockable]\<rparr>)"
    using sample_locks by blast
  have "\<not> lv_listen_only sample_locker_env" "le_now_insert (lv_order sample_locker_env sample_lockable) = (1052, 1052)"
    by (simp_all add: sample_locker_env_def sample_lock_env_def)
  then show ?thesis
    using l sample_validates sample_gas_passes
    by (simp add: process_orders_def lock_and_prove_order_def store_accepted_def lk_db_eq insert_accepted_request_def
        insert_accepted_order_def Let_def statement_no_fault del: validate_orders.simps)
qed

theorem locked_only_when_justified_witness:
  "\<exists>s'. process_orders sample_lib sample_locker_env (locker_config sample_config) 1050 [sample_lockable] sample_locker = (Inr (), s')
     \<and> lk_locked s' = [sample_lockable] \<and> lock_justified sample_locker_env Map.empty sample_lockable"
proof -
  obtain s' where s': "process_orders sample_lib sample_locker_env (locker_config sample_config) 1050 [sample_lockable] sample_locker = (Inr (), s')"
    "lk_locked s' = [sample_lockable]" using sample_processed by blast
  then show ?thesis using locked_only_when_justified [OF s'(1)] by auto
qed

theorem gas_within_balance_witness:
  "\<exists>gas_price available costs. apply_gas_limits sample_lib sample_locker_env (locker_config sample_config) [sample_lockable] sample_locker = (Inr [sample_lockable], sample_locker)
     \<and> lv_gas_price sample_locker_env = Inr gas_price \<and> available_balance_wei sample_locker_env = Inr available
     \<and> map (calculate_order_gas_cost_wei sample_locker_env gas_price) [sample_lockable] = map Inr costs
     \<and> (\<Sum>c\<leftarrow>costs. unat c) \<le> unat available"
  using gas_within_balance [OF sample_gas_passes] sample_gas_passes by fastforce

theorem locker_accounts_for_orders_witness:
  "\<exists>s' rows ids retries. process_orders sample_lib sample_locker_env (locker_config sample_config) 1050 [sample_lockable] sample_locker = (Inr (), s')
     \<and> db_orders (pl_db (lk_pipe s')) = rows \<and> length rows = 1
     \<and> mset (map fst rows) + mset ids + mset (map (order_id sample_lib) retries) = {#order_id sample_lib sample_lockable#}"
proof -
  obtain s' where s': "process_orders sample_lib sample_locker_env (locker_config sample_config) 1050 [sample_lockable] sample_locker = (Inr (), s')"
    "length (db_orders (pl_db (lk_pipe s'))) = 1" using sample_processed by blast
  obtain rows ids retries where "db_orders (pl_db (lk_pipe s')) = rows"
    "mset (map fst rows) + mset ids + mset (map (order_id sample_lib) retries) = mset (map (order_id sample_lib) [sample_lockable])"
    using locker_accounts_for_orders [OF s'(1)] sample_not_overcommitted by auto
  then show ?thesis using s' by auto
qed

theorem locker_stays_well_formed_witness:
  "\<exists>s'. start_monitor sample_lib [(LockerOrder sample_lockable (Inr (7, 1050)) (Inr sample_config), sample_locker_env)] sample_locker = (Inr (), s')
     \<and> locker_ok sample_lib s' \<and> length (order_log (pl_db (lk_pipe s'))) = 1"
proof -
  let ?evs = "[(LockerOrder sample_lockable (Inr (7, 1050)) (Inr sample_config), sample_locker_env)]"
  obtain s' where s': "process_orders sample_lib sample_locker_env (locker_config sample_config) 1050 [sample_lockable] sample_locker = (Inr (), s')"
    "length (db_orders (pl_db (lk_pipe s'))) = 1" using sample_processed by blast
  have run: "start_monitor sample_lib ?evs sample_locker = (Inr (), s')" using s'(1) by simp
  have "locker_ok sample_lib sample_locker"
    by (simp add: locker_ok_def sample_locker_def db_ok_def sample_pipeline_def db_empty_def)
  from locker_stays_well_formed [OF this, of ?evs] show ?thesis
    using run s'(2) by (simp add: order_log_def)
qed

end
