(* ===== verification/Planner.thy ===== *)
theory Planner
  imports Prelude "HOL-Library.Multiset"
begin

text \<open>
  The planner of the proving cluster Bento, \<open>bento/crates/taskdb/src/planner\<close>: it turns the segments and
  keccak proofs of an execution, as they arrive, into a graph of join and union tasks under one
  finalize task.

  Task numbers are positions in the list of tasks. \<open>None\<close> is a panic: an invalid task number in
  \<open>get_task\<close>, or the \<open>unreachable!\<close> of the enqueue loops. Heights are natural numbers: the height of a task is
  at most its number. The vector of peaks is scanned from its end, the smallest peak first, so the
  loops recurse over the reversed list; they are the same for joins and unions, with the constructor of
  the new task as an argument.
\<close>

section \<open>Tasks\<close>

datatype Command = CmdKeccak | CmdFinalize | CmdJoin | CmdSegment | CmdUnion

record Task =
  task_number :: nat
  task_height :: nat
  task_command :: Command
  depends_on :: "nat list"
  keccak_depends_on :: "nat list"

definition new_keccak :: "nat \<Rightarrow> Task" where
  "new_keccak n = \<lparr>task_number = n, task_height = 0, task_command = CmdKeccak, depends_on = [], keccak_depends_on = []\<rparr>"

definition new_segment :: "nat \<Rightarrow> Task" where
  "new_segment n = \<lparr>task_number = n, task_height = 0, task_command = CmdSegment, depends_on = [], keccak_depends_on = []\<rparr>"

definition new_join :: "nat \<Rightarrow> nat \<Rightarrow> nat \<Rightarrow> nat \<Rightarrow> Task" where
  "new_join n height left right =
     \<lparr>task_number = n, task_height = height, task_command = CmdJoin, depends_on = [left, right], keccak_depends_on = []\<rparr>"

definition new_union :: "nat \<Rightarrow> nat \<Rightarrow> nat \<Rightarrow> nat \<Rightarrow> Task" where
  "new_union n height left right =
     \<lparr>task_number = n, task_height = height, task_command = CmdUnion, depends_on = [], keccak_depends_on = [left, right]\<rparr>"

definition new_finalize :: "nat \<Rightarrow> nat \<Rightarrow> nat \<Rightarrow> nat list option \<Rightarrow> Task" where
  "new_finalize n height dep keccak_deps =
     \<lparr>task_number = n, task_height = height, task_command = CmdFinalize, depends_on = [dep],
      keccak_depends_on = (case keccak_deps of Some ds \<Rightarrow> ds | None \<Rightarrow> [])\<rparr>"

section \<open>The planner\<close>

datatype PlannerErr = PlanNotStarted | PlanFinalized

record Planner =
  tasks :: "Task list"
  peaks :: "nat list"
  keccak_peaks :: "nat list"
  consumer_position :: nat
  last_task :: "nat option"

definition planner_default :: Planner where
  "planner_default = \<lparr>tasks = [], peaks = [], keccak_peaks = [], consumer_position = 0, last_task = None\<rparr>"

definition get_task :: "Task list \<Rightarrow> nat \<Rightarrow> Task option" where
  "get_task ts n = (if n < length ts then Some (ts ! n) else None)"

text \<open>\<open>enqueue_join\<close> and \<open>enqueue_union\<close>, by the constructor of the task.\<close>

definition enqueue_pair :: "(nat \<Rightarrow> nat \<Rightarrow> nat \<Rightarrow> nat \<Rightarrow> Task) \<Rightarrow> nat \<Rightarrow> nat \<Rightarrow> Task list \<Rightarrow> (nat \<times> Task list) option" where
  "enqueue_pair mk left right ts =
     Option.bind (get_task ts left) (\<lambda>l.
     Option.bind (get_task ts right) (\<lambda>r.
     Some (length ts, ts @ [mk (length ts) (1 + max (task_height l) (task_height r)) left right])))"

fun settle_peak :: "(nat \<Rightarrow> nat \<Rightarrow> nat \<Rightarrow> nat \<Rightarrow> Task) \<Rightarrow> nat list \<Rightarrow> nat \<Rightarrow> Task list \<Rightarrow> (nat list \<times> Task list) option" where
  "settle_peak mk [] new_peak ts = Some ([new_peak], ts)"
| "settle_peak mk (smallest_peak # rest) new_peak ts =
     Option.bind (get_task ts new_peak) (\<lambda>new.
     Option.bind (get_task ts smallest_peak) (\<lambda>smallest.
     if task_height new < task_height smallest then Some (new_peak # smallest_peak # rest, ts)
     else if task_height new = task_height smallest then
       Option.bind (enqueue_pair mk smallest_peak new_peak ts) (\<lambda>(joined, ts'). settle_peak mk rest joined ts')
     else None))"

definition enqueue_segment :: "Planner \<Rightarrow> ((PlannerErr + nat) \<times> Planner) option" where
  "enqueue_segment p =
     (if last_task p \<noteq> None then Some (Inl PlanFinalized, p)
      else let n = length (tasks p) in
           map_option (\<lambda>(rpeaks, ts). (Inr n, p\<lparr>tasks := ts, peaks := rev rpeaks\<rparr>))
             (settle_peak new_join (rev (peaks p)) n (tasks p @ [new_segment n])))"

definition enqueue_keccak :: "Planner \<Rightarrow> ((PlannerErr + nat) \<times> Planner) option" where
  "enqueue_keccak p =
     (if last_task p \<noteq> None then Some (Inl PlanFinalized, p)
      else let n = length (tasks p) in
           map_option (\<lambda>(rpeaks, ts). (Inr n, p\<lparr>tasks := ts, keccak_peaks := rev rpeaks\<rparr>))
             (settle_peak new_union (rev (keccak_peaks p)) n (tasks p @ [new_keccak n])))"

text \<open>The loops of \<open>finish\<close> and \<open>finish_unions\<close>: the two peaks at one end become one.\<close>

fun collapse_peaks :: "(nat \<Rightarrow> nat \<Rightarrow> nat \<Rightarrow> nat \<Rightarrow> Task) \<Rightarrow> nat list \<Rightarrow> Task list \<Rightarrow> (nat list \<times> Task list) option" where
  "collapse_peaks mk (peak_0 # peak_1 # rest) ts =
     Option.bind (enqueue_pair mk peak_1 peak_0 ts) (\<lambda>(peak_3, ts'). collapse_peaks mk (peak_3 # rest) ts')"
| "collapse_peaks mk ps ts = Some (ps, ts)"

definition finish_unions :: "Planner \<Rightarrow> (nat list option \<times> Planner) option" where
  "finish_unions p =
     (if keccak_peaks p = [] then Some (None, p)
      else map_option (\<lambda>(ps, ts). (Some [ps ! 0], p\<lparr>tasks := ts, keccak_peaks := ps\<rparr>))
             (collapse_peaks new_union (keccak_peaks p) (tasks p)))"

definition enqueue_finalize :: "nat \<Rightarrow> nat list option \<Rightarrow> Task list \<Rightarrow> (nat \<times> Task list) option" where
  "enqueue_finalize dep keccak_deps ts =
     Option.bind (get_task ts dep) (\<lambda>t.
     Option.bind (case keccak_deps of
         Some (d # ds) \<Rightarrow> map_option (\<lambda>k. max (1 + task_height t) (1 + task_height k)) (get_task ts (fold max ds d))
       | _ \<Rightarrow> Some (1 + task_height t)) (\<lambda>height.
     Some (length ts, ts @ [new_finalize (length ts) height dep keccak_deps])))"

definition planner_finish :: "Planner \<Rightarrow> ((PlannerErr + nat) \<times> Planner) option" where
  "planner_finish p =
     (if peaks p = [] then Some (Inl PlanNotStarted, p)
      else Option.bind (finish_unions p) (\<lambda>(keccak_deps, p).
        case last_task p of
          Some n \<Rightarrow> Some (Inr n, p)
        | None \<Rightarrow>
            Option.bind (collapse_peaks new_join (rev (peaks p)) (tasks p)) (\<lambda>(rpeaks, ts).
            map_option (\<lambda>(n, ts'). (Inr n, p\<lparr>tasks := ts', peaks := rev rpeaks, last_task := Some n\<rparr>))
              (enqueue_finalize (rev rpeaks ! 0) keccak_deps ts))))"

definition next_task :: "Planner \<Rightarrow> Task option \<times> Planner" where
  "next_task p =
     (if consumer_position p < length (tasks p)
      then (Some (tasks p ! consumer_position p), p\<lparr>consumer_position := consumer_position p + 1\<rparr>)
      else (None, p))"

section \<open>The graph of tasks\<close>

definition task_deps :: "Task \<Rightarrow> nat list" where
  "task_deps t = depends_on t @ keccak_depends_on t"

definition is_leaf :: "Task \<Rightarrow> bool" where
  "is_leaf t \<longleftrightarrow> task_command t \<in> {CmdSegment, CmdKeccak}"

text \<open>The segments and keccak proofs below a task, from left to right.\<close>

function leaves :: "Task list \<Rightarrow> nat \<Rightarrow> nat list" where
  "leaves ts n = (if is_leaf (ts ! n) then [n]
     else concat (map (\<lambda>d. if d < n then leaves ts d else []) (task_deps (ts ! n))))"
  by auto
termination by (relation "measure snd") auto

declare leaves.simps [simp del]

text \<open>Every task has its position as number and depends on earlier and lower tasks only, so the order of
  the list is an order of execution.\<close>

definition plan_ok :: "Task list \<Rightarrow> bool" where
  "plan_ok ts \<longleftrightarrow> (\<forall>n<length ts. task_number (ts ! n) = n \<and> task_height (ts ! n) \<le> n
     \<and> (\<forall>d\<in>set (task_deps (ts ! n)). d < n \<and> task_height (ts ! d) < task_height (ts ! n)))"

definition leaf_tasks :: "Command \<Rightarrow> Task list \<Rightarrow> nat list" where
  "leaf_tasks c ts = filter (\<lambda>n. task_command (ts ! n) = c) [0..<length ts]"

lemma leaves_append: "n < length ts \<Longrightarrow> leaves (ts @ us) n = leaves ts n"
proof (induction n rule: less_induct)
  case (less n)
  have "leaves (ts @ us) d = leaves ts d" if "d < n" for d using less that by simp
  then show ?case using less.prems by (simp add: leaves.simps [of _ n] nth_append cong: if_cong)
qed

lemma leaf_tasks_append: "leaf_tasks c (ts @ [t]) = leaf_tasks c ts @ (if task_command t = c then [length ts] else [])"
proof -
  have "filter (\<lambda>n. task_command ((ts @ [t]) ! n) = c) [0..<length ts] = filter (\<lambda>n. task_command (ts ! n) = c) [0..<length ts]"
    by (rule filter_cong) (auto simp: nth_append)
  then show ?thesis by (simp add: leaf_tasks_def)
qed

lemma plan_ok_snoc:
  assumes "plan_ok ts" "task_number t = length ts" "task_height t \<le> length ts"
    and "\<forall>d\<in>set (task_deps t). d < length ts \<and> task_height (ts ! d) < task_height t"
  shows "plan_ok (ts @ [t])"
  unfolding plan_ok_def
proof (intro allI impI)
  fix n assume "n < length (ts @ [t])"
  then consider "n = length ts" | "n < length ts" by fastforce
  then show "task_number ((ts @ [t]) ! n) = n \<and> task_height ((ts @ [t]) ! n) \<le> n
     \<and> (\<forall>d\<in>set (task_deps ((ts @ [t]) ! n)). d < n \<and> task_height ((ts @ [t]) ! d) < task_height ((ts @ [t]) ! n))"
  proof cases
    case 2
    then have "d < length ts \<and> d < n \<and> task_height (ts ! d) < task_height (ts ! n)" if "d \<in> set (task_deps (ts ! n))" for d
      using that assms(1) unfolding plan_ok_def by (meson less_trans)
    then show ?thesis using 2 assms(1) by (auto simp: plan_ok_def nth_append)
  qed (use assms in \<open>auto simp: nth_append\<close>)
qed

text \<open>A peak: the root of a perfect tree.\<close>

definition perfect :: "Task list \<Rightarrow> nat \<Rightarrow> bool" where
  "perfect ts n \<longleftrightarrow> n < length ts \<and> length (leaves ts n) = 2 ^ task_height (ts ! n)"

lemma perfect_append: "perfect ts n \<Longrightarrow> perfect (ts @ us) n"
  by (simp add: perfect_def leaves_append nth_append)

text \<open>Appending a task that is no leaf.\<close>

definition inner_tasks :: "Command \<Rightarrow> Task list \<Rightarrow> bool" where
  "inner_tasks c us \<longleftrightarrow> (\<forall>t\<in>set us. task_command t = c)"

lemma leaf_tasks_inner: "inner_tasks c us \<Longrightarrow> c \<noteq> k \<Longrightarrow> leaf_tasks k (ts @ us) = leaf_tasks k ts"
proof (induction us arbitrary: ts)
  case (Cons u us)
  then show ?case using Cons.IH [of "ts @ [u]"] by (simp add: inner_tasks_def leaf_tasks_append)
qed simp

section \<open>Joining two trees\<close>

text \<open>Peaks, the smallest first.\<close>

definition tower :: "Task list \<Rightarrow> nat list \<Rightarrow> bool" where
  "tower ts rpeaks \<longleftrightarrow> (\<forall>n\<in>set rpeaks. perfect ts n) \<and> sorted_wrt (<) (map (\<lambda>n. task_height (ts ! n)) rpeaks)"

lemma tower_append: "tower ts rpeaks \<Longrightarrow> tower (ts @ us) rpeaks"
proof -
  assume t: "tower ts rpeaks"
  then have "map (\<lambda>n. task_height ((ts @ us) ! n)) rpeaks = map (\<lambda>n. task_height (ts ! n)) rpeaks"
    by (auto simp: tower_def perfect_def nth_append)
  then show ?thesis using t by (simp add: tower_def perfect_append del: map_eq_conv)
qed

locale pair_task =
  fixes mk :: "nat \<Rightarrow> nat \<Rightarrow> nat \<Rightarrow> nat \<Rightarrow> Task" and c :: Command
  assumes mk_deps [simp]: "task_deps (mk n h l r) = [l, r]"
    and mk_height [simp]: "task_height (mk n h l r) = h" and mk_number [simp]: "task_number (mk n h l r) = n"
    and mk_command [simp]: "task_command (mk n h l r) = c" and inner: "c \<notin> {CmdSegment, CmdKeccak}"
begin

lemma enqueue_pair_ok:
  assumes "l < length ts" "r < length ts" "plan_ok ts"
  obtains ts' where "enqueue_pair mk l r ts = Some (length ts, ts')" "ts' = ts @ [ts' ! length ts]"
    "task_command (ts' ! length ts) = c" "plan_ok ts'"
    "task_height (ts' ! length ts) = 1 + max (task_height (ts ! l)) (task_height (ts ! r))"
    "leaves ts' (length ts) = leaves ts l @ leaves ts r"
proof
  let ?h = "1 + max (task_height (ts ! l)) (task_height (ts ! r))"
  let ?ts = "ts @ [mk (length ts) ?h l r]"
  show "enqueue_pair mk l r ts = Some (length ts, ?ts)" using assms by (simp add: enqueue_pair_def get_task_def)
  have "?h \<le> length ts" using assms by (auto simp: plan_ok_def max_def)
  then show "plan_ok ?ts"
    using assms by (intro plan_ok_snoc) auto
  have "\<not> is_leaf (?ts ! length ts)" using inner by (simp add: is_leaf_def)
  then show "leaves ?ts (length ts) = leaves ts l @ leaves ts r"
    using assms by (simp add: leaves.simps [of _ "length ts"] leaves_append)
qed simp_all

text \<open>Inserting a perfect tree that is no higher than the peaks: the peaks stay perfect and of strictly
  decreasing height, and the leaves stay in order.\<close>

lemma settle_peak_ok:
  assumes "tower ts rpeaks" "perfect ts new" "\<forall>n\<in>set rpeaks. task_height (ts ! new) \<le> task_height (ts ! n)" "plan_ok ts"
  shows "\<exists>rpeaks' us. settle_peak mk rpeaks new ts = Some (rpeaks', ts @ us) \<and> inner_tasks c us \<and> plan_ok (ts @ us)
    \<and> tower (ts @ us) rpeaks' \<and> concat (map (leaves (ts @ us)) (rev rpeaks')) = concat (map (leaves ts) (rev rpeaks)) @ leaves ts new"
  using assms
proof (induction rpeaks arbitrary: new ts)
  case Nil
  then show ?case by (intro exI [of _ "[new]"] exI [of _ "[]"]) (simp add: tower_def inner_tasks_def)
next
  case (Cons p rest)
  have lt: "p < length ts" "new < length ts" using Cons.prems by (simp_all add: tower_def perfect_def)
  show ?case
  proof (cases "task_height (ts ! new) < task_height (ts ! p)")
    case True
    then have "tower ts (new # p # rest)" using Cons.prems by (auto simp: tower_def)
    then show ?thesis using True lt Cons.prems(4)
      by (intro exI [of _ "new # p # rest"] exI [of _ "[]"]) (simp add: get_task_def inner_tasks_def)
  next
    case False
    then have eq: "task_height (ts ! new) = task_height (ts ! p)" using Cons.prems(3) by auto
    obtain ts' where t: "enqueue_pair mk p new ts = Some (length ts, ts')" "ts' = ts @ [ts' ! length ts]"
      "task_command (ts' ! length ts) = c" "plan_ok ts'"
      "task_height (ts' ! length ts) = 1 + max (task_height (ts ! p)) (task_height (ts ! new))"
      "leaves ts' (length ts) = leaves ts p @ leaves ts new"
      by (rule enqueue_pair_ok [OF lt Cons.prems(4)])
    obtain u where u: "ts' = ts @ [u]" using t(2) by blast
    have old: "n < length ts \<and> perfect ts n \<and> task_height (ts ! p) < task_height (ts ! n)" if "n \<in> set rest" for n
      using that Cons.prems(1) by (simp add: tower_def perfect_def)
    have "tower ts' rest" unfolding u by (rule tower_append) (use Cons.prems(1) in \<open>simp add: tower_def\<close>)
    moreover have "perfect ts' (length ts)"
      using Cons.prems(1,2) t(5,6) eq by (simp add: perfect_def tower_def u)
    moreover have "\<forall>n\<in>set rest. task_height (ts' ! length ts) \<le> task_height (ts' ! n)"
      using old t(5) eq by (auto simp: u nth_append Suc_le_eq)
    ultimately obtain rp us where r: "settle_peak mk rest (length ts) ts' = Some (rp, ts' @ us)" "inner_tasks c us" "plan_ok (ts' @ us)"
      "tower (ts' @ us) rp" "concat (map (leaves (ts' @ us)) (rev rp)) = concat (map (leaves ts') (rev rest)) @ leaves ts' (length ts)"
      using Cons.IH [of ts' "length ts"] t(4) by blast
    have "concat (map (leaves ts') (rev rest)) = concat (map (leaves ts) (rev rest))"
      using old by (intro arg_cong [where f = concat]) (auto simp: u leaves_append)
    then have "settle_peak mk (p # rest) new ts = Some (rp, ts @ u # us) \<and> inner_tasks c (u # us) \<and> plan_ok (ts @ u # us)
       \<and> tower (ts @ u # us) rp
       \<and> concat (map (leaves (ts @ u # us)) (rev rp)) = concat (map (leaves ts) (rev (p # rest))) @ leaves ts new"
      using r t lt eq u by (simp add: get_task_def inner_tasks_def)
    then show ?thesis by blast
  qed
qed

text \<open>Collapsing the peaks into one tree.\<close>

lemma collapse_peaks_ok:
  assumes "\<forall>n\<in>set ps. n < length ts" "ps \<noteq> []" "plan_ok ts"
  shows "\<exists>root us. collapse_peaks mk ps ts = Some ([root], ts @ us) \<and> root < length (ts @ us) \<and> inner_tasks c us \<and> plan_ok (ts @ us)
    \<and> leaves (ts @ us) root = concat (map (leaves ts) (rev ps))"
  using assms
proof (induction "length ps" arbitrary: ps ts)
  case (Suc k)
  show ?case
  proof (cases "\<exists>n. ps = [n]")
    case True
    then show ?thesis using Suc.prems by (auto simp: inner_tasks_def intro!: exI [of _ "[]"])
  next
    case False
    then obtain a b rest where ps: "ps = a # b # rest" using Suc.prems(2) by (cases ps rule: remdups_adj.cases) auto
    obtain ts' where t: "enqueue_pair mk b a ts = Some (length ts, ts')" "ts' = ts @ [ts' ! length ts]"
      "task_command (ts' ! length ts) = c" "plan_ok ts'"
      "leaves ts' (length ts) = leaves ts b @ leaves ts a"
      using Suc.prems ps by (auto intro: enqueue_pair_ok [of b ts a])
    obtain u where u: "ts' = ts @ [u]" using t(2) by blast
    obtain root us where r: "collapse_peaks mk (length ts # rest) ts' = Some ([root], ts' @ us)" "root < length (ts' @ us)"
      "inner_tasks c us" "plan_ok (ts' @ us)" "leaves (ts' @ us) root = concat (map (leaves ts') (rev (length ts # rest)))"
      using Suc.hyps(1) [of "length ts # rest" ts'] Suc.hyps(2) Suc.prems(1) t(4) ps u by fastforce
    have "concat (map (leaves ts') (rev rest)) = concat (map (leaves ts) (rev rest))"
      using Suc.prems(1) ps by (intro arg_cong [where f = concat]) (auto simp: u leaves_append)
    then have "collapse_peaks mk ps ts = Some ([root], ts @ u # us) \<and> root < length (ts @ u # us) \<and> inner_tasks c (u # us)
       \<and> plan_ok (ts @ u # us) \<and> leaves (ts @ u # us) root = concat (map (leaves ts) (rev ps))"
      using r t u ps by (simp add: inner_tasks_def)
    then show ?thesis by blast
  qed
qed simp

text \<open>Collapsed from the smallest peak on, the tree is at most one level higher than the highest peak.\<close>

lemma collapse_peaks_height:
  assumes "collapse_peaks mk (a # rest) ts = Some ([root], ts')" "\<forall>n\<in>set (a # rest). n < length ts" "plan_ok ts"
    and "sorted_wrt (<) (map (\<lambda>n. task_height (ts ! n)) rest)" "\<forall>n\<in>set rest. task_height (ts ! a) \<le> task_height (ts ! n)"
  shows "task_height (ts' ! root) = (if rest = [] then task_height (ts ! a) else Suc (task_height (ts ! last rest)))"
  using assms
proof (induction rest arbitrary: a ts)
  case (Cons b rest)
  have lt: "b < length ts" "a < length ts" using Cons.prems(2) by simp_all
  obtain u where u: "enqueue_pair mk b a ts = Some (length ts, ts @ [u])" "plan_ok (ts @ [u])"
    "task_height u = 1 + max (task_height (ts ! b)) (task_height (ts ! a))"
    by (rule enqueue_pair_ok [OF lt Cons.prems(3)]) (metis nth_append_length)
  have hu: "task_height u = Suc (task_height (ts ! b))" using u(3) Cons.prems(5) by simp
  have old: "n < length ts" "task_height (ts ! b) < task_height (ts ! n)" if "n \<in> set rest" for n
    using that Cons.prems(2,4) by simp_all
  have same: "map (\<lambda>n. task_height ((ts @ [u]) ! n)) rest = map (\<lambda>n. task_height (ts ! n)) rest"
    using old(1) by (simp add: nth_append)
  have "task_height (ts' ! root) = (if rest = [] then task_height ((ts @ [u]) ! length ts) else Suc (task_height ((ts @ [u]) ! last rest)))"
  proof (rule Cons.IH)
    show "collapse_peaks mk (length ts # rest) (ts @ [u]) = Some ([root], ts')" using Cons.prems(1) u(1) by simp
    show "\<forall>n\<in>set (length ts # rest). n < length (ts @ [u])" using old(1) by (auto intro: less_SucI)
    show "sorted_wrt (<) (map (\<lambda>n. task_height ((ts @ [u]) ! n)) rest)" unfolding same using Cons.prems(4) by simp
    show "\<forall>n\<in>set rest. task_height ((ts @ [u]) ! length ts) \<le> task_height ((ts @ [u]) ! n)"
      using old hu by (auto simp: nth_append Suc_le_eq)
  qed (rule u(2))
  then show ?case using hu old(1) last_in_set [of rest] by (auto simp: nth_append)
qed simp

end

interpretation join_task: pair_task new_join CmdJoin
  by unfold_locales (simp_all add: new_join_def task_deps_def)

interpretation union_task: pair_task new_union CmdUnion
  by unfold_locales (simp_all add: new_union_def task_deps_def)

section \<open>The planner keeps its peaks\<close>

text \<open>While segments arrive, the peaks are perfect trees of strictly decreasing height that hold all
  segments in order; likewise the keccak peaks.\<close>

definition planner_inv :: "Planner \<Rightarrow> bool" where
  "planner_inv p \<longleftrightarrow> plan_ok (tasks p) \<and> last_task p = None
     \<and> tower (tasks p) (rev (peaks p)) \<and> concat (map (leaves (tasks p)) (peaks p)) = leaf_tasks CmdSegment (tasks p)
     \<and> tower (tasks p) (rev (keccak_peaks p)) \<and> concat (map (leaves (tasks p)) (keccak_peaks p)) = leaf_tasks CmdKeccak (tasks p)"

lemma planner_inv_default: "planner_inv planner_default"
  by (simp add: planner_inv_def planner_default_def plan_ok_def tower_def leaf_tasks_def)

lemma concat_leaves_append:
  "\<forall>n\<in>set ps. n < length ts \<Longrightarrow> concat (map (leaves (ts @ us)) ps) = concat (map (leaves ts) ps)"
  by (intro arg_cong [where f = concat]) (simp add: leaves_append)

lemma tower_bound: "tower ts ps \<Longrightarrow> \<forall>n\<in>set ps. n < length ts"
  by (simp add: tower_def perfect_def)

lemma plan_ok_leaf: "plan_ok ts \<Longrightarrow> task_number t = length ts \<Longrightarrow> task_height t = 0 \<Longrightarrow> task_deps t = [] \<Longrightarrow> plan_ok (ts @ [t])"
  by (rule plan_ok_snoc) simp_all

lemma perfect_leaf: "is_leaf t \<Longrightarrow> task_height t = 0 \<Longrightarrow> perfect (ts @ [t]) (length ts) \<and> leaves (ts @ [t]) (length ts) = [length ts]"
  by (simp add: perfect_def leaves.simps [of _ "length ts"])

lemmas leaf_task_simps = new_segment_def new_keccak_def task_deps_def is_leaf_def

lemma enqueue_segment_inv:
  assumes "planner_inv p"
  shows "\<exists>p'. enqueue_segment p = Some (Inr (length (tasks p)), p') \<and> planner_inv p'
    \<and> leaf_tasks CmdSegment (tasks p') = leaf_tasks CmdSegment (tasks p) @ [length (tasks p)]
    \<and> leaf_tasks CmdKeccak (tasks p') = leaf_tasks CmdKeccak (tasks p)"
proof -
  let ?t = "new_segment (length (tasks p))"
  let ?ts = "tasks p @ [?t]"
  have ok: "plan_ok ?ts" using assms by (auto intro: plan_ok_leaf simp: planner_inv_def leaf_task_simps)
  have new: "perfect ?ts (length (tasks p))" "leaves ?ts (length (tasks p)) = [length (tasks p)]"
    using perfect_leaf [of ?t "tasks p"] by (simp_all add: leaf_task_simps)
  have tw: "tower ?ts (rev (peaks p))" "tower ?ts (rev (keccak_peaks p))"
    using assms by (simp_all add: planner_inv_def tower_append)
  have b: "\<forall>n\<in>set (peaks p). n < length (tasks p)" "\<forall>n\<in>set (keccak_peaks p). n < length (tasks p)"
    using assms tower_bound [of "tasks p" "rev (peaks p)"] tower_bound [of "tasks p" "rev (keccak_peaks p)"] by (auto simp: planner_inv_def)
  obtain rp us where s: "settle_peak new_join (rev (peaks p)) (length (tasks p)) ?ts = Some (rp, ?ts @ us)" "inner_tasks CmdJoin us"
    "plan_ok (?ts @ us)" "tower (?ts @ us) rp"
    "concat (map (leaves (?ts @ us)) (rev rp)) = concat (map (leaves ?ts) (peaks p)) @ leaves ?ts (length (tasks p))"
    using join_task.settle_peak_ok [OF tw(1) new(1) _ ok] by (auto simp: leaf_task_simps)
  have l: "leaf_tasks CmdSegment (?ts @ us) = leaf_tasks CmdSegment (tasks p) @ [length (tasks p)]"
    "leaf_tasks CmdKeccak (?ts @ us) = leaf_tasks CmdKeccak (tasks p)"
    using leaf_tasks_inner [OF s(2), of _ ?ts] by (simp_all add: leaf_tasks_append leaf_task_simps del: append_assoc)
  let ?p = "p\<lparr>tasks := ?ts @ us, peaks := rev rp\<rparr>"
  have "planner_inv ?p"
    using assms s(3-5) l new(2) tower_append [OF tw(2), of us] concat_leaves_append [OF b(1), of "[?t]"] concat_leaves_append [OF b(2), of "?t # us"]
    by (simp add: planner_inv_def)
  moreover have "enqueue_segment p = Some (Inr (length (tasks p)), ?p)"
    using assms s(1) by (simp add: enqueue_segment_def planner_inv_def Let_def)
  ultimately show ?thesis using l by auto
qed

lemma enqueue_keccak_inv:
  assumes "planner_inv p"
  shows "\<exists>p'. enqueue_keccak p = Some (Inr (length (tasks p)), p') \<and> planner_inv p'
    \<and> leaf_tasks CmdKeccak (tasks p') = leaf_tasks CmdKeccak (tasks p) @ [length (tasks p)]
    \<and> leaf_tasks CmdSegment (tasks p') = leaf_tasks CmdSegment (tasks p)"
proof -
  let ?t = "new_keccak (length (tasks p))"
  let ?ts = "tasks p @ [?t]"
  have ok: "plan_ok ?ts" using assms by (auto intro: plan_ok_leaf simp: planner_inv_def leaf_task_simps)
  have new: "perfect ?ts (length (tasks p))" "leaves ?ts (length (tasks p)) = [length (tasks p)]"
    using perfect_leaf [of ?t "tasks p"] by (simp_all add: leaf_task_simps)
  have tw: "tower ?ts (rev (peaks p))" "tower ?ts (rev (keccak_peaks p))"
    using assms by (simp_all add: planner_inv_def tower_append)
  have b: "\<forall>n\<in>set (peaks p). n < length (tasks p)" "\<forall>n\<in>set (keccak_peaks p). n < length (tasks p)"
    using assms tower_bound [of "tasks p" "rev (peaks p)"] tower_bound [of "tasks p" "rev (keccak_peaks p)"] by (auto simp: planner_inv_def)
  obtain rp us where s: "settle_peak new_union (rev (keccak_peaks p)) (length (tasks p)) ?ts = Some (rp, ?ts @ us)" "inner_tasks CmdUnion us"
    "plan_ok (?ts @ us)" "tower (?ts @ us) rp"
    "concat (map (leaves (?ts @ us)) (rev rp)) = concat (map (leaves ?ts) (keccak_peaks p)) @ leaves ?ts (length (tasks p))"
    using union_task.settle_peak_ok [OF tw(2) new(1) _ ok] by (auto simp: leaf_task_simps)
  have l: "leaf_tasks CmdKeccak (?ts @ us) = leaf_tasks CmdKeccak (tasks p) @ [length (tasks p)]"
    "leaf_tasks CmdSegment (?ts @ us) = leaf_tasks CmdSegment (tasks p)"
    using leaf_tasks_inner [OF s(2), of _ ?ts] by (simp_all add: leaf_tasks_append leaf_task_simps del: append_assoc)
  let ?p = "p\<lparr>tasks := ?ts @ us, keccak_peaks := rev rp\<rparr>"
  have "planner_inv ?p"
    using assms s(3-5) l new(2) tower_append [OF tw(1), of us] concat_leaves_append [OF b(2), of "[?t]"] concat_leaves_append [OF b(1), of "?t # us"]
    by (simp add: planner_inv_def)
  moreover have "enqueue_keccak p = Some (Inr (length (tasks p)), ?p)"
    using assms s(1) by (simp add: enqueue_keccak_def planner_inv_def Let_def)
  ultimately show ?thesis using l by auto
qed

section \<open>Complete plans\<close>

datatype planner_input = SegmentInput | KeccakInput

fun enqueue_input :: "planner_input \<Rightarrow> Planner \<Rightarrow> ((PlannerErr + nat) \<times> Planner) option" where
  "enqueue_input SegmentInput p = enqueue_segment p"
| "enqueue_input KeccakInput p = enqueue_keccak p"

fun plan_inputs :: "planner_input list \<Rightarrow> Planner \<Rightarrow> Planner option" where
  "plan_inputs [] p = Some p"
| "plan_inputs (x # xs) p = Option.bind (enqueue_input x p) (\<lambda>(_, p'). plan_inputs xs p')"

lemma plan_inputs_inv:
  "planner_inv p \<Longrightarrow> \<exists>p'. plan_inputs xs p = Some p' \<and> planner_inv p'
     \<and> length (leaf_tasks CmdSegment (tasks p')) = length (leaf_tasks CmdSegment (tasks p)) + count_list xs SegmentInput
     \<and> length (leaf_tasks CmdKeccak (tasks p')) = length (leaf_tasks CmdKeccak (tasks p)) + count_list xs KeccakInput"
proof (induction xs arbitrary: p)
  case (Cons x xs)
  show ?case
  proof (cases x)
    case SegmentInput
    then show ?thesis using enqueue_segment_inv [OF Cons.prems] Cons.IH by fastforce
  next
    case KeccakInput
    then show ?thesis using enqueue_keccak_inv [OF Cons.prems] Cons.IH by fastforce
  qed
qed simp

text \<open>Perfect trees of strictly decreasing height: together they have fewer than twice the leaves of the
  highest.\<close>

lemma tower_leaves_bound:
  "sorted_wrt (<) (map f ps) \<Longrightarrow> ps \<noteq> [] \<Longrightarrow> (\<Sum>n\<leftarrow>ps. 2 ^ f n) < (2::nat) * 2 ^ f (last ps)"
proof (induction ps rule: rev_induct)
  case (snoc n ps)
  show ?case
  proof (cases "ps = []")
    case False
    have "(\<Sum>n\<leftarrow>ps. 2 ^ f n) < (2::nat) * 2 ^ f (last ps)" using snoc False by (simp add: sorted_wrt_append)
    also have "\<dots> \<le> 2 ^ f n"
    proof -
      have "Suc (f (last ps)) \<le> f n" using snoc.prems(1) False by (simp add: sorted_wrt_append Suc_le_eq)
      then show ?thesis using power_increasing [of "Suc (f (last ps))" "f n" "2::nat"] by simp
    qed
    finally show ?thesis by simp
  qed simp
qed simp

lemma tower_segments:
  assumes "tower ts rp" "rp \<noteq> []"
  shows "2 ^ task_height (ts ! last rp) \<le> length (concat (map (leaves ts) (rev rp)))"
    and "length (concat (map (leaves ts) (rev rp))) < 2 * 2 ^ task_height (ts ! last rp)"
    and "tl rp \<noteq> [] \<Longrightarrow> 2 ^ task_height (ts ! last rp) < length (concat (map (leaves ts) (rev rp)))"
proof -
  let ?f = "\<lambda>n. task_height (ts ! n)"
  have "map (\<lambda>n. length (leaves ts n)) rp = map (\<lambda>n. 2 ^ ?f n) rp" using assms(1) by (auto simp: tower_def perfect_def)
  then have len: "length (concat (map (leaves ts) (rev rp))) = (\<Sum>n\<leftarrow>rp. 2 ^ ?f n)"
    by (simp add: length_concat comp_def rev_map [symmetric] sum_list_rev del: map_eq_conv)
  obtain xs where rp: "rp = xs @ [last rp]" using append_butlast_last_id [OF assms(2)] by metis
  have sum: "(\<Sum>n\<leftarrow>rp. 2 ^ ?f n :: nat) = (\<Sum>n\<leftarrow>xs. 2 ^ ?f n) + 2 ^ ?f (last rp)" by (subst rp) simp
  show "2 ^ ?f (last rp) \<le> length (concat (map (leaves ts) (rev rp)))" unfolding len sum by simp
  show "2 ^ ?f (last rp) < length (concat (map (leaves ts) (rev rp)))" if "tl rp \<noteq> []"
  proof -
    have "xs \<noteq> []"
    proof
      assume "xs = []"
      then have "tl rp = []" by (subst rp) simp
      with that show False by simp
    qed
    then obtain y ys where "xs = y # ys" by (cases xs) auto
    then show ?thesis unfolding len sum by simp
  qed
  show "length (concat (map (leaves ts) (rev rp))) < 2 * 2 ^ ?f (last rp)"
    unfolding len using tower_leaves_bound [of ?f rp] assms by (simp add: tower_def)
qed

text \<open>The unions: all keccak proofs are below one task, or there are none.\<close>

lemma finish_unions_ok:
  assumes "planner_inv p"
  shows "\<exists>deps us ks. finish_unions p = Some (deps, p\<lparr>tasks := tasks p @ us, keccak_peaks := ks\<rparr>) \<and> inner_tasks CmdUnion us
    \<and> plan_ok (tasks p @ us)
    \<and> (case deps of None \<Rightarrow> leaf_tasks CmdKeccak (tasks p) = []
        | Some ds \<Rightarrow> leaf_tasks CmdKeccak (tasks p) \<noteq> []
            \<and> (\<exists>d. ds = [d] \<and> d < length (tasks p @ us) \<and> mset (leaves (tasks p @ us) d) = mset (leaf_tasks CmdKeccak (tasks p))))"
proof (cases "keccak_peaks p = []")
  case True
  then show ?thesis using assms
    by (intro exI [of _ None] exI [of _ "[]"] exI [of _ "keccak_peaks p"]) (simp add: finish_unions_def planner_inv_def inner_tasks_def)
next
  case False
  let ?ps = "keccak_peaks p"
  have "\<forall>n\<in>set ?ps. n < length (tasks p)" using assms tower_bound [of "tasks p" "rev ?ps"] by (simp add: planner_inv_def)
  then obtain root us where c: "collapse_peaks new_union ?ps (tasks p) = Some ([root], tasks p @ us)" "root < length (tasks p @ us)"
    "inner_tasks CmdUnion us" "plan_ok (tasks p @ us)" "leaves (tasks p @ us) root = concat (map (leaves (tasks p)) (rev ?ps))"
    using union_task.collapse_peaks_ok [of ?ps "tasks p"] False assms unfolding planner_inv_def by blast
  have "mset (concat (map (leaves (tasks p)) (rev ?ps))) = mset (concat (map (leaves (tasks p)) ?ps))"
    by (simp add: mset_concat rev_map [symmetric])
  moreover have "leaf_tasks CmdKeccak (tasks p) \<noteq> []"
    using tower_segments(1) [of "tasks p" "rev ?ps"] False assms by (auto simp: planner_inv_def simp del: length_concat)
  ultimately show ?thesis using c False assms
    by (intro exI [of _ "Some [root]"] exI [of _ us] exI [of _ "[root]"]) (simp add: finish_unions_def planner_inv_def)
qed

text \<open>The depth of the join tree: the least height of a binary tree with this many leaves.\<close>

definition least_depth :: "nat \<Rightarrow> nat \<Rightarrow> bool" where
  "least_depth h n \<longleftrightarrow> n \<le> 2 ^ h \<and> (h = 0 \<or> 2 ^ (h - 1) < n)"

lemma collapse_tower:
  assumes "tower ts rp" "rp \<noteq> []" "plan_ok ts"
  shows "\<exists>root us. collapse_peaks new_join rp ts = Some ([root], ts @ us) \<and> root < length (ts @ us) \<and> inner_tasks CmdJoin us
    \<and> plan_ok (ts @ us) \<and> leaves (ts @ us) root = concat (map (leaves ts) (rev rp))
    \<and> least_depth (task_height ((ts @ us) ! root)) (length (concat (map (leaves ts) (rev rp))))"
proof -
  obtain a rest where rp: "rp = a # rest" using assms(2) by (cases rp) auto
  obtain root us where c: "collapse_peaks new_join rp ts = Some ([root], ts @ us)" "root < length (ts @ us)" "inner_tasks CmdJoin us"
    "plan_ok (ts @ us)" "leaves (ts @ us) root = concat (map (leaves ts) (rev rp))"
    using join_task.collapse_peaks_ok [OF tower_bound [OF assms(1)] assms(2,3)] by blast
  have "\<forall>n\<in>set rest. task_height (ts ! a) \<le> task_height (ts ! n)" "sorted_wrt (<) (map (\<lambda>n. task_height (ts ! n)) rest)"
    using assms(1) by (auto simp: rp tower_def)
  then have h: "task_height ((ts @ us) ! root) = (if rest = [] then task_height (ts ! a) else Suc (task_height (ts ! last rest)))"
    using join_task.collapse_peaks_height [OF c(1) [unfolded rp]] tower_bound [OF assms(1)] assms(3) by (simp add: rp)
  have "least_depth (task_height ((ts @ us) ! root)) (length (concat (map (leaves ts) (rev rp))))"
  proof (cases "rest = []")
    case True
    then have "length (concat (map (leaves ts) (rev rp))) = 2 ^ task_height (ts ! a)"
      using assms(1) by (simp add: rp tower_def perfect_def)
    then show ?thesis using True h by (auto simp: least_depth_def intro!: power_strict_increasing)
  next
    case False
    then show ?thesis
      using h tower_segments(2) [OF assms(1,2)] tower_segments(3) [OF assms(1,2)] by (simp add: least_depth_def rp)
  qed
  then show ?thesis using c by blast
qed

text \<open>A plan is complete when its last task is the finalize task, and the join root below it holds all
  segments in order in a tree of least depth, and the union root all keccak proofs, if there are any.\<close>

definition plan_complete :: "Task list \<Rightarrow> nat \<Rightarrow> bool" where
  "plan_complete ts n \<longleftrightarrow> plan_ok ts \<and> Suc n = length ts \<and> task_command (ts ! n) = CmdFinalize
     \<and> (\<exists>root. depends_on (ts ! n) = [root] \<and> leaves ts root = leaf_tasks CmdSegment ts
          \<and> least_depth (task_height (ts ! root)) (length (leaf_tasks CmdSegment ts)))
     \<and> (if leaf_tasks CmdKeccak ts = [] then keccak_depends_on (ts ! n) = []
        else \<exists>k. keccak_depends_on (ts ! n) = [k] \<and> mset (leaves ts k) = mset (leaf_tasks CmdKeccak ts))
     \<and> mset (leaves ts n) = mset (leaf_tasks CmdSegment ts) + mset (leaf_tasks CmdKeccak ts)"

lemma finalize_complete:
  assumes "plan_ok ts" "root < length ts" "leaves ts root = leaf_tasks CmdSegment ts"
    and "least_depth (task_height (ts ! root)) (length (leaf_tasks CmdSegment ts))"
    and "case deps of None \<Rightarrow> leaf_tasks CmdKeccak ts = []
       | Some ds \<Rightarrow> leaf_tasks CmdKeccak ts \<noteq> [] \<and> (\<exists>d. ds = [d] \<and> d < length ts \<and> mset (leaves ts d) = mset (leaf_tasks CmdKeccak ts))"
  shows "\<exists>ts'. enqueue_finalize root deps ts = Some (length ts, ts') \<and> plan_complete ts' (length ts)
    \<and> leaf_tasks CmdSegment ts' = leaf_tasks CmdSegment ts \<and> leaf_tasks CmdKeccak ts' = leaf_tasks CmdKeccak ts"
proof -
  obtain h where e: "enqueue_finalize root deps ts = Some (length ts, ts @ [new_finalize (length ts) h root deps])"
    and h: "h \<le> length ts" "task_height (ts ! root) < h" "\<forall>d\<in>set (case deps of Some ds \<Rightarrow> ds | None \<Rightarrow> []). d < length ts \<and> task_height (ts ! d) < h"
  proof (cases deps)
    case None
    have "Suc (task_height (ts ! root)) \<le> length ts" using assms(1,2) unfolding plan_ok_def by (meson Suc_leI le_less_trans)
    then show ?thesis using that [of "1 + task_height (ts ! root)"] None assms(2) by (simp add: enqueue_finalize_def get_task_def)
  next
    case (Some ds)
    then obtain d where d: "deps = Some [d]" "d < length ts" using assms(5) by auto
    have "task_height (ts ! n) < length ts" if "n < length ts" for n using that assms(1) unfolding plan_ok_def by (meson le_less_trans)
    then show ?thesis
      using that [of "max (1 + task_height (ts ! root)) (1 + task_height (ts ! d))"] d assms(2)
      by (simp add: enqueue_finalize_def get_task_def Suc_le_eq)
  qed
  let ?t = "new_finalize (length ts) h root deps"
  have t: "task_deps ?t = root # (case deps of Some ds \<Rightarrow> ds | None \<Rightarrow> [])" "task_command ?t = CmdFinalize" "\<not> is_leaf ?t"
    by (simp_all add: new_finalize_def task_deps_def is_leaf_def)
  have "plan_ok (ts @ [?t])"
    using assms(1,2) h t by (intro plan_ok_snoc) (auto simp: new_finalize_def)
  moreover have l: "leaf_tasks CmdSegment (ts @ [?t]) = leaf_tasks CmdSegment ts" "leaf_tasks CmdKeccak (ts @ [?t]) = leaf_tasks CmdKeccak ts"
    by (simp_all add: leaf_tasks_append t(2))
  moreover have "mset (leaves (ts @ [?t]) (length ts)) = mset (leaf_tasks CmdSegment ts) + mset (leaf_tasks CmdKeccak ts)"
  proof (cases deps)
    case None
    then show ?thesis using assms(2,3,5) t by (simp add: leaves.simps [of _ "length ts"] leaves_append)
  next
    case (Some ds)
    then obtain d where "ds = [d]" "d < length ts" "mset (leaves ts d) = mset (leaf_tasks CmdKeccak ts)"
      using assms(5) by auto
    then show ?thesis using Some assms(2,3) t by (simp add: leaves.simps [of _ "length ts"] leaves_append)
  qed
  moreover have "\<exists>r. depends_on ?t = [r] \<and> leaves (ts @ [?t]) r = leaf_tasks CmdSegment ts
      \<and> least_depth (task_height ((ts @ [?t]) ! r)) (length (leaf_tasks CmdSegment ts))"
    using assms(2-4) by (intro exI [of _ root]) (simp add: new_finalize_def leaves_append nth_append)
  moreover have "if leaf_tasks CmdKeccak ts = [] then keccak_depends_on ?t = []
      else \<exists>k. keccak_depends_on ?t = [k] \<and> mset (leaves (ts @ [?t]) k) = mset (leaf_tasks CmdKeccak ts)"
  proof (cases deps)
    case None
    then show ?thesis using assms(5) by (simp add: new_finalize_def)
  next
    case (Some ds)
    then obtain d where "ds = [d]" "d < length ts" "mset (leaves ts d) = mset (leaf_tasks CmdKeccak ts)" "leaf_tasks CmdKeccak ts \<noteq> []"
      using assms(5) by auto
    then show ?thesis using Some by (simp add: new_finalize_def leaves_append)
  qed
  ultimately have "plan_complete (ts @ [?t]) (length ts)"
    unfolding plan_complete_def l nth_append_length using t(2) by simp
  then show ?thesis using e l by blast
qed

lemma collapse_single: "collapse_peaks mk ps ts = Some (qs, ts') \<Longrightarrow> length qs \<le> 1"
  by (induction mk ps ts rule: collapse_peaks.induct) (auto simp: bind_eq_Some_conv)

lemma finish_unions_single: "finish_unions p = Some (deps, p') \<Longrightarrow> length (keccak_peaks p') \<le> 1"
  by (auto simp: finish_unions_def dest: collapse_single split: if_splits)

lemma planner_finish_inv:
  assumes p: "planner_inv p" and ne: "peaks p \<noteq> []"
  shows "\<exists>n p'. planner_finish p = Some (Inr n, p') \<and> plan_complete (tasks p') n \<and> last_task p' = Some n
    \<and> leaf_tasks CmdSegment (tasks p') = leaf_tasks CmdSegment (tasks p) \<and> leaf_tasks CmdKeccak (tasks p') = leaf_tasks CmdKeccak (tasks p)
    \<and> length (keccak_peaks p') \<le> 1 \<and> peaks p' \<noteq> []"
proof -
  obtain deps us ks where u: "finish_unions p = Some (deps, p\<lparr>tasks := tasks p @ us, keccak_peaks := ks\<rparr>)" "inner_tasks CmdUnion us"
    "plan_ok (tasks p @ us)" and deps: "case deps of None \<Rightarrow> leaf_tasks CmdKeccak (tasks p) = []
        | Some ds \<Rightarrow> leaf_tasks CmdKeccak (tasks p) \<noteq> []
            \<and> (\<exists>d. ds = [d] \<and> d < length (tasks p @ us) \<and> mset (leaves (tasks p @ us) d) = mset (leaf_tasks CmdKeccak (tasks p)))"
    using finish_unions_ok [OF p] by blast
  let ?ts = "tasks p @ us"
  have tw: "tower ?ts (rev (peaks p))" using p by (simp add: planner_inv_def tower_append)
  obtain root js where j: "collapse_peaks new_join (rev (peaks p)) ?ts = Some ([root], ?ts @ js)" "root < length (?ts @ js)"
    "inner_tasks CmdJoin js" "plan_ok (?ts @ js)" "leaves (?ts @ js) root = concat (map (leaves ?ts) (peaks p))"
    "least_depth (task_height ((?ts @ js) ! root)) (length (concat (map (leaves ?ts) (peaks p))))"
    using collapse_tower [OF tw _ u(3)] ne by auto
  have b: "\<forall>n\<in>set (peaks p). n < length (tasks p)" using p tower_bound [of "tasks p" "rev (peaks p)"] by (simp add: planner_inv_def)
  have seg: "concat (map (leaves ?ts) (peaks p)) = leaf_tasks CmdSegment (tasks p)"
    using concat_leaves_append [OF b] p by (simp add: planner_inv_def)
  have l: "leaf_tasks k (?ts @ js) = leaf_tasks k (tasks p)" if "k \<in> {CmdSegment, CmdKeccak}" for k
    using that leaf_tasks_inner [OF u(2), of k "tasks p"] leaf_tasks_inner [OF j(3), of k ?ts] by auto
  have d: "case deps of None \<Rightarrow> leaf_tasks CmdKeccak (?ts @ js) = []
       | Some ds \<Rightarrow> leaf_tasks CmdKeccak (?ts @ js) \<noteq> []
           \<and> (\<exists>d. ds = [d] \<and> d < length (?ts @ js) \<and> mset (leaves (?ts @ js) d) = mset (leaf_tasks CmdKeccak (?ts @ js)))"
    using deps leaves_append [of _ ?ts js] l [of CmdKeccak] by (auto split: option.splits)
  have ld: "leaves (?ts @ js) root = leaf_tasks CmdSegment (?ts @ js)"
    "least_depth (task_height ((?ts @ js) ! root)) (length (leaf_tasks CmdSegment (?ts @ js)))"
    using j(5,6) seg l [of CmdSegment] by simp_all
  obtain ts' where f: "enqueue_finalize root deps (?ts @ js) = Some (length (?ts @ js), ts')" "plan_complete ts' (length (?ts @ js))"
    "leaf_tasks CmdSegment ts' = leaf_tasks CmdSegment (tasks p)" "leaf_tasks CmdKeccak ts' = leaf_tasks CmdKeccak (tasks p)"
    using finalize_complete [OF j(4,2) ld d] l by auto
  let ?n = "length (?ts @ js)"
  let ?p = "p\<lparr>tasks := ts', peaks := [root], keccak_peaks := ks, last_task := Some ?n\<rparr>"
  have fin: "planner_finish p = Some (Inr ?n, ?p)"
    using ne u(1) j(1) f(1) p by (simp add: planner_finish_def planner_inv_def)
  have "length ks \<le> 1" using u(1) finish_unions_single [of p] by simp
  then show ?thesis using fin f by (intro exI [of _ ?n] exI [of _ ?p]) simp
qed

lemma finished_stays:
  assumes "last_task p = Some n" "length (keccak_peaks p) \<le> 1" "peaks p \<noteq> []"
  shows "planner_finish p = Some (Inr n, p)" "enqueue_input x p = Some (Inl PlanFinalized, p)"
proof -
  have "finish_unions p = Some (if keccak_peaks p = [] then None else Some (keccak_peaks p), p)"
    using assms(2) by (cases "keccak_peaks p") (simp_all add: finish_unions_def)
  then show "planner_finish p = Some (Inr n, p)" using assms by (simp add: planner_finish_def)
  show "enqueue_input x p = Some (Inl PlanFinalized, p)"
    using assms(1) by (cases x) (simp_all add: enqueue_segment_def enqueue_keccak_def)
qed

text \<open>C22: whatever segments and keccak proofs arrive, and in whatever order, the planner never panics.
  Without a segment finishing is refused. With one, it yields a complete plan: every task comes
  after the tasks it depends on, each segment and each keccak proof is below the finalize task
  exactly once, the segments are joined in order, and the join tree is as flat as a binary tree can
  be. Finishing again returns the same task and changes nothing, and nothing can be added any more.\<close>

theorem finished_plan_complete:
  "\<exists>p. plan_inputs xs planner_default = Some p \<and>
     (if SegmentInput \<in> set xs then
        \<exists>n p'. planner_finish p = Some (Inr n, p') \<and> plan_complete (tasks p') n
          \<and> length (leaf_tasks CmdSegment (tasks p')) = count_list xs SegmentInput
          \<and> length (leaf_tasks CmdKeccak (tasks p')) = count_list xs KeccakInput
          \<and> planner_finish p' = Some (Inr n, p') \<and> (\<forall>x. enqueue_input x p' = Some (Inl PlanFinalized, p'))
      else planner_finish p = Some (Inl PlanNotStarted, p))"
proof -
  have empty: "leaf_tasks c (tasks planner_default) = []" for c by (simp add: leaf_tasks_def planner_default_def)
  obtain p where p: "plan_inputs xs planner_default = Some p" "planner_inv p"
    "length (leaf_tasks CmdSegment (tasks p)) = count_list xs SegmentInput"
    "length (leaf_tasks CmdKeccak (tasks p)) = count_list xs KeccakInput"
    using plan_inputs_inv [OF planner_inv_default, of xs] by (auto simp: empty)
  have started: "peaks p \<noteq> [] \<longleftrightarrow> SegmentInput \<in> set xs"
    using p(2,3) tower_segments(1) [of "tasks p" "rev (peaks p)"] count_list_0_iff [of xs SegmentInput]
    by (auto simp: planner_inv_def simp del: length_concat)
  show ?thesis
  proof (cases "SegmentInput \<in> set xs")
    case True
    obtain n p' where f: "planner_finish p = Some (Inr n, p')" "plan_complete (tasks p') n" "last_task p' = Some n"
      "leaf_tasks CmdSegment (tasks p') = leaf_tasks CmdSegment (tasks p)" "leaf_tasks CmdKeccak (tasks p') = leaf_tasks CmdKeccak (tasks p)"
      "length (keccak_peaks p') \<le> 1" "peaks p' \<noteq> []"
      using planner_finish_inv [OF p(2)] started True by blast
    then show ?thesis using p True finished_stays [OF f(3,6,7)]
      by (intro exI [of _ p] conjI) (simp_all add: exI [of _ n] exI [of _ p'])
  next
    case False
    then show ?thesis using p(1) started by (simp add: planner_finish_def)
  qed
qed

theorem finished_plan_complete_witness:
  "\<exists>p n p'. plan_inputs [SegmentInput, KeccakInput, SegmentInput, SegmentInput] planner_default = Some p
     \<and> planner_finish p = Some (Inr n, p') \<and> plan_complete (tasks p') n \<and> length (leaf_tasks CmdSegment (tasks p')) = 3"
  using finished_plan_complete [of "[SegmentInput, KeccakInput, SegmentInput, SegmentInput]"] by auto

end
