(* ===== verification/Spec2Isabelle.thy ===== *)
theory Spec2Isabelle
  imports Pricing Selector Asset PriceOracle MarketConfig OrderTypes OrderPricing DynamicGas
    RequestorPricing Backend Risc0Backend BrokerDb Pipeline OrderProcessor
    Fulfillment Submitter Risc0Batch Batcher RequestorLists Prioritization Dispatch OrderEvaluator OrderCommitter
    OrderLocker Planner
begin

text \<open>
  A verification development for the Boundless prover market: the part of the market crate that a
  prover and a requestor share (\<open>crates/boundless-market/src\<close>), the proving backends
  (\<open>crates/boundless-backend/src\<close>, \<open>crates/risc0-backend/src\<close>), the requestor lists
  (\<open>crates/requestor-lists/src\<close>), the broker (\<open>crates/broker/src\<close>), the program a prover runs, and the task
  planner of the proving cluster (\<open>bento/crates/taskdb/src/planner\<close>).

  \<^bold>\<open>The program.\<close> Requests reach the broker as orders. The order evaluator queues them and hands them
  to the pricer of their chain, at most \<open>max_concurrent_preflights\<close> at a time. Pricing decides whether
  an order is worth proving, from when on and at what price. The order committer queues the priced
  orders and hands them to the locker of their chain when their time has come, at most
  \<open>max_concurrent_proofs\<close> at a time and only if the prover can finish in time. The locker checks that
  an order is still worth it and affordable and locks it on chain. A locked order is a row of the database; the order processor has a backend prove it, the batcher groups finished orders and
  has the backend aggregate them, the submitter fulfills the batch on chain. Whatever ends an order
  sends a message to the committer, which frees the slot. A reaper fails the orders that expired.

  \<^bold>\<open>Theories, and the code they model.\<close>
  \<^item> \<open>Prelude\<close>: machine words, results, and generic lemmas.
  \<^item> \<open>MarketTypes\<close>: requests, predicates, fulfillment data and request identifiers
    (\<open>contracts/mod.rs\<close>): decoding inverts encoding and rejects everything else; evaluation of a predicate
    is right up to collisions of the digest.
  \<^item> \<open>Pricing\<close>: the price curve of an offer and its inverse (\<open>contracts/pricing.rs\<close>): the 256-bit
    computation refines a curve over the natural numbers, is bounded and monotone, and \<open>time_at_price\<close>
    gives the earliest time.
  \<^item> \<open>Selector\<close>, \<open>Asset\<close>, \<open>PriceOracle\<close>, \<open>MarketConfig\<close>: classes of selectors, amounts and conversions, price
    sources with their aggregation and cache, the configuration with its defaults and per-chain merge.
  \<^item> \<open>OrderTypes\<close>, \<open>OrderPricing\<close>: orders and their identifiers (\<open>order_types.rs\<close>); execution limits, checks, preflight
    and the lock and collateral stages (\<open>prover_utils/mod.rs\<close>): an order accepted for locking is profitable and
    within every limit, and pricing never panics. \<open>RequestorPricing\<close> is the estimate a requestor makes with
    the same code, \<open>DynamicGas\<close> the fee estimate.
  \<^item> \<open>Backend\<close>, \<open>Risc0Backend\<close>: the router of backends, their selector policies and the RISC Zero backend:
    what is advertised is exactly what can be dispatched and proved.
  \<^item> \<open>BrokerDb\<close>, \<open>Pipeline\<close>: every statement of the broker's database, with failures of statements, and what
    the services of the proving pipeline share, with the reaper: accepted orders are permanent, a batch
    is extended atomically.
  \<^item> \<open>OrderProcessor\<close>, \<open>Fulfillment\<close>, \<open>Risc0Batch\<close>, \<open>Batcher\<close>, \<open>Submitter\<close>: proving, aggregation, batching and
    submission: an order is passed on or failed with its slot freed, unless the database fails; an update
    aggregates exactly the valid proofs, a batch stays within one assessor group, each seal belongs to the order's
    own proof and matches the submitted root, a submitted batch is settled.
  \<^item> \<open>RequestorLists\<close>, \<open>Prioritization\<close>: lists of priority requestors, their refresh and the order in which orders
    are taken: levels are respected and no order is lost.
  \<^item> \<open>Dispatch\<close>, \<open>OrderEvaluator\<close>, \<open>OrderCommitter\<close>: the two queues and their loops: slots never exceed the limit
    the configuration had, every order is accounted for, and what is handed over can be proved in time.
  \<^item> \<open>OrderLocker\<close>: validation, gas limits, the lock transaction and the loop of the locker
    (\<open>order_locker/service.rs\<close>): an order is locked only when every check holds, the gas stays within the
    balance, every order is stored, released, kept, or dropped for lack of balance, and its state stays well
    formed.
  \<^item> \<open>Planner\<close>: the plan of joins and unions for the segments of one proof: a finished plan covers every
    segment and keccak proof exactly once, with join trees of least depth.
  \<^item> This theory joins the committer with the locker and with the order processor: the slots held after the
    locker has run are those of the orders stored, kept or dropped, and the slot freed at the end of a proof
    is the one that was taken for the order.

  \<^bold>\<open>Conventions.\<close> Structs are records, enums are datatypes, and every function keeps its name where
  Isabelle allows it. \<open>u64\<close>, \<open>u32\<close>, \<open>U256\<close> and addresses are words, with the wrap-around of a release build;
  indices and \<open>usize\<close> are natural numbers. An error is the left side of a sum, a panic an error of its own
  or \<open>None\<close>. A \<open>HashMap\<close> that is iterated is an association list. Clock readings, random draws and
  what a third-party library, the chain, a channel or a prover answers are arguments, or fields of an
  environment record; statements that rely on documented behaviour of such code name it as a
  hypothesis. Interfaces between components (selector registries, pricing contexts, backends, status
  updates, fulfillment builders, assessor groups, services with a capacity, tasks that join two others) are locales, interpreted
  on the definitions of the model.

  \<^bold>\<open>Loops and bounds.\<close> Retries are recursive in the number of attempts left, the services are functions of
  the finite list of events they have handled, and the monitoring loop, which may run forever, is a
  partial function: that it returns with a healthy prover is a theorem. The schedule of the committer
  is compared with natural numbers as long as its sums stay below \<open>2 ^ 64\<close>.

  \<^bold>\<open>Not modelled.\<close> RPC calls and the Solidity contracts, HTTP, storage and websocket clients, the chain
  and market monitors, the pricer service around the pricing functions, start-up and supervision,
  telemetry and logging, the command line, the indexer, the order stream, the agents and the task
  database of the proving cluster, and the reward crates: they are input and output around other programs, or
  independent programs.
\<close>

section \<open>From the end of a proof to free capacity\<close>

text \<open>The committer takes a message of the proving pipeline from the completion channel.\<close>

definition receive_completion :: "CommitmentComplete \<Rightarrow> committer \<Rightarrow> committer" where
  "receive_completion completion s =
     (case handle_committer_event (ProvingCompletion completion) s of Inr s' \<Rightarrow> s' | Inl _ \<Rightarrow> s)"

lemma receive_failed_message:
  "map_of (oc_in_flight (receive_completion (failed_message chain i) s)) = (map_of (oc_in_flight s))(i := None)"
  by (simp add: receive_completion_def failed_message_def AList.delete_conv')

text \<open>C16: the slot the committer took for an order is the slot the order processor frees. When proving an order
  ends, its row says either that it is ready for the batcher or for submission, and then the messages sent leave
  every slot of the committer as it was, or that it failed, and then they release exactly the slot under
  which the committer recorded the order it handed over, and no other. The hypotheses: the database works and has
  the order's row, the completion channel has room, and the order is one the locker stored for the
  request handed over.\<close>

theorem proving_end_releases_slot:
  assumes "prove_and_update_db lib chain retries cancel now market ord (p, es) = (TaskDone, p')" "pl_room p > 0"
    and "accepted ord = accepted (proving_order_from_request t t' req price)"
    and "db_faults (pl_db p) = []" "map_of (db_orders (pl_db p)) (order_id lib req) \<noteq> None"
  shows "\<exists>row msgs. map_of (db_orders (pl_db p')) (order_id lib req) = Some row
     \<and> db_status row \<in> {ReadyForBatch, ReadyForSubmission, Failed} \<and> pl_sent p' = pl_sent p @ msgs
     \<and> map_of (oc_in_flight (fold receive_completion msgs s)) =
         (if db_status row = Failed then (map_of (oc_in_flight s))(order_id lib req := None) else map_of (oc_in_flight s))"
proof -
  have "db_order_id lib ord = order_id lib req"
    using db_order_id_accepted [OF assms(3)] by (simp add: order_id_proving_order)
  then consider "passed_on (order_id lib req) p p'" | "freed chain (order_id lib req) p p'"
    using prove_and_update_settled [OF assms(1,2)] assms(4,5) by (auto simp: settled_def write_failed_def)
  then show ?thesis
  proof cases
    case 1
    then obtain row where "map_of (db_orders (pl_db p')) (order_id lib req) = Some row"
      "db_status row \<in> {ReadyForBatch, ReadyForSubmission}" "pl_sent p' = pl_sent p"
      by (auto simp: passed_on_def)
    then show ?thesis by (intro exI [of _ row] exI [of _ "[]"]) auto
  next
    case 2
    then obtain row where "map_of (db_orders (pl_db p')) (order_id lib req) = Some row" "db_status row = Failed"
      "pl_sent p' = pl_sent p @ [failed_message chain (order_id lib req)]"
      by (auto simp: freed_def)
    then show ?thesis
      by (intro exI [of _ row] exI [of _ "[failed_message chain (order_id lib req)]"]) (simp add: receive_failed_message)
  qed
qed

definition slot_committer :: "OrderRequest \<Rightarrow> committer" where
  "slot_committer req = sample_committer\<lparr>oc_in_flight := [(order_id sample_lib req,
     \<lparr>if_dispatched_at = 0, if_total_cycles = None, if_additional_proof_cycles = 0, if_proving_started_at = None\<rparr>)]\<rparr>"

theorem proving_end_releases_slot_witness:
  "\<exists>p' req row msgs. prove_and_update_db sample_lib 1 1 False 1000 None proving_row (sample_pipeline proving_db router_new, []) = (TaskDone, p')
     \<and> map_of (oc_in_flight (slot_committer req)) (order_id sample_lib req) \<noteq> None
     \<and> map_of (db_orders (pl_db p')) (order_id sample_lib req) = Some row
     \<and> pl_sent p' = pl_sent (sample_pipeline proving_db router_new) @ msgs
     \<and> map_of (oc_in_flight (fold receive_completion msgs (slot_committer req))) =
         (if db_status row = Failed then (map_of (oc_in_flight (slot_committer req)))(order_id sample_lib req := None)
          else map_of (oc_in_flight (slot_committer req)))"
proof -
  let ?req = "(sample_order LockAndFulfill)\<lparr>image_id := Some ''image'', input_id := Some ''input'', expire_timestamp := Some 1200\<rparr>"
  obtain p' where p': "prove_and_update_db sample_lib 1 1 False 1000 None proving_row (sample_pipeline proving_db router_new, []) = (TaskDone, p')"
    using sample_proving_done by blast
  have room: "pl_room (sample_pipeline proving_db router_new) > 0" by (simp add: sample_pipeline_def)
  have acc: "accepted proving_row = accepted (proving_order_from_request 1000 1000 ?req 50)"
    by (simp add: accepted_def proving_row_def ready_row_def proving_order_from_request_def order_from_request_def sample_order_def order_request_new_def)
  have nf: "db_faults (pl_db (sample_pipeline proving_db router_new)) = []"
    by (simp add: sample_pipeline_def proving_db_def db_empty_def)
  have "db_order_id sample_lib proving_row = order_id sample_lib ?req"
    using db_order_id_accepted [OF acc] by (simp add: order_id_proving_order)
  then have row: "map_of (db_orders (pl_db (sample_pipeline proving_db router_new))) (order_id sample_lib ?req) \<noteq> None"
    using sample_proving_rows(1) [of router_new] by simp
  have slot: "map_of (oc_in_flight (slot_committer ?req)) (order_id sample_lib ?req) \<noteq> None"
    by (simp add: slot_committer_def)
  show ?thesis
    using p' slot proving_end_releases_slot [OF p' room acc nf row, of "slot_committer ?req"] by blast
qed

section \<open>The slots of the orders handed to the locker\<close>

lemma receive_skipped_messages:
  "map_of (oc_in_flight (fold receive_completion (map (skipped_message chain) ids) c))
     = (\<lambda>i. if i \<in> set ids then None else map_of (oc_in_flight c) i)"
  by (induction ids arbitrary: c) (auto simp: receive_completion_def skipped_message_def AList.delete_conv' fun_eq_iff)

lemma member_of_parts:
  assumes "mset xs + mset ys + mset zs = mset ws" "distinct ws" "w \<in> set ws"
  shows "w \<notin> set ys \<longleftrightarrow> w \<in> set xs \<or> w \<in> set zs"
proof -
  have "mset (xs @ ys @ zs) = mset ws" using assms(1) by (simp add: add.assoc)
  then have "distinct (xs @ ys @ zs)" "set (xs @ ys @ zs) = set ws"
    using assms(2) by (metis mset_eq_imp_distinct_iff, metis mset_eq_setD)
  then show ?thesis using assms(3) by auto
qed

text \<open>C19: the slots of the committer follow what the locker does: after the committer has handed orders over and
  received the messages the locker sends about them, the slot of one of these orders is taken exactly
  if the order is stored for the proving pipeline, or is kept to be locked at the next block, or passed the
  validation while the balance did not cover the orders committed to, which drops it; every other slot is
  as before. The hypotheses: the pass returns without an error, the database works, the completion channel
  has room for a message per order, the orders have distinct ids, none of them is stored yet, and the committer
  holds a slot for each.\<close>

theorem locker_settles_slots:
  assumes "process_orders lib env cfg ts orders s = (Inr (), s')" "healthy_db s" "length orders \<le> pl_room (lk_pipe s)"
    and "distinct (map (order_id lib) orders)"
    and "\<forall>ord\<in>set orders. map_of (db_orders (pl_db (lk_pipe s))) (order_id lib ord) = None"
    and "\<forall>ord\<in>set orders. map_of (oc_in_flight c) (order_id lib ord) \<noteq> None"
  shows "\<exists>valid s1 msgs retries. validate_orders lib env cfg ts orders s = (Inr valid, s1)
    \<and> pl_sent (lk_pipe s') = pl_sent (lk_pipe s) @ msgs \<and> lk_retry_orders s' = lk_retry_orders s @ retries
    \<and> (\<forall>i\<in>order_id lib ` set orders. map_of (oc_in_flight (fold receive_completion msgs c)) i \<noteq> None \<longleftrightarrow>
          map_of (db_orders (pl_db (lk_pipe s'))) i \<noteq> None \<or> i \<in> order_id lib ` set retries
          \<or> overcommitted env s \<and> i \<in> order_id lib ` set valid)
    \<and> (\<forall>i. i \<notin> order_id lib ` set orders \<longrightarrow> map_of (oc_in_flight (fold receive_completion msgs c)) i = map_of (oc_in_flight c) i)"
proof -
  obtain valid s1 rows ids retries where v: "validate_orders lib env cfg ts orders s = (Inr valid, s1)"
    and a: "accounted lib (lv_chain_id env) orders s s' rows ids retries (dropped_ids lib env s valid)"
    using process_orders_accounted [OF assms(1-5)] by blast
  let ?kept = "map (order_id lib) retries @ dropped_ids lib env s valid"
  have m: "mset (map fst rows) + mset ids + mset ?kept = mset (map (order_id lib) orders)"
    and db: "db_orders (pl_db (lk_pipe s')) = db_orders (pl_db (lk_pipe s)) @ rows"
    using a by (simp_all add: accounted_def add.assoc)
  let ?msgs = "map (skipped_message (lv_chain_id env)) ids"
  have slots: "map_of (oc_in_flight (fold receive_completion ?msgs c)) i = (if i \<in> set ids then None else map_of (oc_in_flight c) i)" for i
    by (simp add: receive_skipped_messages)
  have "set ids \<subseteq> order_id lib ` set orders"
    using arg_cong [OF m, of set_mset] by auto
  then have 1: "\<forall>i. i \<notin> order_id lib ` set orders \<longrightarrow> map_of (oc_in_flight (fold receive_completion ?msgs c)) i = map_of (oc_in_flight c) i"
    unfolding slots by auto
  have "map_of (oc_in_flight (fold receive_completion ?msgs c)) i \<noteq> None \<longleftrightarrow>
      map_of (db_orders (pl_db (lk_pipe s'))) i \<noteq> None \<or> i \<in> order_id lib ` set retries
      \<or> overcommitted env s \<and> i \<in> order_id lib ` set valid" if i: "i \<in> order_id lib ` set orders" for i
  proof -
    have "map_of (db_orders (pl_db (lk_pipe s'))) i \<noteq> None \<longleftrightarrow> i \<in> set (map fst rows)"
      using i assms(5) by (auto simp: db map_of_eq_None_iff simp del: map_of_append not_None_eq)
    moreover have "map_of (oc_in_flight c) i \<noteq> None" using i assms(6) by blast
    moreover have "i \<in> set ?kept \<longleftrightarrow> i \<in> order_id lib ` set retries \<or> overcommitted env s \<and> i \<in> order_id lib ` set valid"
      by (simp add: dropped_ids_def)
    ultimately show ?thesis using member_of_parts [OF m assms(4)] i unfolding slots by auto
  qed
  then show ?thesis using v a 1 unfolding accounted_def by blast
qed

theorem locker_settles_slots_witness:
  "\<exists>s' msgs retries. process_orders sample_lib sample_locker_env (locker_config sample_config) 1050 [sample_lockable] sample_locker = (Inr (), s')
     \<and> pl_sent (lk_pipe s') = pl_sent (lk_pipe sample_locker) @ msgs
     \<and> (map_of (oc_in_flight (fold receive_completion msgs (slot_committer sample_lockable))) (order_id sample_lib sample_lockable) \<noteq> None \<longleftrightarrow>
          map_of (db_orders (pl_db (lk_pipe s'))) (order_id sample_lib sample_lockable) \<noteq> None
          \<or> order_id sample_lib sample_lockable \<in> order_id sample_lib ` set retries)"
proof -
  obtain s' where s': "process_orders sample_lib sample_locker_env (locker_config sample_config) 1050 [sample_lockable] sample_locker = (Inr (), s')"
    using sample_processed by blast
  have "\<forall>ord\<in>set [sample_lockable]. map_of (oc_in_flight (slot_committer sample_lockable)) (order_id sample_lib ord) \<noteq> None"
    by (simp add: slot_committer_def)
  from locker_settles_slots [OF s' _ _ _ _ this] show ?thesis
    using s' sample_not_overcommitted by fastforce
qed

end
